theory Spec2Isabelle
  imports Complex_Main "HOL-Library.Stream"
begin

section \<open>Numbers, time and errors\<close>

text \<open>
  In the simulation (canvas, grid, waves, food and fish) a JavaScript \<open>number\<close> is
  modelled as a real, and a cell index, which the code obtains with \<open>Math.floor\<close>, as an
  integer. The oscillator and \<open>Vector.normalize\<close>, whose properties depend on rounding,
  underflow and overflow, are modelled over binary64 numbers (next section).
  \<open>Date.now()\<close> is the parameter \<open>now\<close>, in milliseconds.
\<close>

datatype error =
  CannotNormalizeZeroVector
  | EmptyArray
  | EmptyPointMap

text \<open>\<open>timeUtil.getElapsedSeconds\<close>\<close>

definition getElapsedSeconds :: "real \<Rightarrow> real \<Rightarrow> real" where
  "getElapsedSeconds now pastTimestamp =
     (let currentTimestamp = now;
          millisecondsElapsed = currentTimestamp - pastTimestamp
      in millisecondsElapsed / 1000)"

text \<open>\<open>numberUtil.scaleToRange\<close>\<close>

definition scaleToRange :: "real \<Rightarrow> real \<Rightarrow> real \<Rightarrow> real" where
  "scaleToRange mn mx scale = mn + (mx - mn) * scale"

section \<open>Binary64 numbers\<close>

text \<open>
  Where a property depends on rounding, underflow or overflow (the oscillator and
  \<open>Vector.normalize\<close>), a \<open>number\<close> is an IEEE 754 binary64 value: a finite value,
  given by the real it denotes, one of the two infinities, or \<open>NaN\<close>. The two zeros are one
  value here: \<open>===\<close> does not tell them apart, and the functions modelled with these
  numbers use a zero only where its sign does not reach the result (a quotient by zero
  is an infinity of the sign of the dividend, as for \<open>+0\<close>; with \<open>-0\<close> it is the other
  infinity, and the oscillator maps both to \<open>NaN\<close>).
\<close>

datatype double = Num real | PosInf | NegInf | NaN

text \<open>
  Rounding to the nearest integer, a tie to the even one.
\<close>

definition roundHalfEven :: "real \<Rightarrow> int" where
  "roundHalfEven t =
     (let f = \<lfloor>t\<rfloor>; d = t - of_int f
      in if d < 1 / 2 then f else if 1 / 2 < d then f + 1 else if even f then f else f + 1)"

text \<open>
  The binary exponent of a non-zero real, the exponent that the format gives it (not
  below -1022: smaller numbers are subnormal and share the exponent of the smallest
  normal numbers, as zero does), and the distance between neighbouring numbers of the
  format around it: 52 binary places below the exponent.
\<close>

definition binade :: "real \<Rightarrow> int" where
  "binade v = \<lfloor>log 2 \<bar>v\<bar>\<rfloor>"

definition expo :: "real \<Rightarrow> int" where
  "expo v = (if v = 0 then - 1022 else max (binade v) (- 1022))"

definition quantum :: "real \<Rightarrow> real" where
  "quantum v = 2 powi (expo v - 52)"

text \<open>
  Round to nearest, ties to even, with an exponent that is not bounded above; and the
  result of an operation whose exact result is \<open>v\<close>: the rounded value, or an infinity
  when the rounded value is beyond the largest finite number \<open>2^1024 - 2^971\<close>.
\<close>

definition nearest :: "real \<Rightarrow> real" where
  "nearest v = quantum v * of_int (roundHalfEven (v / quantum v))"

definition round64 :: "real \<Rightarrow> double" where
  "round64 v =
     (let r = nearest v
      in if 2 powi 1024 \<le> r then PosInf
         else if r \<le> - (2 powi 1024) then NegInf
         else Num r)"

definition infinity :: "bool \<Rightarrow> double" where
  "infinity positive = (if positive then PosInf else NegInf)"

text \<open>The operators \<open>+\<close>, unary and binary \<open>-\<close>, \<open>*\<close> and \<open>/\<close>, and \<open>Math.sqrt\<close>.\<close>

fun add64 :: "double \<Rightarrow> double \<Rightarrow> double" where
  "add64 (Num a) (Num b) = round64 (a + b)"
| "add64 (Num a) PosInf = PosInf"
| "add64 (Num a) NegInf = NegInf"
| "add64 PosInf (Num b) = PosInf"
| "add64 NegInf (Num b) = NegInf"
| "add64 PosInf PosInf = PosInf"
| "add64 NegInf NegInf = NegInf"
| "add64 _ _ = NaN"

fun neg64 :: "double \<Rightarrow> double" where
  "neg64 (Num a) = Num (- a)"
| "neg64 PosInf = NegInf"
| "neg64 NegInf = PosInf"
| "neg64 NaN = NaN"

definition sub64 :: "double \<Rightarrow> double \<Rightarrow> double" where
  "sub64 a b = add64 a (neg64 b)"

fun mul64 :: "double \<Rightarrow> double \<Rightarrow> double" where
  "mul64 (Num a) (Num b) = round64 (a * b)"
| "mul64 (Num a) PosInf = (if a = 0 then NaN else infinity (0 < a))"
| "mul64 (Num a) NegInf = (if a = 0 then NaN else infinity (a < 0))"
| "mul64 PosInf (Num b) = (if b = 0 then NaN else infinity (0 < b))"
| "mul64 NegInf (Num b) = (if b = 0 then NaN else infinity (b < 0))"
| "mul64 PosInf PosInf = PosInf"
| "mul64 NegInf NegInf = PosInf"
| "mul64 PosInf NegInf = NegInf"
| "mul64 NegInf PosInf = NegInf"
| "mul64 _ _ = NaN"

fun div64 :: "double \<Rightarrow> double \<Rightarrow> double" where
  "div64 (Num a) (Num b) =
     (if b = 0 then (if a = 0 then NaN else infinity (0 < a)) else round64 (a / b))"
| "div64 (Num a) PosInf = Num 0"
| "div64 (Num a) NegInf = Num 0"
| "div64 PosInf (Num b) = infinity (0 \<le> b)"
| "div64 NegInf (Num b) = infinity (b < 0)"
| "div64 _ _ = NaN"

fun sqrt64 :: "double \<Rightarrow> double" where
  "sqrt64 (Num a) = (if a < 0 then NaN else round64 (sqrt a))"
| "sqrt64 PosInf = PosInf"
| "sqrt64 _ = NaN"

text \<open>
  The operator \<open>%\<close>: the remainder of the division truncated towards zero, which is
  computed without rounding.
\<close>

fun fmod64 :: "double \<Rightarrow> double \<Rightarrow> double" where
  "fmod64 (Num a) (Num n) =
     (if n = 0 then NaN
      else Num (a - n * of_int (if a / n < 0 then \<lceil>a / n\<rceil> else \<lfloor>a / n\<rfloor>)))"
| "fmod64 (Num a) PosInf = Num a"
| "fmod64 (Num a) NegInf = Num a"
| "fmod64 _ _ = NaN"

text \<open>
  \<open>Math.PI\<close>, the number of the format nearest to pi: 3.141592653589793. \<open>Math.sin\<close> is
  left to the implementation by the language, except that it is \<open>NaN\<close> for \<open>NaN\<close> and for
  the infinities; the oscillator takes it as a parameter. \<open>Math_sin\<close> is the sine
  rounded correctly, one function that it may be.
\<close>

definition Math_PI :: double where
  "Math_PI = Num (884279719003555 / 2 ^ 48)"

definition Math_sin :: "double \<Rightarrow> double" where
  "Math_sin p = (case p of Num v \<Rightarrow> round64 (sin v) | _ \<Rightarrow> NaN)"

section \<open>Geometry: Vector\<close>

record Vector =
  dx :: real
  dy :: real

definition getMagnitude :: "Vector \<Rightarrow> real" where
  "getMagnitude v = sqrt (dx v * dx v + dy v * dy v)"

text \<open>
  \<open>Vector.normalize(mutate)\<close>. The result is the pair of the returned vector and the
  receiver after the call: with \<open>mutate\<close> the receiver is overwritten and returned,
  without it the receiver is untouched and a new vector is returned.
\<close>

definition normalize :: "Vector \<Rightarrow> bool \<Rightarrow> error + (Vector \<times> Vector)" where
  "normalize this mutate =
     (let magnitude = sqrt (dx this * dx this + dy this * dy this)
      in if magnitude = 0 then Inl CannotNormalizeZeroVector
         else
           (let finalDx = dx this / magnitude;
                finalDy = dy this / magnitude
            in if mutate
               then (let this' = this\<lparr>dx := finalDx, dy := finalDy\<rparr> in Inr (this', this'))
               else Inr (\<lparr>dx = finalDx, dy = finalDy\<rparr>, this)))"

text \<open>
  \<open>Vector\<close> and \<open>Vector.normalize(mutate)\<close> over binary64 numbers, operation by operation
  as the source has them.
\<close>

record Vector_f64 =
  dx_f64 :: double
  dy_f64 :: double

definition normalize_f64 :: "Vector_f64 \<Rightarrow> bool \<Rightarrow> error + (Vector_f64 \<times> Vector_f64)" where
  "normalize_f64 this mutate =
     (let magnitude = sqrt64 (add64 (mul64 (dx_f64 this) (dx_f64 this))
                                    (mul64 (dy_f64 this) (dy_f64 this)))
      in if magnitude = Num 0 then Inl CannotNormalizeZeroVector
         else
           (let finalDx = div64 (dx_f64 this) magnitude;
                finalDy = div64 (dy_f64 this) magnitude
            in if mutate
               then (let this' = this\<lparr>dx_f64 := finalDx, dy_f64 := finalDy\<rparr> in Inr (this', this'))
               else Inr (\<lparr>dx_f64 = finalDx, dy_f64 = finalDy\<rparr>, this)))"

section \<open>Ripple\<close>

record Ripple =
  generationTime :: real
  rippleSpeed :: real
  rippleLastUpdateTime :: real
  rippleLength :: real
  initialRippleDispersion :: real

definition lifeTime :: real where
  "lifeTime = 5"

definition peakOpacityTime :: real where
  "peakOpacityTime = 1.5"

text \<open>
  \<open>Ripple.getOpacity\<close>; \<open>maxOpacity\<close> is \<open>getConfig().ripple.maxOpacity\<close>.
\<close>

definition getOpacity :: "real \<Rightarrow> real \<Rightarrow> Ripple \<Rightarrow> real" where
  "getOpacity now maxOpacity this =
     (let existenceTime = getElapsedSeconds now (generationTime this)
      in if existenceTime < peakOpacityTime
         then scaleToRange 0 maxOpacity (existenceTime / peakOpacityTime)
         else
           (let timeSincePeak = existenceTime - peakOpacityTime;
                fadeOutTime = lifeTime - peakOpacityTime
            in scaleToRange maxOpacity 0 (timeSincePeak / fadeOutTime)))"

section \<open>Oscillator\<close>

text \<open>
  The class \<open>Oscillator\<close>, over binary64 numbers. The fields \<open>min\<close>, \<open>max\<close> and \<open>value\<close>
  are \<open>osc_min\<close>, \<open>osc_max\<close> and \<open>osc_value\<close> here.
\<close>

record Oscillator =
  amplitude :: double
  period :: double
  phase :: double
  lastUpdateTime :: double
  osc_min :: double
  osc_max :: double
  neutralValue :: double
  osc_value :: double
  speedFactor :: double

text \<open>The constructor; \<open>now\<close> is the clock reading at construction.\<close>

definition Oscillator_new :: "double \<Rightarrow> double \<Rightarrow> double \<Rightarrow> double \<Rightarrow> Oscillator" where
  "Oscillator_new now mn mx per =
     (let amp = div64 (sub64 mx mn) (Num 2)
      in \<lparr>amplitude = amp, period = per, phase = Num 0, lastUpdateTime = now,
          osc_min = mn, osc_max = mx, neutralValue = add64 mn amp, osc_value = add64 mn amp,
          speedFactor = Num 1\<rparr>)"

text \<open>
  The local \<open>currentPhase\<close> of \<open>Oscillator.update\<close> at the clock reading \<open>now\<close>:
  \<open>2 * Math.PI * (deltaTime / (this.period / this.speedFactor)) + this.phase\<close>. The code
  divides without a guard: with a zero period, or a quotient \<open>period / speedFactor\<close>
  that underflows to zero, the phase is an infinity or \<open>NaN\<close>.
\<close>

definition currentPhase :: "double \<Rightarrow> Oscillator \<Rightarrow> double" where
  "currentPhase now this =
     (let currentTime = now;
          deltaTime = div64 (sub64 currentTime (lastUpdateTime this)) (Num 1000)
      in add64 (mul64 (mul64 (Num 2) Math_PI)
                      (div64 deltaTime (div64 (period this) (speedFactor this))))
               (phase this))"

text \<open>\<open>Oscillator.update\<close>, with the sine of the platform as the parameter \<open>sine\<close>.\<close>

definition Oscillator_update :: "(double \<Rightarrow> double) \<Rightarrow> double \<Rightarrow> Oscillator \<Rightarrow> Oscillator" where
  "Oscillator_update sine now this =
     (let currentTime = now;
          currentPhase = currentPhase now this
      in this\<lparr>lastUpdateTime := currentTime,
              osc_value := add64 (add64 (osc_min this) (amplitude this))
                                 (mul64 (amplitude this) (sine currentPhase)),
              phase := fmod64 currentPhase (mul64 (Num 2) Math_PI)\<rparr>)"

definition setSpeedFactor :: "double \<Rightarrow> Oscillator \<Rightarrow> Oscillator" where
  "setSpeedFactor factor this = this\<lparr>speedFactor := factor\<rparr>"

text \<open>\<open>Oscillator.getValue\<close>: the value read and the oscillator after the call.\<close>

definition getValue :: "(double \<Rightarrow> double) \<Rightarrow> double \<Rightarrow> Oscillator \<Rightarrow> double \<times> Oscillator" where
  "getValue sine now this =
     (let this' = Oscillator_update sine now this in (osc_value this', this'))"

text \<open>
  A client of an oscillator: a sequence of calls, each \<open>getValue\<close> with the clock
  reading it sees. The run collects the values read and returns the oscillator after
  the calls.
\<close>

datatype osc_call = GetValue double | SetSpeedFactor double

fun run_calls :: "(double \<Rightarrow> double) \<Rightarrow> Oscillator \<Rightarrow> osc_call list \<Rightarrow> double list \<times> Oscillator" where
  "run_calls sine osc [] = ([], osc)"
| "run_calls sine osc (SetSpeedFactor f # cs) = run_calls sine (setSpeedFactor f osc) cs"
| "run_calls sine osc (GetValue now # cs) =
     (let (v, osc') = getValue sine now osc;
          (vs, osc'') = run_calls sine osc' cs
      in (v # vs, osc''))"

section \<open>Draw manager\<close>

text \<open>
  The enum \<open>DrawLayer\<close>, in the order of its declaration (which the source comments
  as "top to bottom").
\<close>

datatype DrawLayer =
  DEV | LANTERN | FOOD | PETAL | WAVE | WATER_SURFACE | RIPPLE | LANTERN_SHADOW | FISH

text \<open>
  \<open>Object.keys(DrawLayer)\<close> lists the numeric reverse-mapping keys first and then the
  member names in declaration order; the filter \<open>isNaN(Number(key))\<close> keeps the names,
  the map turns each name into its enum value.
\<close>

definition DrawLayer_members :: "DrawLayer list" where
  "DrawLayer_members =
     [DEV, LANTERN, FOOD, PETAL, WAVE, WATER_SURFACE, RIPPLE, LANTERN_SHADOW, FISH]"

definition layerDrawOrder :: "DrawLayer list" where
  "layerDrawOrder = rev DrawLayer_members"

text \<open>
  A draw callback is opaque (type \<open>'cb\<close>): executing it is recorded by appending it to
  the trace of executed callbacks.
\<close>

record 'cb DrawManager =
  scheduledDraws :: "DrawLayer \<rightharpoonup> 'cb list"

definition DrawManager_new :: "'cb DrawManager" where
  "DrawManager_new = \<lparr>scheduledDraws = Map.empty\<rparr>"

definition scheduleDraw :: "DrawLayer \<Rightarrow> 'cb \<Rightarrow> 'cb DrawManager \<Rightarrow> 'cb DrawManager" where
  "scheduleDraw layer drawCallback this =
     (let scheduledDrawsAtLayer =
            (case scheduledDraws this layer of None \<Rightarrow> [] | Some cbs \<Rightarrow> cbs)
      in this\<lparr>scheduledDraws :=
                 (scheduledDraws this)(layer \<mapsto> scheduledDrawsAtLayer @ [drawCallback])\<rparr>)"

text \<open>\<open>executeScheduledDraws\<close>: the trace of callbacks executed, and the manager after.\<close>

definition executeScheduledDraws :: "'cb DrawManager \<Rightarrow> 'cb list \<times> 'cb DrawManager" where
  "executeScheduledDraws this =
     (concat (map (\<lambda>drawLayer.
                 (case scheduledDraws this drawLayer of None \<Rightarrow> [] | Some cbs \<Rightarrow> cbs))
               layerDrawOrder),
      this\<lparr>scheduledDraws := Map.empty\<rparr>)"

text \<open>A sequence of \<open>scheduleDraw\<close> calls, in call order.\<close>

fun scheduleAll :: "(DrawLayer \<times> 'cb) list \<Rightarrow> 'cb DrawManager \<Rightarrow> 'cb DrawManager" where
  "scheduleAll [] this = this"
| "scheduleAll ((layer, cb) # calls) this = scheduleAll calls (scheduleDraw layer cb this)"

text \<open>
  The order of the specification's words: the debug layer first, then lantern, food,
  petal, wave, water surface, ripple, lantern shadow, fish.
\<close>

definition specLayerOrder :: "DrawLayer list" where
  "specLayerOrder =
     [DEV, LANTERN, FOOD, PETAL, WAVE, WATER_SURFACE, RIPPLE, LANTERN_SHADOW, FISH]"

text \<open>The read \<open>scheduledDraws.get(layer) || []\<close>.\<close>

definition drawsAt :: "'cb DrawManager \<Rightarrow> DrawLayer \<Rightarrow> 'cb list" where
  "drawsAt m l = (case scheduledDraws m l of None \<Rightarrow> [] | Some cbs \<Rightarrow> cbs)"

section \<open>Geometry: Point\<close>

record Point =
  x :: real
  y :: real

section \<open>Canvas and spatial grid\<close>

text \<open>
  The module state of \<open>canvasUtil\<close>: the canvas dimensions, the values derived from
  them by \<open>setupCanvas\<close>, and the cache that \<open>memoize\<close> keeps inside the closure of
  \<open>getAdjacentIndices\<close>. A cache key is \<open>JSON.stringify(args)\<close>, modelled as the list
  of the (integer) arguments.
\<close>

record CanvasUtil =
  canvas_width :: real
  canvas_height :: real
  canvasDiagonalLength :: real
  numCellsX :: int
  numCellsY :: int
  cache :: "int list \<rightharpoonup> int list"

definition cellSize :: real where
  "cellSize = 50"

text \<open>
  \<open>setupCanvas\<close>, with the window's inner width and height as parameters. It assigns the
  dimensions and the derived values and does not touch the cache.
\<close>

definition setupCanvas :: "real \<Rightarrow> real \<Rightarrow> CanvasUtil \<Rightarrow> CanvasUtil" where
  "setupCanvas innerWidth innerHeight this =
     this\<lparr>canvas_width := innerWidth,
          canvas_height := innerHeight,
          canvasDiagonalLength := sqrt (innerWidth ^ 2 + innerHeight ^ 2),
          numCellsX := \<lceil>innerWidth / cellSize\<rceil>,
          numCellsY := \<lceil>innerHeight / cellSize\<rceil>\<rparr>"

text \<open>The module state once the script has loaded and called \<open>setupCanvas\<close> first.\<close>

definition CanvasUtil_loaded :: "real \<Rightarrow> real \<Rightarrow> CanvasUtil" where
  "CanvasUtil_loaded innerWidth innerHeight =
     setupCanvas innerWidth innerHeight
       \<lparr>canvas_width = 0, canvas_height = 0, canvasDiagonalLength = 0,
        numCellsX = 0, numCellsY = 0, cache = Map.empty\<rparr>"

definition getCellIndex :: "CanvasUtil \<Rightarrow> Point \<Rightarrow> int" where
  "getCellIndex this point =
     (let cellX = \<lfloor>x point / cellSize\<rfloor>;
          cellY = \<lfloor>y point / cellSize\<rfloor>
      in cellY * numCellsX this + cellX)"

text \<open>JavaScript's \<open>%\<close> on integers: the sign of the result is the sign of the dividend.\<close>

definition js_rem :: "int \<Rightarrow> int \<Rightarrow> int" where
  "js_rem a n = sgn a * (\<bar>a\<bar> mod \<bar>n\<bar>)"

text \<open>
  The function that \<open>getAdjacentIndices\<close> memoizes. With \<open>numCellsX = 0\<close> the cell
  coordinates are \<open>NaN\<close>, every comparison is false and the list stays empty.
\<close>

definition adjacentIndicesFn :: "CanvasUtil \<Rightarrow> int \<Rightarrow> int \<Rightarrow> int list" where
  "adjacentIndicesFn this cellIndex range' =
     (if numCellsX this = 0 then []
      else
        (let cellX = js_rem cellIndex (numCellsX this);
             cellY = cellIndex div numCellsX this
         in concat (map (\<lambda>dx.
              concat (map (\<lambda>dy.
                (let adjCellX = cellX + dx;
                     adjCellY = cellY + dy
                 in if adjCellX \<ge> 0 \<and> adjCellX < numCellsX this
                       \<and> adjCellY \<ge> 0 \<and> adjCellY < numCellsY this
                    then [adjCellY * numCellsX this + adjCellX]
                    else []))
                [- range' .. range']))
              [- range' .. range'])))"

text \<open>
  \<open>getAdjacentIndices = memoize(...)\<close>, called with both arguments (as
  \<open>getNearbyObjects\<close> does): the result and the module state after the call.
\<close>

definition getAdjacentIndices :: "int \<Rightarrow> int \<Rightarrow> CanvasUtil \<Rightarrow> int list \<times> CanvasUtil" where
  "getAdjacentIndices cellIndex range' this =
     (let key = [cellIndex, range']
      in case cache this key of
           Some cached \<Rightarrow> (cached, this)
         | None \<Rightarrow>
             (let result = adjacentIndicesFn this cellIndex range'
              in (result, this\<lparr>cache := (cache this)(key \<mapsto> result)\<rparr>)))"

text \<open>Calls on the module from outside, in sequence.\<close>

datatype canvas_call = SetupCanvas real real | GetAdjacentIndices int int

fun run_canvas_calls :: "canvas_call list \<Rightarrow> CanvasUtil \<Rightarrow> CanvasUtil" where
  "run_canvas_calls [] this = this"
| "run_canvas_calls (SetupCanvas w h # cs) this = run_canvas_calls cs (setupCanvas w h this)"
| "run_canvas_calls (GetAdjacentIndices i r # cs) this =
     run_canvas_calls cs (snd (getAdjacentIndices i r this))"

text \<open>
  The neighbourhood in the specification's words: the indices of the cells of the
  current grid whose column and row are both within \<open>range'\<close> of those of \<open>cellIndex\<close>
  (Chebyshev distance, no wraparound).
\<close>

definition chebyshevNeighbours :: "CanvasUtil \<Rightarrow> int \<Rightarrow> int \<Rightarrow> int set" where
  "chebyshevNeighbours this cellIndex range' =
     set (filter (\<lambda>j. \<bar>j mod numCellsX this - cellIndex mod numCellsX this\<bar> \<le> range'
                    \<and> \<bar>j div numCellsX this - cellIndex div numCellsX this\<bar> \<le> range')
            [0 .. numCellsX this * numCellsY this - 1])"

section \<open>Geometry: operations on vectors and points\<close>

text \<open>
  A method with a \<open>mutate\<close> flag returns the pair of its result and the receiver after
  the call, as \<open>normalize\<close> does.
\<close>

definition rotateVector :: "Vector \<Rightarrow> real \<Rightarrow> bool \<Rightarrow> Vector \<times> Vector" where
  "rotateVector this angleDegrees mutate =
     (let angleRadians = (- angleDegrees * pi) / 180;
          cosTheta = cos angleRadians;
          sinTheta = sin angleRadians;
          finalDx = dx this * cosTheta - dy this * sinTheta;
          finalDy = dx this * sinTheta + dy this * cosTheta
      in if mutate
         then (let this' = this\<lparr>dx := finalDx, dy := finalDy\<rparr> in (this', this'))
         else (\<lparr>dx = finalDx, dy = finalDy\<rparr>, this))"

definition scale :: "Vector \<Rightarrow> real \<Rightarrow> bool \<Rightarrow> Vector \<times> Vector" where
  "scale this scaleFactor mutate =
     (let finalDx = dx this * scaleFactor;
          finalDy = dy this * scaleFactor
      in if mutate
         then (let this' = this\<lparr>dx := finalDx, dy := finalDy\<rparr> in (this', this'))
         else (\<lparr>dx = finalDx, dy = finalDy\<rparr>, this))"

text \<open>
  \<open>Math.atan2(b, a)\<close>, the angle of the point \<open>(a, b)\<close> in \<open>(-\<pi>, \<pi>]\<close>, and 0 at the
  origin (signed zeros are outside the model).
\<close>

definition atan2 :: "real \<Rightarrow> real \<Rightarrow> real" where
  "atan2 b a =
     (if 0 < a then arctan (b / a)
      else if a < 0 \<and> 0 \<le> b then arctan (b / a) + pi
      else if a < 0 then arctan (b / a) - pi
      else if 0 < b then pi / 2
      else if b < 0 then - pi / 2
      else 0)"

definition getAngle :: "Vector \<Rightarrow> real" where
  "getAngle this =
     (let angle = atan2 (dx this) (dy this);
          degrees = angle * (180 / pi)
      in if degrees < 0 then degrees + 360 else degrees)"

definition signedAngleBetween :: "Vector \<Rightarrow> Vector \<Rightarrow> real" where
  "signedAngleBetween a b =
     (let angleA = atan2 (dy a) (dx a);
          angleB = atan2 (dy b) (dx b);
          angleDegrees = (angleA - angleB) * (180 / pi);
          angleDegrees = (if angleDegrees > 180 then angleDegrees - 360 else angleDegrees);
          angleDegrees = (if angleDegrees < - 180 then angleDegrees + 360 else angleDegrees)
      in angleDegrees)"

definition UP :: Vector where
  "UP = \<lparr>dx = 0, dy = 1\<rparr>"

definition applyVector :: "Point \<Rightarrow> Vector \<Rightarrow> bool \<Rightarrow> Point \<times> Point" where
  "applyVector this vector mutate =
     (let finalX = x this + dx vector;
          finalY = y this + dy vector
      in if mutate
         then (let this' = this\<lparr>x := finalX, y := finalY\<rparr> in (this', this'))
         else (\<lparr>x = finalX, y = finalY\<rparr>, this))"

text \<open>
  \<open>getVectorTo\<close>, \<open>getDirectionTo\<close> and \<open>getDistanceTo\<close> accept a point or an
  environment object, of which they take the position: here the caller passes the
  target's position.
\<close>

definition getVectorTo :: "Point \<Rightarrow> Point \<Rightarrow> Vector" where
  "getVectorTo this targetPoint =
     (let dx = x targetPoint - x this;
          dy = y targetPoint - y this
      in \<lparr>dx = dx, dy = dy\<rparr>)"

definition getDirectionTo :: "Point \<Rightarrow> Point \<Rightarrow> error + Vector" where
  "getDirectionTo this target =
     (case normalize (getVectorTo this target) False of
        Inl e \<Rightarrow> Inl e
      | Inr (direction, _) \<Rightarrow> Inr direction)"

definition getDistanceTo :: "Point \<Rightarrow> Point \<Rightarrow> real" where
  "getDistanceTo this targetPoint = getMagnitude (getVectorTo this targetPoint)"

definition rotateAround :: "Point \<Rightarrow> Point \<Rightarrow> real \<Rightarrow> bool \<Rightarrow> Point \<times> Point" where
  "rotateAround this pointB angleDeg mutate =
     (let angleRad = (angleDeg * pi) / 180;
          x0 = x this - x pointB;
          y0 = y this - y pointB;
          cosAngle = cos angleRad;
          sinAngle = sin angleRad;
          rotatedX = x0 * cosAngle + y0 * sinAngle;
          rotatedY = - x0 * sinAngle + y0 * cosAngle;
          finalX = rotatedX + x pointB;
          finalY = rotatedY + y pointB
      in if mutate
         then (let this' = this\<lparr>x := finalX, y := finalY\<rparr> in (this', this'))
         else (\<lparr>x = finalX, y = finalY\<rparr>, this))"

text \<open>\<open>Point.mutate(newPoint)\<close>: the receiver after the call.\<close>

definition mutate_point :: "Point \<Rightarrow> Point \<Rightarrow> Point" where
  "mutate_point this newPoint = this\<lparr>x := x newPoint, y := y newPoint\<rparr>"

text \<open>\<open>canvasUtil.isPointOutOfBounds\<close> and \<open>canvasUtil.getDistanceToCanvasBorder\<close>\<close>

definition isPointOutOfBounds :: "CanvasUtil \<Rightarrow> Point \<Rightarrow> real \<Rightarrow> bool" where
  "isPointOutOfBounds canvas point tolerance =
     (let minX = - tolerance;
          maxX = canvas_width canvas + tolerance;
          minY = - tolerance;
          maxY = canvas_height canvas + tolerance
      in x point < minX \<or> x point > maxX \<or> y point < minY \<or> y point > maxY)"

definition getDistanceToCanvasBorder :: "CanvasUtil \<Rightarrow> Point \<Rightarrow> real" where
  "getDistanceToCanvasBorder canvas point =
     (let width = canvas_width canvas;
          height = canvas_height canvas;
          distanceToLeft = x point;
          distanceToRight = width - x point;
          distanceToTop = y point;
          distanceToBottom = height - y point;
          minDistanceToBorder =
            \<bar>min (min (min distanceToLeft distanceToRight) distanceToTop) distanceToBottom\<bar>;
          isOutsideCanvas = (x point < 0 \<or> x point > width \<or> y point < 0 \<or> y point > height)
      in if isOutsideCanvas then - minDistanceToBorder else minDistanceToBorder)"

section \<open>Objects and the world\<close>

text \<open>
  Objects are identified by their \<open>id\<close> (a UUID string); a reference to an object is
  its id, and the objects of a class are a store from ids to records of fields.
  \<open>Point\<close> objects that are shared between objects (a target point, a follow point,
  the position of a food) live in a store of points and are referred to by address;
  a position or direction that is only reached through its owner is a field value.
\<close>

type_synonym ref = string
type_synonym addr = nat

record Wave =
  position :: Point
  direction :: Vector
  lastUpdateTime :: real
  speed :: real
  size' :: real
  color :: string

record Food =
  position :: addr
  direction :: Vector
  speed :: real
  lastUpdateTime :: real
  particleDispersion :: real
  isEaten :: bool

text \<open>
  The fields of \<open>KoiFish\<close> that its \<open>update\<close> reads or writes (colours, decorations and
  the scaled lengths only matter to drawing).
\<close>

record KoiFish =
  size' :: real
  position :: Point
  direction :: Vector
  baseSpeed :: real
  speed :: real
  previousSpeed :: real
  turnMultiplier :: real
  targetPoint :: addr
  lastUpdateTime :: real
  lastRippleTime :: real
  finAngleOscillator :: Oscillator
  tailAngleOscillator :: Oscillator
  swayOscillator :: Oscillator
  desiredFood :: "ref option"
  leftFollowAngle :: real
  rightFollowAngle :: real
  leftFollowPoint :: addr
  rightFollowPoint :: addr
  leftFollower :: "ref option"
  rightFollower :: "ref option"
  followTime :: real
  leaderKoiFish :: "ref option"

text \<open>
  An entry of the location map: a reference to an object together with its class, which
  is what \<open>instanceof\<close> tests.
\<close>

datatype EnvironmentObject = KoiFishObject ref | FoodObject ref | LanternObject ref

fun objectId :: "EnvironmentObject \<Rightarrow> ref" where
  "objectId (KoiFishObject i) = i"
| "objectId (FoodObject i) = i"
| "objectId (LanternObject i) = i"

fun instanceofKoiFish :: "EnvironmentObject \<Rightarrow> bool" where
  "instanceofKoiFish (KoiFishObject i) = True"
| "instanceofKoiFish _ = False"

fun instanceofFood :: "EnvironmentObject \<Rightarrow> bool" where
  "instanceofFood (FoodObject i) = True"
| "instanceofFood _ = False"

text \<open>
  The state of the program: the module state of \<open>canvasUtil\<close>, the configuration
  values read, the clock (\<open>Date.now()\<close>, which is taken not to advance during one
  method call), the numbers that the coming calls of \<open>Math.random()\<close> return, the
  stores of objects, and the collections of the object manager.
\<close>

record World =
  canvas :: CanvasUtil
  riverMode :: bool
  followDistance :: real
  clock :: real
  randomNumbers :: "real stream"
  points :: "addr \<Rightarrow> Point"
  nextPoint :: addr
  koiFish :: "ref \<Rightarrow> KoiFish"
  food :: "ref \<Rightarrow> Food"
  wave :: "ref \<Rightarrow> Wave"
  foodMap :: "ref set"
  waveMap :: "ref set"
  locationMap :: "int \<rightharpoonup> EnvironmentObject list"

section \<open>Programs\<close>

text \<open>
  A method is a function from the state before the call to its outcome: \<open>None\<close> when
  the call does not return, otherwise the state after the call together with the value
  returned (\<open>Inr\<close>) or the error thrown (\<open>Inl\<close>). The state changes made before a throw
  persist, as they do in JavaScript.
\<close>

type_synonym 'v prog = "World \<Rightarrow> ((error + 'v) \<times> World) option"

definition ret :: "'v \<Rightarrow> 'v prog" where
  "ret v = (\<lambda>w. Some (Inr v, w))"

definition throw :: "error \<Rightarrow> 'v prog" where
  "throw e = (\<lambda>w. Some (Inl e, w))"

definition bnd :: "'a prog \<Rightarrow> ('a \<Rightarrow> 'b prog) \<Rightarrow> 'b prog" where
  "bnd m f =
     (\<lambda>w. case m w of
             None \<Rightarrow> None
           | Some (Inl e, w') \<Rightarrow> Some (Inl e, w')
           | Some (Inr v, w') \<Rightarrow> f v w')"

definition reads :: "(World \<Rightarrow> 'v) \<Rightarrow> 'v prog" where
  "reads f = (\<lambda>w. Some (Inr (f w), w))"

definition modify :: "(World \<Rightarrow> World) \<Rightarrow> unit prog" where
  "modify f = (\<lambda>w. Some (Inr (), f w))"

definition seq :: "unit prog \<Rightarrow> 'b prog \<Rightarrow> 'b prog" where
  "seq m k = bnd m (\<lambda>_. k)"

text \<open>A result that is an error or a value, raised into a program.\<close>

definition raise :: "error + 'v \<Rightarrow> 'v prog" where
  "raise r = (case r of Inl e \<Rightarrow> throw e | Inr v \<Rightarrow> ret v)"

text \<open>\<open>new Point(...)\<close> for a point that is going to be shared: its address.\<close>

definition newPoint :: "Point \<Rightarrow> addr prog" where
  "newPoint p =
     (\<lambda>w. Some (Inr (nextPoint w),
                 w\<lparr>points := (points w)(nextPoint w := p), nextPoint := Suc (nextPoint w)\<rparr>))"

definition updateKoiFish :: "ref \<Rightarrow> (KoiFish \<Rightarrow> KoiFish) \<Rightarrow> World \<Rightarrow> World" where
  "updateKoiFish i f w = w\<lparr>koiFish := (koiFish w)(i := f (koiFish w i))\<rparr>"

definition updateFood :: "ref \<Rightarrow> (Food \<Rightarrow> Food) \<Rightarrow> World \<Rightarrow> World" where
  "updateFood i f w = w\<lparr>food := (food w)(i := f (food w i))\<rparr>"

definition updateWave :: "ref \<Rightarrow> (Wave \<Rightarrow> Wave) \<Rightarrow> World \<Rightarrow> World" where
  "updateWave i f w = w\<lparr>wave := (wave w)(i := f (wave w i))\<rparr>"

section \<open>Random numbers and random points\<close>

text \<open>\<open>Math.random()\<close>: the next number of the stream, in \<open>[0, 1)\<close>.\<close>

definition Math_random :: "real prog" where
  "Math_random = (\<lambda>w. Some (Inr (shd (randomNumbers w)),
                            w\<lparr>randomNumbers := stl (randomNumbers w)\<rparr>))"

definition getRandomNumber :: "real \<Rightarrow> real \<Rightarrow> real prog" where
  "getRandomNumber mn mx = bnd Math_random (\<lambda>r. ret (r * (mx - mn) + mn))"

definition getRandomItem :: "'a list \<Rightarrow> 'a prog" where
  "getRandomItem items =
     (if length items = 0 then throw EmptyArray
      else bnd Math_random (\<lambda>r.
             (let randomIndex = \<lfloor>r * real (length items)\<rfloor>
              in ret (items ! nat randomIndex))))"

text \<open>\<open>Point.getRandomPoint(ratio)\<close>\<close>

definition getRandomPoint :: "real \<Rightarrow> Point prog" where
  "getRandomPoint ratio =
     bnd (reads canvas) (\<lambda>c.
       (let marginX = ((1 - ratio) * canvas_width c) / 2;
            marginY = ((1 - ratio) * canvas_height c) / 2
        in bnd Math_random (\<lambda>r1.
           bnd Math_random (\<lambda>r2.
             ret \<lparr>x = marginX + r1 * (canvas_width c * ratio),
                  y = marginY + r2 * (canvas_height c * ratio)\<rparr>))))"

definition getTopEdgePoint :: "real \<Rightarrow> Point prog" where
  "getTopEdgePoint outsideDistance =
     bnd (reads canvas) (\<lambda>c.
     bnd Math_random (\<lambda>r.
       ret \<lparr>x = r * canvas_width c, y = canvas_height c + outsideDistance\<rparr>))"

definition getBottomEdgePoint :: "real \<Rightarrow> Point prog" where
  "getBottomEdgePoint outsideDistance =
     bnd (reads canvas) (\<lambda>c.
     bnd Math_random (\<lambda>r.
       ret \<lparr>x = r * canvas_width c, y = 0 - outsideDistance\<rparr>))"

definition getLeftEdgePoint :: "real \<Rightarrow> Point prog" where
  "getLeftEdgePoint outsideDistance =
     bnd (reads canvas) (\<lambda>c.
     bnd Math_random (\<lambda>r.
       ret \<lparr>x = 0 - outsideDistance, y = r * canvas_height c\<rparr>))"

definition getRightEdgePoint :: "real \<Rightarrow> Point prog" where
  "getRightEdgePoint outsideDistance =
     bnd (reads canvas) (\<lambda>c.
     bnd Math_random (\<lambda>r.
       ret \<lparr>x = canvas_width c + outsideDistance, y = r * canvas_height c\<rparr>))"

definition getRandomEdgePoint :: "real \<Rightarrow> Point prog" where
  "getRandomEdgePoint outsideDistance =
     bnd (getRandomItem
            [getTopEdgePoint, getBottomEdgePoint, getLeftEdgePoint, getRightEdgePoint])
       (\<lambda>edgePointCallback. edgePointCallback outsideDistance)"

definition getTopLeftCornerPoint :: "real \<Rightarrow> Point prog" where
  "getTopLeftCornerPoint outsideDistance =
     bnd (reads canvas) (\<lambda>c.
     bnd (getRandomItem [True, False]) (\<lambda>top.
       if top
       then bnd (getRandomNumber 0 (canvas_width c / 2)) (\<lambda>px.
              ret \<lparr>x = px, y = canvas_height c + outsideDistance\<rparr>)
       else bnd (getRandomNumber (canvas_height c / 2) (canvas_height c)) (\<lambda>py.
              ret \<lparr>x = 0 - outsideDistance, y = py\<rparr>)))"

text \<open>\<open>Vector.getDownRightDirection\<close> and \<open>Vector.getRandomDirection\<close>\<close>

definition getDownRightDirection :: "Vector prog" where
  "getDownRightDirection =
     bnd Math_random (\<lambda>r1.
     bnd Math_random (\<lambda>r2.
       (let dx = r1; dy = - r2
        in bnd (raise (normalize \<lparr>dx = dx, dy = dy\<rparr> False)) (\<lambda>(direction, _).
             ret direction))))"

text \<open>\<open>Vector.getRandomDirection\<close>\<close>

definition getRandomDirection :: "Vector prog" where
  "getRandomDirection =
     bnd (getRandomItem [1, - 1]) (\<lambda>s1.
     bnd Math_random (\<lambda>r1.
     bnd (getRandomItem [1, - 1]) (\<lambda>s2.
     bnd Math_random (\<lambda>r2.
     bnd (raise (normalize \<lparr>dx = s1 * r1, dy = s2 * r2\<rparr> False)) (\<lambda>(direction, _).
       ret direction)))))"

section \<open>Wave\<close>

definition prepareReentry :: "ref \<Rightarrow> unit prog" where
  "prepareReentry this =
     bnd (reads riverMode) (\<lambda>river.
     bnd (if river
          then bnd (getTopLeftCornerPoint 300) (\<lambda>newPosition.
               bnd getDownRightDirection (\<lambda>newDirection.
                 ret (newPosition, newDirection)))
          else bnd (getRandomEdgePoint 300) (\<lambda>newPosition.
               bnd (getRandomPoint 1) (\<lambda>randomPoint.
               bnd (raise (getDirectionTo newPosition randomPoint)) (\<lambda>newDirection.
                 ret (newPosition, newDirection)))))
       (\<lambda>(newPosition, newDirection).
          modify (updateWave this (\<lambda>wv.
            wv\<lparr>Wave.position := newPosition, Wave.direction := newDirection\<rparr>))))"

text \<open>\<open>Wave.update\<close>. Nothing in it touches the wave collection of the object manager.\<close>

definition Wave_update :: "ref \<Rightarrow> unit prog" where
  "Wave_update this =
     bnd (reads (\<lambda>w. (clock w, canvas w))) (\<lambda>(currentTime, c).
     seq (modify (updateWave this (\<lambda>wv.
            wv\<lparr>Wave.position :=
                  snd (applyVector (Wave.position wv)
                         (fst (scale (Wave.direction wv)
                                 (Wave.speed wv
                                    * getElapsedSeconds currentTime (Wave.lastUpdateTime wv))
                                 False))
                         True)\<rparr>)))
    (bnd (reads (\<lambda>w. Wave.position (wave w this))) (\<lambda>translated.
     seq (if isPointOutOfBounds c translated 500 then prepareReentry this else ret ())
         (modify (updateWave this (\<lambda>wv. wv\<lparr>Wave.lastUpdateTime := currentTime\<rparr>))))))"

section \<open>Object manager: nearby objects\<close>

text \<open>
  \<open>ObjectManager.getNearbyObjects(sourceObject, targetClass, range)\<close>, with the
  position and the id of the source object and the \<open>instanceof\<close> test of the target
  class as parameters. It returns the references found, and takes the adjacent cells
  from the memoized \<open>getAdjacentIndices\<close>.
\<close>

definition getNearbyObjects ::
    "Point \<Rightarrow> ref \<Rightarrow> (EnvironmentObject \<Rightarrow> bool) \<Rightarrow> int \<Rightarrow> ref list prog" where
  "getNearbyObjects sourcePosition sourceId instanceofTargetClass range' =
     (\<lambda>w.
        (let cellIndex = getCellIndex (canvas w) sourcePosition;
             (adjacentIndices, canvas') = getAdjacentIndices cellIndex range' (canvas w);
             nearbyObjects =
               concat (map (\<lambda>adjacentIndex.
                 (let objectsAtCell =
                        (case locationMap w adjacentIndex of None \<Rightarrow> [] | Some objs \<Rightarrow> objs)
                  in filter (\<lambda>obj. instanceofTargetClass obj \<and> objectId obj \<noteq> sourceId)
                       objectsAtCell))
                 adjacentIndices)
         in Some (Inr (map objectId nearbyObjects), w\<lparr>canvas := canvas'\<rparr>)))"

section \<open>Food\<close>

text \<open>
  \<open>Food.onEaten\<close> marks the food as eaten; the timer it starts removes the particles
  and later the food between frames, outside the call.
\<close>

definition onEaten :: "ref \<Rightarrow> unit prog" where
  "onEaten this = modify (updateFood this (\<lambda>fd. fd\<lparr>isEaten := True\<rparr>))"

section \<open>KoiFish\<close>

definition maxRotationAnglePerSecond :: real where
  "maxRotationAnglePerSecond = 18"

definition maxSpeedChangePerSecond :: real where
  "maxSpeedChangePerSecond = 1.5"

definition canvasExitDistance :: real where
  "canvasExitDistance = - 20"

definition LEFT_SIDE :: string where
  "LEFT_SIDE = ''left''"

definition RIGHT_SIDE :: string where
  "RIGHT_SIDE = ''right''"

definition setLeaderFollower :: "ref \<Rightarrow> ref \<Rightarrow> string \<Rightarrow> unit prog" where
  "setLeaderFollower leader follower side =
     seq (modify (updateKoiFish follower (\<lambda>f. f\<lparr>leaderKoiFish := Some leader\<rparr>)))
       (if side = LEFT_SIDE
        then seq (modify (updateKoiFish leader (\<lambda>l. l\<lparr>leftFollower := Some follower\<rparr>)))
                 (modify (\<lambda>w. updateKoiFish follower
                                 (\<lambda>f. f\<lparr>targetPoint := leftFollowPoint (koiFish w leader)\<rparr>) w))
        else seq (modify (updateKoiFish leader (\<lambda>l. l\<lparr>rightFollower := Some follower\<rparr>)))
                 (modify (\<lambda>w. updateKoiFish follower
                                 (\<lambda>f. f\<lparr>targetPoint := rightFollowPoint (koiFish w leader)\<rparr>) w)))"

definition unsetLeaderFollower :: "ref \<Rightarrow> ref \<Rightarrow> unit prog" where
  "unsetLeaderFollower leader follower =
     seq (modify (updateKoiFish leader (\<lambda>l.
            if leftFollower l = Some follower
            then l\<lparr>leftFollower := None\<rparr>
            else l\<lparr>rightFollower := None\<rparr>)))
         (modify (updateKoiFish follower (\<lambda>f. f\<lparr>leaderKoiFish := None\<rparr>)))"

definition getAvailableFollowPositions :: "KoiFish \<Rightarrow> string list" where
  "getAvailableFollowPositions this =
     (if leftFollower this = None then [LEFT_SIDE] else [])
     @ (if rightFollower this = None then [RIGHT_SIDE] else [])"

definition handleOutOfBounds :: "ref \<Rightarrow> unit prog" where
  "handleOutOfBounds this =
     bnd (getRandomEdgePoint (0.8 * \<bar>canvasExitDistance\<bar>)) (\<lambda>newPosition.
     seq (modify (updateKoiFish this (\<lambda>f. f\<lparr>position := newPosition\<rparr>)))
    (bnd (getRandomPoint 0.8) (\<lambda>randomPoint.
     bnd (newPoint randomPoint) (\<lambda>newTarget.
     seq (modify (updateKoiFish this (\<lambda>f. f\<lparr>targetPoint := newTarget\<rparr>)))
    (bnd (raise (getDirectionTo newPosition randomPoint)) (\<lambda>newDirection.
     modify (updateKoiFish this (\<lambda>f. f\<lparr>direction := newDirection\<rparr>))))))))"

text \<open>
  The loop of \<open>setNewRandomTargetPoint\<close>: it draws points until one is at least 300
  away from the fish, and does not return when no such point is ever drawn. The
  candidate starts as the position of the fish at distance 0, so the loop body runs at
  least once and the result is always a newly drawn point.
\<close>

partial_function (option) newTargetPointLoop ::
    "Point \<Rightarrow> Point \<Rightarrow> real \<Rightarrow> World \<Rightarrow> ((error + Point) \<times> World) option" where
  "newTargetPointLoop fishPosition newTargetPoint distanceToNewTargetPoint w =
     (if distanceToNewTargetPoint < 300
      then (case getRandomPoint 0.9 w of
              None \<Rightarrow> None
            | Some (Inl e, w') \<Rightarrow> Some (Inl e, w')
            | Some (Inr drawn, w') \<Rightarrow>
                newTargetPointLoop fishPosition drawn (getDistanceTo fishPosition drawn) w')
      else Some (Inr newTargetPoint, w))"

definition setNewRandomTargetPoint :: "ref \<Rightarrow> unit prog" where
  "setNewRandomTargetPoint this =
     bnd (reads (\<lambda>w. position (koiFish w this))) (\<lambda>fishPosition.
     bnd (newTargetPointLoop fishPosition fishPosition 0) (\<lambda>newTargetPoint.
     bnd (newPoint newTargetPoint) (\<lambda>newTarget.
     modify (updateKoiFish this (\<lambda>f. f\<lparr>targetPoint := newTarget\<rparr>)))))"

definition smoothenDirectionChange :: "ref \<Rightarrow> World \<Rightarrow> World" where
  "smoothenDirectionChange this w =
     (let f = koiFish w this;
          secondsSinceLastUpdate = getElapsedSeconds (clock w) (lastUpdateTime f);
          maxRotationAngle = maxRotationAnglePerSecond * secondsSinceLastUpdate;
          targetVector = getVectorTo (position f) (points w (targetPoint f));
          desiredAngleChange = signedAngleBetween (direction f) targetVector;
          finalAngleChange =
            min maxRotationAngle \<bar>desiredAngleChange\<bar> * sgn desiredAngleChange
              * turnMultiplier f
      in if \<bar>desiredAngleChange\<bar> > 2
         then updateKoiFish this
                (\<lambda>f. f\<lparr>direction := snd (rotateVector (direction f) finalAngleChange True)\<rparr>) w
         else w)"

definition smoothenSpeedChange :: "ref \<Rightarrow> World \<Rightarrow> World" where
  "smoothenSpeedChange this w =
     (let f = koiFish w this;
          secondsSinceLastUpdate = getElapsedSeconds (clock w) (lastUpdateTime f);
          maxSpeedChange = maxSpeedChangePerSecond * secondsSinceLastUpdate;
          speedDifference = speed f - previousSpeed f
      in if \<bar>speedDifference\<bar> > maxSpeedChange
         then updateKoiFish this
                (\<lambda>f. f\<lparr>speed := previousSpeed f + sgn speedDifference * maxSpeedChange\<rparr>) w
         else w)"

definition updateFollowPoints :: "ref \<Rightarrow> World \<Rightarrow> World" where
  "updateFollowPoints this w =
     (let f = koiFish w this;
          newLeftFollowPoint =
            fst (rotateAround
                   (fst (applyVector (position f)
                           (fst (scale (fst (rotateVector UP (leftFollowAngle f) False))
                                   (followDistance w) False))
                           False))
                   (position f) (getAngle (direction f)) False);
          newRightFollowPoint =
            fst (rotateAround
                   (fst (applyVector (position f)
                           (fst (scale (fst (rotateVector UP (rightFollowAngle f) False))
                                   (followDistance w) False))
                           False))
                   (position f) (getAngle (direction f)) False);
          pts = points w;
          pts = pts(leftFollowPoint f := mutate_point (pts (leftFollowPoint f)) newLeftFollowPoint);
          pts = pts(rightFollowPoint f := mutate_point (pts (rightFollowPoint f)) newRightFollowPoint)
      in w\<lparr>points := pts\<rparr>)"

text \<open>
  The loop of \<open>checkAndSetFoodBehavior\<close> over the nearby food: the accumulator is the
  closest uneaten food so far with its distance, \<open>None\<close> for the initial
  \<open>undefined\<close> and \<open>Infinity\<close>.
\<close>

fun closestFoodLoop ::
    "World \<Rightarrow> Point \<Rightarrow> ref list \<Rightarrow> (ref \<times> real) option \<Rightarrow> (ref \<times> real) option" where
  "closestFoodLoop w fishPosition [] closest = closest"
| "closestFoodLoop w fishPosition (nearbyFood # rest) closest =
     (if isEaten (food w nearbyFood) then closestFoodLoop w fishPosition rest closest
      else
        (let distanceToFood =
               getDistanceTo fishPosition (points w (Food.position (food w nearbyFood)))
         in if (case closest of
                  None \<Rightarrow> True
                | Some (closestFood, closestDistance) \<Rightarrow> distanceToFood < closestDistance)
            then closestFoodLoop w fishPosition rest (Some (nearbyFood, distanceToFood))
            else closestFoodLoop w fishPosition rest closest))"

text \<open>
  The first block of \<open>checkAndSetFoodBehavior\<close>: a desired food that is closer than 20
  or no longer in the food map is eaten and forgotten.
\<close>

definition eatDesiredFood :: "ref \<Rightarrow> unit prog" where
  "eatDesiredFood this =
     bnd (reads (\<lambda>w. desiredFood (koiFish w this))) (\<lambda>desired.
       case desired of
         None \<Rightarrow> ret ()
       | Some wanted \<Rightarrow>
           bnd (reads (\<lambda>w. (wanted \<in> foodMap w,
                             getDistanceTo (position (koiFish w this))
                               (points w (Food.position (food w wanted))))))
             (\<lambda>(foodStillExists, distanceToFood).
                if distanceToFood < 20 \<or> \<not> foodStillExists
                then seq (onEaten wanted)
                       (modify (updateKoiFish this (\<lambda>f. f\<lparr>desiredFood := None\<rparr>)))
                else ret ()))"

text \<open>
  The block of \<open>checkAndSetFoodBehavior\<close> for a closest food found: the fish leaves its
  leader, takes the food as desired food and the position object of the food as target
  point, and sets speed and turn multiplier by distance and angle.
\<close>

definition chaseFood :: "ref \<Rightarrow> ref \<Rightarrow> unit prog" where
  "chaseFood this closestFood =
     seq (bnd (reads (\<lambda>w. leaderKoiFish (koiFish w this))) (\<lambda>followed.
            case followed of
              Some leader \<Rightarrow> unsetLeaderFollower leader this
            | None \<Rightarrow> ret ()))
    (seq (modify (\<lambda>w. updateKoiFish this
                        (\<lambda>f. f\<lparr>desiredFood := Some closestFood,
                                targetPoint := Food.position (food w closestFood)\<rparr>) w))
    (bnd (reads (\<lambda>w. getVectorTo (position (koiFish w this))
                         (points w (targetPoint (koiFish w this))))) (\<lambda>targetVector.
     bnd (raise (normalize targetVector False)) (\<lambda>(targetDirection, _).
     bnd (reads (\<lambda>w. (getMagnitude targetVector,
                       signedAngleBetween (direction (koiFish w this)) targetDirection)))
       (\<lambda>(targetDistance, desiredAngleChange).
     seq (modify (updateKoiFish this (\<lambda>f.
            if targetDistance < 50 \<and> \<bar>desiredAngleChange\<bar> > 30
            then f\<lparr>speed := baseSpeed f * 0.5, turnMultiplier := 4\<rparr>
            else if \<bar>desiredAngleChange\<bar> < 30
            then f\<lparr>speed := baseSpeed f * 5, turnMultiplier := 1\<rparr>
            else f\<lparr>speed := baseSpeed f * 4, turnMultiplier := 2\<rparr>)))
         (modify (updateKoiFish this (\<lambda>f.
            f\<lparr>tailAngleOscillator := setSpeedFactor (Num 2) (tailAngleOscillator f),
              finAngleOscillator := setSpeedFactor (Num 2) (finAngleOscillator f)\<rparr>))))))))"

definition checkAndSetFoodBehavior :: "ref \<Rightarrow> unit prog" where
  "checkAndSetFoodBehavior this =
     seq (eatDesiredFood this)
    (bnd (reads (\<lambda>w. position (koiFish w this))) (\<lambda>fishPosition.
     bnd (getNearbyObjects fishPosition this instanceofFood 5) (\<lambda>nearbyFoodList.
     bnd (reads (\<lambda>w. closestFoodLoop w fishPosition nearbyFoodList None)) (\<lambda>closest.
       case closest of
         Some (closestFood, closestDistance) \<Rightarrow> chaseFood this closestFood
       | None \<Rightarrow>
           modify (updateKoiFish this (\<lambda>f.
             f\<lparr>tailAngleOscillator := setSpeedFactor (Num 1) (tailAngleOscillator f),
               finAngleOscillator := setSpeedFactor (Num 1) (finAngleOscillator f)\<rparr>))))))"

text \<open>
  The four filters of \<open>checkAndSetFollowBehavior\<close> on a potential leader, for the fish
  \<open>me\<close>.
\<close>

definition isPotentialLeader :: "World \<Rightarrow> KoiFish \<Rightarrow> ref \<Rightarrow> bool" where
  "isPotentialLeader w me potentialLeader =
     (let pl = koiFish w potentialLeader
      in size' pl > size' me * 1.1
         \<and> length (getAvailableFollowPositions pl) \<noteq> 0
         \<and> \<bar>signedAngleBetween (direction me) (direction pl)\<bar> < 60
         \<and> \<bar>signedAngleBetween (direction me) (getVectorTo (position me) (position pl))\<bar> < 60)"

text \<open>
  The branch of \<open>checkAndSetFollowBehavior\<close> of a fish without leader: it looks for
  a leader among the nearby fish and pairs with one chosen at random, on a free side
  chosen at random.
\<close>

definition findLeader :: "ref \<Rightarrow> KoiFish \<Rightarrow> unit prog" where
  "findLeader this me =
     bnd (getNearbyObjects (position me) this instanceofKoiFish 1) (\<lambda>nearbyKoiFishList.
     bnd (reads (\<lambda>w. filter (isPotentialLeader w me) nearbyKoiFishList))
       (\<lambda>potentialLeaders.
          if length potentialLeaders \<noteq> 0
          then bnd (getRandomItem potentialLeaders) (\<lambda>newLeader.
               bnd (reads (\<lambda>w. getAvailableFollowPositions (koiFish w newLeader)))
                 (\<lambda>availableFollowPositions.
               bnd (getRandomItem availableFollowPositions) (\<lambda>followSide.
               seq (setLeaderFollower newLeader this followSide)
                   (modify (\<lambda>w. updateKoiFish this (\<lambda>f. f\<lparr>followTime := clock w\<rparr>) w)))))
          else ret ()))"

text \<open>
  The branch of a fish that follows \<open>leader\<close>: it leaves the leader after 180 seconds
  or more than 100 away from its target point, and otherwise sets its speed by the
  leader's.
\<close>

definition followLeader :: "ref \<Rightarrow> KoiFish \<Rightarrow> ref \<Rightarrow> unit prog" where
  "followLeader this me leader =
     bnd (reads (\<lambda>w. getElapsedSeconds (clock w) (followTime me))) (\<lambda>followSeconds.
       if followSeconds > 180
       then seq (unsetLeaderFollower leader this) (setNewRandomTargetPoint this)
       else
         bnd (reads (\<lambda>w. getDistanceTo (position me) (points w (targetPoint me))))
           (\<lambda>distanceToLeader.
           if distanceToLeader > 100
           then seq (modify (updateKoiFish this (\<lambda>f. f\<lparr>speed := baseSpeed f\<rparr>)))
               (seq (unsetLeaderFollower leader this) (setNewRandomTargetPoint this))
           else
             bnd (reads (\<lambda>w. (speed (koiFish w leader),
                               direction (koiFish w leader),
                               getVectorTo (position me) (points w (targetPoint me)))))
               (\<lambda>(leaderSpeed, leaderDirection, vectorToTargetPoint).
               (let angleToTargetPoint =
                      signedAngleBetween (direction me) vectorToTargetPoint;
                    distanceToTargetPoint = getMagnitude vectorToTargetPoint
                in if \<bar>angleToTargetPoint\<bar> < 30 \<and> distanceToTargetPoint > 20
                   then modify (updateKoiFish this (\<lambda>f. f\<lparr>speed := 1.2 * leaderSpeed\<rparr>))
                   else if \<bar>angleToTargetPoint\<bar> > 90 \<and> distanceToTargetPoint < 50
                   then modify (updateKoiFish this (\<lambda>f. f\<lparr>speed := 0.4 * leaderSpeed\<rparr>))
                   else if \<bar>signedAngleBetween (direction me) leaderDirection\<bar> < 30
                           \<and> distanceToTargetPoint < 20
                   then modify (updateKoiFish this
                          (\<lambda>f. f\<lparr>speed := leaderSpeed, turnMultiplier := 0.5\<rparr>))
                   else ret ()))))"

definition checkAndSetFollowBehavior :: "ref \<Rightarrow> unit prog" where
  "checkAndSetFollowBehavior this =
     bnd (reads (\<lambda>w. koiFish w this)) (\<lambda>me.
       if desiredFood me \<noteq> None \<and> leaderKoiFish me \<noteq> None
       then unsetLeaderFollower (the (leaderKoiFish me)) this
       else
         (case leaderKoiFish me of
            None \<Rightarrow> findLeader this me
          | Some leader \<Rightarrow> followLeader this me leader))"

text \<open>
  \<open>standardBehavior\<close>. The vector to the target is taken before a new target may be
  chosen and is not taken again. \<open>distanceProportion\<close> divides by the diagonal of the
  canvas: on a canvas of diagonal 0 it is \<open>Infinity\<close> (the distance is positive once
  \<open>normalize\<close> has returned), so that \<open>Math.max(1 - distanceProportion, 0.5)\<close> is 0.5
  and \<open>distanceProportion > 0.1\<close> holds.
\<close>

definition standardBehavior :: "ref \<Rightarrow> unit prog" where
  "standardBehavior this =
     bnd (reads (\<lambda>w. getVectorTo (position (koiFish w this))
                         (points w (targetPoint (koiFish w this))))) (\<lambda>targetVector.
     seq (if getMagnitude targetVector < 50 then setNewRandomTargetPoint this else ret ())
    (bnd (raise (normalize targetVector False)) (\<lambda>(targetDirection, _).
     bnd (reads (\<lambda>w. (getMagnitude targetVector,
                       signedAngleBetween (direction (koiFish w this)) targetDirection,
                       canvasDiagonalLength (canvas w))))
       (\<lambda>(targetDistance, desiredAngleChange, diagonal).
       (let closeness = (if diagonal = 0 then 0.5
                         else max (1 - targetDistance / diagonal) 0.5);
            farAway = (diagonal = 0 \<or> targetDistance / diagonal > 0.1)
        in seq (modify (updateKoiFish this
                  (\<lambda>f. f\<lparr>turnMultiplier := turnMultiplier f * closeness\<rparr>)))
               (if farAway \<and> \<bar>desiredAngleChange\<bar> < 45
                then modify (updateKoiFish this
                       (\<lambda>f. f\<lparr>turnMultiplier := turnMultiplier f * 0.3\<rparr>))
                else ret ()))))))"

text \<open>
  The choice of behaviour in \<open>update\<close>: food first, the leader and follower logic only
  without a desired food, the standard behaviour only without food and leader. (The
  test \<open>!this.targetPoint\<close> that follows in the source never holds: the target point
  is always an object.)
\<close>

definition chooseBehavior :: "ref \<Rightarrow> unit prog" where
  "chooseBehavior this =
     seq (checkAndSetFoodBehavior this)
    (seq (bnd (reads (\<lambda>w. desiredFood (koiFish w this))) (\<lambda>desired.
            if desired = None then checkAndSetFollowBehavior this else ret ()))
         (bnd (reads (\<lambda>w. (desiredFood (koiFish w this), leaderKoiFish (koiFish w this))))
            (\<lambda>(desired, leader).
               if desired = None \<and> leader = None then standardBehavior this else ret ())))"

text \<open>The integration of the position in \<open>update\<close>.\<close>

definition advancePosition :: "ref \<Rightarrow> World \<Rightarrow> World" where
  "advancePosition this w =
     updateKoiFish this (\<lambda>f.
       f\<lparr>position :=
            snd (applyVector (position f)
                   (fst (scale (direction f)
                           (speed f * getElapsedSeconds (clock w) (lastUpdateTime f)) False))
                   True)\<rparr>) w"

definition update :: "ref \<Rightarrow> unit prog" where
  "update this =
     seq (modify (updateKoiFish this (\<lambda>f. f\<lparr>previousSpeed := speed f\<rparr>)))
    (seq (modify (updateKoiFish this (\<lambda>f. f\<lparr>speed := baseSpeed f, turnMultiplier := 1\<rparr>)))
    (bnd (reads (\<lambda>w. getDistanceToCanvasBorder (canvas w) (position (koiFish w this))))
       (\<lambda>distanceToBorder.
          if distanceToBorder < canvasExitDistance
          then handleOutOfBounds this
          else seq (chooseBehavior this)
              (seq (modify (smoothenDirectionChange this))
              (seq (modify (smoothenSpeedChange this))
              (seq (modify (advancePosition this))
              (seq (modify (updateFollowPoints this))
                   (modify (\<lambda>w. updateKoiFish this
                                   (\<lambda>f. f\<lparr>lastUpdateTime := clock w\<rparr>) w)))))))))"

section \<open>Auxiliary definitions for the properties\<close>

text \<open>The position of a wave after the translation that starts its \<open>update\<close>.\<close>

definition translatedWave :: "World \<Rightarrow> ref \<Rightarrow> Point" where
  "translatedWave w this =
     snd (applyVector (Wave.position (wave w this))
            (fst (scale (Wave.direction (wave w this))
                    (Wave.speed (wave w this)
                       * getElapsedSeconds (clock w) (Wave.lastUpdateTime (wave w this)))
                    False))
            True)"

text \<open>
  The world after an \<open>update\<close> of a wave that re-entered at point \<open>p\<close> with
  direction \<open>d\<close>, the numbers \<open>rest\<close> remaining to be drawn.
\<close>

definition reentered :: "World \<Rightarrow> ref \<Rightarrow> Point \<Rightarrow> Vector \<Rightarrow> real stream \<Rightarrow> World" where
  "reentered w this p d rest =
     updateWave this (\<lambda>wv. wv\<lparr>Wave.lastUpdateTime := clock w\<rparr>)
       (updateWave this (\<lambda>wv. wv\<lparr>Wave.position := p, Wave.direction := d\<rparr>)
          ((updateWave this (\<lambda>wv. wv\<lparr>Wave.position := translatedWave w this\<rparr>) w)
             \<lparr>randomNumbers := rest\<rparr>))"

text \<open>
  A concrete world, for evaluating the program: a canvas of 600 by 800 (a grid of 12 by
  16 cells, of diagonal 1000) in river mode, one second after the last update of the
  fish; a wave at \<open>(500, -600)\<close>; a fish at \<open>(300, 100)\<close> heading up, with its target
  point (address 0) at \<open>(300, 500)\<close>; a food whose position (address 3) is \<open>(300, 110)\<close>;
  and the numbers that \<open>Math.random()\<close> is going to return.
\<close>

definition exampleWave :: Wave where
  "exampleWave =
     \<lparr>Wave.position = \<lparr>x = 500, y = - 600\<rparr>,
      Wave.direction = \<lparr>dx = 3 / 5, dy = - 4 / 5\<rparr>,
      Wave.lastUpdateTime = 1000, Wave.speed = 10, Wave.size' = 60,
      color = ''rgba(29, 88, 140, 0.3)''\<rparr>"

definition exampleFish :: KoiFish where
  "exampleFish =
     \<lparr>size' = 4 / 5,
      position = \<lparr>x = 300, y = 100\<rparr>,
      direction = \<lparr>dx = 0, dy = 1\<rparr>,
      baseSpeed = 18, speed = 18, previousSpeed = 18, turnMultiplier = 1,
      targetPoint = 0,
      lastUpdateTime = 0, lastRippleTime = 0,
      finAngleOscillator = Oscillator_new (Num 0) (Num 0) (Num 1) (Num 2),
      tailAngleOscillator = Oscillator_new (Num 0) (Num (- 10)) (Num 10) (Num 3),
      swayOscillator = Oscillator_new (Num 0) (Num (- 10)) (Num 10) (Num 7),
      desiredFood = None,
      leftFollowAngle = 210, rightFollowAngle = 150,
      leftFollowPoint = 1, rightFollowPoint = 2,
      leftFollower = None, rightFollower = None,
      followTime = 0,
      leaderKoiFish = None\<rparr>"

definition exampleFood :: Food where
  "exampleFood =
     \<lparr>Food.position = 3, Food.direction = \<lparr>dx = 3 / 5, dy = - 4 / 5\<rparr>, Food.speed = 15,
      Food.lastUpdateTime = 0, particleDispersion = 1, isEaten = False\<rparr>"

definition exampleWorld :: "real stream \<Rightarrow> World" where
  "exampleWorld draws =
     \<lparr>canvas = CanvasUtil_loaded 600 800,
      riverMode = True,
      followDistance = 40,
      clock = 1000,
      randomNumbers = draws,
      points = (\<lambda>a. if a = 3 then \<lparr>x = 300, y = 110\<rparr> else \<lparr>x = 300, y = 500\<rparr>),
      nextPoint = 4,
      koiFish = (\<lambda>i. exampleFish),
      food = (\<lambda>i. exampleFood),
      wave = (\<lambda>i. exampleWave),
      foodMap = {''food-1''},
      waveMap = {''wave-1''},
      locationMap = Map.empty\<rparr>"

text \<open>
  A program preserves a property of the world when the property, true before a call
  that ends (by returning or by throwing), is true after it.
\<close>

definition preserves :: "(World \<Rightarrow> bool) \<Rightarrow> 'v prog \<Rightarrow> bool" where
  "preserves P m \<longleftrightarrow> (\<forall>w r w'. P w \<longrightarrow> m w = Some (r, w') \<longrightarrow> P w')"

text \<open>
  A property of the fields of one fish and of the clock.
\<close>

definition onFish :: "ref \<Rightarrow> (KoiFish \<Rightarrow> real \<Rightarrow> bool) \<Rightarrow> World \<Rightarrow> bool" where
  "onFish this Q w \<longleftrightarrow> Q (koiFish w this) (clock w)"

text \<open>
  What the choice of behaviour leaves as it is for the fish that updates: a positive
  turn multiplier, the direction, the time of the last update, and the clock.
\<close>

definition steady :: "Vector \<Rightarrow> real \<Rightarrow> real \<Rightarrow> KoiFish \<Rightarrow> real \<Rightarrow> bool" where
  "steady d t c0 f c \<longleftrightarrow>
     0 < turnMultiplier f \<and> direction f = d \<and> lastUpdateTime f = t \<and> c = c0"

text \<open>
  The signed angle from the direction of a fish to the vector towards its target
  point: the \<open>desiredAngleChange\<close> of \<open>smoothenDirectionChange\<close>.
\<close>

definition desiredAngleChangeOf :: "World \<Rightarrow> ref \<Rightarrow> real" where
  "desiredAngleChangeOf w this =
     signedAngleBetween (direction (koiFish w this))
       (getVectorTo (position (koiFish w this)) (points w (targetPoint (koiFish w this))))"

text \<open>
  The world after the first three assignments of \<open>update\<close>.
\<close>

definition beginUpdate :: "ref \<Rightarrow> World \<Rightarrow> World" where
  "beginUpdate this w =
     updateKoiFish this (\<lambda>f. f\<lparr>speed := baseSpeed f, turnMultiplier := 1\<rparr>)
       (updateKoiFish this (\<lambda>f. f\<lparr>previousSpeed := speed f\<rparr>) w)"

text \<open>
  The world after the steps of \<open>update\<close> that follow the smoothing of the direction.
\<close>

definition finishUpdate :: "ref \<Rightarrow> World \<Rightarrow> World" where
  "finishUpdate this w =
     (let w = smoothenSpeedChange this w;
          w = advancePosition this w;
          w = updateFollowPoints this w
      in updateKoiFish this (\<lambda>f. f\<lparr>lastUpdateTime := clock w\<rparr>) w)"

text \<open>
  The distance from a fish to a food.
\<close>

definition foodDistance :: "World \<Rightarrow> ref \<Rightarrow> ref \<Rightarrow> real" where
  "foodDistance w this g =
     getDistanceTo (position (koiFish w this)) (points w (Food.position (food w g)))"

text \<open>
  The world after the first block of \<open>checkAndSetFoodBehavior\<close>.
\<close>

definition afterEating :: "ref \<Rightarrow> World \<Rightarrow> World" where
  "afterEating this w =
     (case desiredFood (koiFish w this) of
        None \<Rightarrow> w
      | Some wanted \<Rightarrow>
          if foodDistance w this wanted < 20 \<or> wanted \<notin> foodMap w
          then updateKoiFish this (\<lambda>f. f\<lparr>desiredFood := None\<rparr>)
                 (updateFood wanted (\<lambda>fd. fd\<lparr>isEaten := True\<rparr>) w)
          else w)"

text \<open>
  The list that \<open>getNearbyObjects\<close> returns for a given list of adjacent cells.
\<close>

definition nearbyRefs :: "World \<Rightarrow> ref \<Rightarrow> (EnvironmentObject \<Rightarrow> bool) \<Rightarrow> int list \<Rightarrow> ref list" where
  "nearbyRefs w sourceId isTarget cells =
     map objectId (concat (map (\<lambda>adjacentIndex.
        filter (\<lambda>obj. isTarget obj \<and> objectId obj \<noteq> sourceId)
          (case locationMap w adjacentIndex of None \<Rightarrow> [] | Some objs \<Rightarrow> objs)) cells))"

text \<open>
  The world after a fish has left its leader, if it had one.
\<close>

definition afterUnpairing :: "ref \<Rightarrow> World \<Rightarrow> World" where
  "afterUnpairing this w =
     (case leaderKoiFish (koiFish w this) of
        None \<Rightarrow> w
      | Some leader \<Rightarrow>
          updateKoiFish this (\<lambda>f. f\<lparr>leaderKoiFish := None\<rparr>)
            (updateKoiFish leader (\<lambda>l.
               if leftFollower l = Some this
               then l\<lparr>leftFollower := None\<rparr>
               else l\<lparr>rightFollower := None\<rparr>) w))"

text \<open>
  The world after a fish has left its leader and taken a food as its target.
\<close>

definition afterTargeting :: "ref \<Rightarrow> ref \<Rightarrow> World \<Rightarrow> World" where
  "afterTargeting this closestFood w =
     updateKoiFish this
       (\<lambda>f. f\<lparr>desiredFood := Some closestFood,
               targetPoint := Food.position (food w closestFood)\<rparr>)
       (afterUnpairing this w)"

text \<open>
  Two worlds with the same food and, for every fish, the same target point, desired
  food, leader, followers and follow points.
\<close>

definition keepsLinks :: "ref \<Rightarrow> World \<Rightarrow> World \<Rightarrow> bool" where
  "keepsLinks this w w' \<longleftrightarrow>
     food w' = food w \<and> foodMap w' = foodMap w
     \<and> (\<forall>a. targetPoint (koiFish w' a) = targetPoint (koiFish w a)
            \<and> desiredFood (koiFish w' a) = desiredFood (koiFish w a)
            \<and> leaderKoiFish (koiFish w' a) = leaderKoiFish (koiFish w a)
            \<and> leftFollower (koiFish w' a) = leftFollower (koiFish w a)
            \<and> rightFollower (koiFish w' a) = rightFollower (koiFish w a)
            \<and> leftFollowPoint (koiFish w' a) = leftFollowPoint (koiFish w a)
            \<and> rightFollowPoint (koiFish w' a) = rightFollowPoint (koiFish w a))"

text \<open>
  The world after the first block of \<open>checkAndSetFoodBehavior\<close> and the query for the
  nearby food, which may add an entry to the cache of \<open>getAdjacentIndices\<close>.
\<close>

definition afterLooking :: "ref \<Rightarrow> World \<Rightarrow> World" where
  "afterLooking this w =
     (afterEating this w)
       \<lparr>canvas := snd (getAdjacentIndices
                          (getCellIndex (canvas w) (position (koiFish w this))) 5 (canvas w))\<rparr>"

text \<open>
  The cells of the current grid whose column and row are both within \<open>range'\<close> of the
  column \<open>floor (x / cellSize)\<close> and the row \<open>floor (y / cellSize)\<close> of the cell that
  holds the point: the Chebyshev neighbourhood of the cell of the point.
\<close>

definition cellsAround :: "CanvasUtil \<Rightarrow> Point \<Rightarrow> int \<Rightarrow> int set" where
  "cellsAround this point range' =
     set (filter (\<lambda>j. \<bar>j mod numCellsX this - \<lfloor>x point / cellSize\<rfloor>\<bar> \<le> range'
                    \<and> \<bar>j div numCellsX this - \<lfloor>y point / cellSize\<rfloor>\<bar> \<le> range')
            [0 .. numCellsX this * numCellsY this - 1])"

text \<open>
  The food \<open>g\<close> is uneaten, is registered in the location map in a cell within the
  range-5 Chebyshev neighbourhood of the cell of the fish, and is strictly nearer to the
  fish than any other uneaten food registered there.
\<close>

definition nearestRegisteredFood :: "World \<Rightarrow> ref \<Rightarrow> ref \<Rightarrow> bool" where
  "nearestRegisteredFood w this g \<longleftrightarrow>
     (let cells = cellsAround (canvas w) (position (koiFish w this)) 5
      in g \<noteq> this
         \<and> \<not> isEaten (food w g)
         \<and> (\<exists>c\<in>cells. \<exists>objs. locationMap w c = Some objs \<and> FoodObject g \<in> set objs)
         \<and> (\<forall>c\<in>cells. \<forall>objs other.
               locationMap w c = Some objs \<longrightarrow> FoodObject other \<in> set objs \<longrightarrow>
               other \<noteq> g \<longrightarrow> other \<noteq> this \<longrightarrow> \<not> isEaten (food w other) \<longrightarrow>
               foodDistance w this g < foodDistance w this other))"

text \<open>
  The cache of \<open>getAdjacentIndices\<close> has no entry for the cell index of the fish and
  range 5 other than the list that the function computes on the current grid.
\<close>

definition neighboursNotStale :: "World \<Rightarrow> ref \<Rightarrow> bool" where
  "neighboursNotStale w this \<longleftrightarrow>
     (let cell = getCellIndex (canvas w) (position (koiFish w this))
      in cache (canvas w) [cell, 5] = None
         \<or> cache (canvas w) [cell, 5] = Some (adjacentIndicesFn (canvas w) cell 5))"

text \<open>
  The food \<open>g\<close> is the desired food of the fish and is closer than 20 or no longer
  in the food map: the first block of \<open>checkAndSetFoodBehavior\<close> eats it.
\<close>

definition eatsNow :: "World \<Rightarrow> ref \<Rightarrow> ref \<Rightarrow> bool" where
  "eatsNow w this g \<longleftrightarrow>
     desiredFood (koiFish w this) = Some g
     \<and> (foodDistance w this g < 20 \<or> g \<notin> foodMap w)"

text \<open>
  A fish with a leader is another fish than its leader and is in exactly one of the
  two follower slots of the leader.
\<close>

definition inOneSlotOfLeader :: "World \<Rightarrow> ref \<Rightarrow> bool" where
  "inOneSlotOfLeader w this \<longleftrightarrow>
     (case leaderKoiFish (koiFish w this) of
        None \<Rightarrow> True
      | Some a \<Rightarrow>
          a \<noteq> this
          \<and> ((leftFollower (koiFish w a) = Some this)
               \<noteq> (rightFollower (koiFish w a) = Some this)))"

text \<open>
  A world with a leader \<open>koi-A\<close> near the left border and a follower \<open>koi-B\<close> in
  its left slot, whose target point is the left follow point of the leader (address 1).
  The follower is 30 beyond the left border, further out than the exit distance of 20.
\<close>

definition pairedWorld :: World where
  "pairedWorld =
     (exampleWorld (1 / 2 ## 1 / 2 ## 1 / 2 ## 1 / 2 ## sconst 0))
       \<lparr>points := (\<lambda>a. if a = 1 then \<lparr>x = 10, y = 365\<rparr> else \<lparr>x = 300, y = 500\<rparr>),
        nextPoint := 7,
        koiFish := (\<lambda>i. exampleFish)
          (''koi-A'' := exampleFish\<lparr>size' := 1, position := \<lparr>x = 30, y = 400\<rparr>,
                          leftFollower := Some ''koi-B''\<rparr>,
           ''koi-B'' := exampleFish\<lparr>position := \<lparr>x = - 30, y = 400\<rparr>, targetPoint := 1,
                          leftFollowPoint := 5, rightFollowPoint := 6,
                          leaderKoiFish := Some ''koi-A''\<rparr>)\<rparr>"

text \<open>
  The last assignment of \<open>checkAndSetFoodBehavior\<close> when no food is found: the
  oscillators of tail and fins go back to speed factor 1.
\<close>

definition relaxed :: "ref \<Rightarrow> World \<Rightarrow> World" where
  "relaxed this w =
     updateKoiFish this (\<lambda>f.
       f\<lparr>tailAngleOscillator := setSpeedFactor (Num 1) (tailAngleOscillator f),
         finAngleOscillator := setSpeedFactor (Num 1) (finAngleOscillator f)\<rparr>) w"

text \<open>
  The world after the query for the nearby fish of \<open>checkAndSetFollowBehavior\<close>,
  which may add an entry to the cache of \<open>getAdjacentIndices\<close>.
\<close>

definition afterLookingForLeader :: "ref \<Rightarrow> World \<Rightarrow> World" where
  "afterLookingForLeader this w =
     w\<lparr>canvas := snd (getAdjacentIndices
                        (getCellIndex (canvas w) (position (koiFish w this))) 1 (canvas w))\<rparr>"

text \<open>
  The example world with the fish \<open>koi-1\<close> at (300, 100) and the food \<open>food-1\<close> at
  (300, 110) registered in their cell, number 30 of the grid of 12 by 16 cells.
\<close>

definition foodWorld :: World where
  "foodWorld =
     (exampleWorld (sconst 0))
       \<lparr>locationMap := [30 \<mapsto> [KoiFishObject ''koi-1'', FoodObject ''food-1'']]\<rparr>"

text \<open>
  The same world one frame later: the fish has the food as its desired food and the
  position object of the food (address 3) as its target point, and is 10 away from it.
\<close>

definition chasingWorld :: World where
  "chasingWorld =
     (exampleWorld (1 / 2 ## 5 / 6 ## sconst 0))
       \<lparr>koiFish := (\<lambda>i. exampleFish)
          (''koi-1'' := exampleFish\<lparr>targetPoint := 3, desiredFood := Some ''food-1''\<rparr>),
        locationMap := [30 \<mapsto> [KoiFishObject ''koi-1'', FoodObject ''food-1'']]\<rparr>"

section \<open>Properties\<close>

subsection \<open>Ripple opacity\<close>

lemma getOpacity_rising:
  "t < 1.5 \<Longrightarrow> getOpacity (generationTime r + 1000 * t) m r = m * t / 1.5"
  by (simp add: getOpacity_def getElapsedSeconds_def scaleToRange_def peakOpacityTime_def
      lifeTime_def Let_def)

lemma getOpacity_falling:
  "1.5 \<le> t \<Longrightarrow> getOpacity (generationTime r + 1000 * t) m r = m * (5 - t) / 3.5"
  by (simp add: getOpacity_def getElapsedSeconds_def scaleToRange_def peakOpacityTime_def
      lifeTime_def Let_def field_simps)

text \<open>
  C6. With a non-negative configured \<open>maxOpacity\<close>, the opacity \<open>t\<close> seconds after the
  ripple was generated is 0 at \<open>t = 0\<close>, is the linear ramp \<open>maxOpacity * t / 1.5\<close>
  (hence monotonically increasing) up to \<open>maxOpacity\<close> at \<open>t = 1.5\<close>, and is the linear
  ramp \<open>maxOpacity * (5 - t) / 3.5\<close> (hence monotonically decreasing) down to 0 at
  \<open>t = 5\<close>.
\<close>

theorem ripple_opacity_profile:
  assumes "0 \<le> maxOpacity"
  shows "getOpacity (generationTime r + 1000 * 0) maxOpacity r = 0
       \<and> getOpacity (generationTime r + 1000 * 1.5) maxOpacity r = maxOpacity
       \<and> getOpacity (generationTime r + 1000 * 5) maxOpacity r = 0
       \<and> (\<forall>t. 0 \<le> t \<and> t \<le> 1.5 \<longrightarrow>
             getOpacity (generationTime r + 1000 * t) maxOpacity r = maxOpacity * t / 1.5)
       \<and> (\<forall>t. 1.5 \<le> t \<and> t \<le> 5 \<longrightarrow>
             getOpacity (generationTime r + 1000 * t) maxOpacity r = maxOpacity * (5 - t) / 3.5)
       \<and> (\<forall>s t. 0 \<le> s \<and> s \<le> t \<and> t \<le> 1.5 \<longrightarrow>
             getOpacity (generationTime r + 1000 * s) maxOpacity r
               \<le> getOpacity (generationTime r + 1000 * t) maxOpacity r)
       \<and> (\<forall>s t. 1.5 \<le> s \<and> s \<le> t \<and> t \<le> 5 \<longrightarrow>
             getOpacity (generationTime r + 1000 * t) maxOpacity r
               \<le> getOpacity (generationTime r + 1000 * s) maxOpacity r)"
proof -
  have at0: "getOpacity (generationTime r + 1000 * 0) maxOpacity r = 0"
    using getOpacity_rising [of 0 r maxOpacity] by simp
  have at_peak: "getOpacity (generationTime r + 1000 * 1.5) maxOpacity r = maxOpacity"
    using getOpacity_falling [of "1.5" r maxOpacity] by simp
  have at_end: "getOpacity (generationTime r + 1000 * 5) maxOpacity r = 0"
    using getOpacity_falling [of 5 r maxOpacity] by simp
  have up: "getOpacity (generationTime r + 1000 * t) maxOpacity r = maxOpacity * t / 1.5"
    if "0 \<le> t \<and> t \<le> 1.5" for t
  proof (cases "t < 1.5")
    case True
    then show ?thesis by (rule getOpacity_rising)
  next
    case False
    with that have t: "t = 1.5" by simp
    have "getOpacity (generationTime r + 1000 * t) maxOpacity r = maxOpacity * (5 - t) / 3.5"
      by (rule getOpacity_falling) (simp add: t)
    then show ?thesis by (simp add: t)
  qed
  have down: "getOpacity (generationTime r + 1000 * t) maxOpacity r = maxOpacity * (5 - t) / 3.5"
    if "1.5 \<le> t \<and> t \<le> 5" for t
    using that by (simp add: getOpacity_falling)
  have mono_up: "getOpacity (generationTime r + 1000 * s) maxOpacity r
                   \<le> getOpacity (generationTime r + 1000 * t) maxOpacity r"
    if "0 \<le> s \<and> s \<le> t \<and> t \<le> 1.5" for s t
  proof -
    have "maxOpacity * s \<le> maxOpacity * t"
      using that assms by (simp add: mult_left_mono)
    then have "maxOpacity * s / 1.5 \<le> maxOpacity * t / 1.5"
      by (simp add: divide_right_mono)
    moreover have "0 \<le> s \<and> s \<le> 1.5" "0 \<le> t \<and> t \<le> 1.5"
      using that by auto
    ultimately show ?thesis by (simp only: up)
  qed
  have mono_down: "getOpacity (generationTime r + 1000 * t) maxOpacity r
                     \<le> getOpacity (generationTime r + 1000 * s) maxOpacity r"
    if "1.5 \<le> s \<and> s \<le> t \<and> t \<le> 5" for s t
  proof -
    have "maxOpacity * (5 - t) \<le> maxOpacity * (5 - s)"
      using that assms by (simp add: mult_left_mono)
    then have "maxOpacity * (5 - t) / 3.5 \<le> maxOpacity * (5 - s) / 3.5"
      by (simp add: divide_right_mono)
    moreover have "1.5 \<le> s \<and> s \<le> 5" "1.5 \<le> t \<and> t \<le> 5"
      using that by auto
    ultimately show ?thesis by (simp only: down)
  qed
  from at0 at_peak at_end up down mono_up mono_down show ?thesis by blast
qed

theorem ripple_opacity_profile_witness:
  "(0::real) \<le> 1 / 10
   \<and> getOpacity 0 (1 / 10) \<lparr>generationTime = 0, rippleSpeed = 20, rippleLastUpdateTime = 0,
        rippleLength = 40, initialRippleDispersion = 0\<rparr> = 0
   \<and> getOpacity 1500 (1 / 10) \<lparr>generationTime = 0, rippleSpeed = 20, rippleLastUpdateTime = 0,
        rippleLength = 40, initialRippleDispersion = 0\<rparr> = 1 / 10
   \<and> getOpacity 5000 (1 / 10) \<lparr>generationTime = 0, rippleSpeed = 20, rippleLastUpdateTime = 0,
        rippleLength = 40, initialRippleDispersion = 0\<rparr> = 0
   \<and> getOpacity 750 (1 / 10) \<lparr>generationTime = 0, rippleSpeed = 20, rippleLastUpdateTime = 0,
        rippleLength = 40, initialRippleDispersion = 0\<rparr> = 1 / 20
   \<and> getOpacity 3250 (1 / 10) \<lparr>generationTime = 0, rippleSpeed = 20, rippleLastUpdateTime = 0,
        rippleLength = 40, initialRippleDispersion = 0\<rparr> = 1 / 20
   \<and> getOpacity 500 (1 / 10) \<lparr>generationTime = 0, rippleSpeed = 20, rippleLastUpdateTime = 0,
        rippleLength = 40, initialRippleDispersion = 0\<rparr>
      \<le> getOpacity 1000 (1 / 10) \<lparr>generationTime = 0, rippleSpeed = 20, rippleLastUpdateTime = 0,
        rippleLength = 40, initialRippleDispersion = 0\<rparr>
   \<and> getOpacity 4000 (1 / 10) \<lparr>generationTime = 0, rippleSpeed = 20, rippleLastUpdateTime = 0,
        rippleLength = 40, initialRippleDispersion = 0\<rparr>
      \<le> getOpacity 2000 (1 / 10) \<lparr>generationTime = 0, rippleSpeed = 20, rippleLastUpdateTime = 0,
        rippleLength = 40, initialRippleDispersion = 0\<rparr>"
proof -
  define r where "r = \<lparr>generationTime = 0, rippleSpeed = 20, rippleLastUpdateTime = 0,
        rippleLength = 40, initialRippleDispersion = 0\<rparr>"
  have g: "generationTime r = 0" by (simp add: r_def)
  have h: "(0::real) \<le> 1 / 10" by simp
  note p = ripple_opacity_profile [OF h, of r, unfolded g]
  from p have "getOpacity 0 (1 / 10) r = 0" by simp
  moreover from p have "getOpacity 1500 (1 / 10) r = 1 / 10" by simp
  moreover from p have "getOpacity 5000 (1 / 10) r = 0" by simp
  moreover from p have "0 \<le> (3 / 4 :: real) \<and> (3 / 4 :: real) \<le> 1.5
      \<longrightarrow> getOpacity (0 + 1000 * (3 / 4)) (1 / 10) r = 1 / 10 * (3 / 4) / 1.5" by blast
  then have "getOpacity 750 (1 / 10) r = 1 / 20" by simp
  moreover from p have "1.5 \<le> (13 / 4 :: real) \<and> (13 / 4 :: real) \<le> 5
      \<longrightarrow> getOpacity (0 + 1000 * (13 / 4)) (1 / 10) r = 1 / 10 * (5 - 13 / 4) / 3.5" by blast
  then have "getOpacity 3250 (1 / 10) r = 1 / 20" by simp
  moreover from p have "0 \<le> (1 / 2 :: real) \<and> (1 / 2 :: real) \<le> 1 \<and> (1 :: real) \<le> 1.5
      \<longrightarrow> getOpacity (0 + 1000 * (1 / 2)) (1 / 10) r \<le> getOpacity (0 + 1000 * 1) (1 / 10) r"
    by blast
  then have "getOpacity 500 (1 / 10) r \<le> getOpacity 1000 (1 / 10) r" by simp
  moreover from p have "1.5 \<le> (2 :: real) \<and> (2 :: real) \<le> 4 \<and> (4 :: real) \<le> 5
      \<longrightarrow> getOpacity (0 + 1000 * 4) (1 / 10) r \<le> getOpacity (0 + 1000 * 2) (1 / 10) r"
    by blast
  then have "getOpacity 4000 (1 / 10) r \<le> getOpacity 2000 (1 / 10) r" by simp
  ultimately show ?thesis using h unfolding r_def by blast
qed

subsection \<open>Vector normalisation over the reals\<close>

lemma normalize_unit_aux:
  assumes "dx v \<noteq> 0 \<or> dy v \<noteq> 0"
  shows "sqrt (dx v * dx v + dy v * dy v) > 0"
proof -
  have "dx v * dx v + dy v * dy v > 0"
    using assms by (metis add_pos_nonneg add_nonneg_pos zero_le_square not_real_square_gt_zero)
  then show ?thesis by simp
qed

lemma unit_after_division:
  assumes "0 < m" and "m * m = a * a + b * b"
  shows "sqrt ((a / m) * (a / m) + (b / m) * (b / m)) = 1"
proof -
  have "(a / m) * (a / m) + (b / m) * (b / m) = (a * a + b * b) / (m * m)"
    by (simp add: add_divide_distrib)
  also have "\<dots> = (m * m) / (m * m)" by (simp only: assms(2))
  also have "\<dots> = 1" using assms(1) by simp
  finally show ?thesis by simp
qed

subsection \<open>Draw order\<close>


lemma drawsAt_scheduleDraw:
  "drawsAt (scheduleDraw layer cb m) l = drawsAt m l @ (if layer = l then [cb] else [])"
  by (simp add: drawsAt_def scheduleDraw_def Let_def)

lemma drawsAt_scheduleAll:
  "drawsAt (scheduleAll calls m) l = drawsAt m l @ map snd (filter (\<lambda>c. fst c = l) calls)"
proof (induction calls arbitrary: m)
  case Nil
  show ?case by simp
next
  case (Cons c calls)
  obtain layer cb where c: "c = (layer, cb)" by (cases c)
  show ?case by (simp add: c Cons.IH drawsAt_scheduleDraw)
qed

lemma drawsAt_new: "drawsAt DrawManager_new l = []"
  by (simp add: drawsAt_def DrawManager_new_def)

lemma executeScheduledDraws_drawsAt:
  "executeScheduledDraws m = (concat (map (drawsAt m) layerDrawOrder), m\<lparr>scheduledDraws := Map.empty\<rparr>)"
  by (simp add: executeScheduledDraws_def drawsAt_def [abs_def])

text \<open>
  C1 (as the code has it). After any sequence of \<open>scheduleDraw\<close> calls on a fresh manager,
  one \<open>executeScheduledDraws\<close> executes the scheduled callbacks layer by layer in the
  order fish, lantern shadow, ripple, water surface, wave, petal, food, lantern and the
  debug layer last, within a layer in the order of scheduling, and leaves the schedule
  empty.
\<close>

theorem flush_runs_layers_fish_first_dev_last:
  "executeScheduledDraws (scheduleAll calls DrawManager_new)
     = (concat (map (\<lambda>layer. map snd (filter (\<lambda>c. fst c = layer) calls))
                  [FISH, LANTERN_SHADOW, RIPPLE, WATER_SURFACE, WAVE, PETAL, FOOD, LANTERN, DEV]),
        DrawManager_new)"
proof -
  have order: "layerDrawOrder
                 = [FISH, LANTERN_SHADOW, RIPPLE, WATER_SURFACE, WAVE, PETAL, FOOD, LANTERN, DEV]"
    by (simp add: layerDrawOrder_def DrawLayer_members_def)
  have at: "drawsAt (scheduleAll calls DrawManager_new) l
              = map snd (filter (\<lambda>c. fst c = l) calls)" for l
    by (simp add: drawsAt_scheduleAll drawsAt_new)
  have cleared: "(scheduleAll calls DrawManager_new)\<lparr>scheduledDraws := Map.empty\<rparr>
                   = (DrawManager_new :: 'a DrawManager)"
    by (simp add: DrawManager_new_def)
  show ?thesis
    by (simp add: executeScheduledDraws_drawsAt order at cleared)
qed

text \<open>
  The order of the specification's words (debug first, fish last) is not the order of
  the code: three callbacks scheduled on the debug, lantern and fish layers run
  fish first and debug last.
\<close>

theorem flush_order_counterexample:
  "fst (executeScheduledDraws
          (scheduleAll [(DEV, ''debug point''), (LANTERN, ''lantern''), (FISH, ''fish'')]
             DrawManager_new))
     = [''fish'', ''lantern'', ''debug point'']
   \<and> concat (map (\<lambda>layer. map snd (filter (\<lambda>c. fst c = layer)
                 [(DEV, ''debug point''), (LANTERN, ''lantern''), (FISH, ''fish'')]))
               specLayerOrder)
     = [''debug point'', ''lantern'', ''fish'']
   \<and> fst (executeScheduledDraws
          (scheduleAll [(DEV, ''debug point''), (LANTERN, ''lantern''), (FISH, ''fish'')]
             DrawManager_new))
     \<noteq> concat (map (\<lambda>layer. map snd (filter (\<lambda>c. fst c = layer)
                 [(DEV, ''debug point''), (LANTERN, ''lantern''), (FISH, ''fish'')]))
               specLayerOrder)"
  by (simp add: executeScheduledDraws_def scheduleDraw_def DrawManager_new_def
      layerDrawOrder_def DrawLayer_members_def specLayerOrder_def Let_def)

subsection \<open>Spatial grid\<close>

lemma cache_setupCanvas: "cache (setupCanvas w h st) = cache st"
  by (simp add: setupCanvas_def)

lemma getAdjacentIndices_result:
  "fst (getAdjacentIndices i r st)
     = (case cache st [i, r] of Some cached \<Rightarrow> cached | None \<Rightarrow> adjacentIndicesFn st i r)"
  by (simp add: getAdjacentIndices_def Let_def split: option.split)

lemma getAdjacentIndices_caches:
  "cache (snd (getAdjacentIndices i r st)) [i, r] = Some (fst (getAdjacentIndices i r st))"
  by (simp add: getAdjacentIndices_def Let_def split: option.split)

lemma getAdjacentIndices_keeps:
  "cache st k = Some v \<Longrightarrow> cache (snd (getAdjacentIndices i r st)) k = Some v"
  by (auto simp add: getAdjacentIndices_def Let_def split: option.split)

lemma run_canvas_calls_keeps:
  "cache st k = Some v \<Longrightarrow> cache (run_canvas_calls calls st) k = Some v"
proof (induction calls st rule: run_canvas_calls.induct)
  case (1 this)
  then show ?case by simp
next
  case (2 w h cs this)
  then show ?case by (simp add: cache_setupCanvas)
next
  case (3 i r cs this)
  then show ?case by (simp add: getAdjacentIndices_keeps)
qed

lemma loaded_100: "numCellsX (CanvasUtil_loaded 100 100) = 2 \<and> numCellsY (CanvasUtil_loaded 100 100) = 2
  \<and> cache (CanvasUtil_loaded 100 100) = Map.empty"
  by (simp add: CanvasUtil_loaded_def setupCanvas_def cellSize_def)

lemma upto_m1_1: "[- 1 .. (1::int)] = [- 1, 0, 1]"
  by (simp add: upto.simps)

lemma adj_old: "adjacentIndicesFn (CanvasUtil_loaded 100 100) 0 1 = [0, 2, 1, 3]"
  by (simp add: adjacentIndicesFn_def loaded_100 js_rem_def upto_m1_1 Let_def)

text \<open>
  C10. \<open>setupCanvas\<close> leaves the cache as it is; a call of \<open>getAdjacentIndices\<close>
  returns the cached list when the key \<open>(cellIndex, range)\<close> is cached and computes it
  from the current dimensions otherwise; and once a key has been queried, the same
  query after any further calls of \<open>setupCanvas\<close> and \<open>getAdjacentIndices\<close> returns
  the list of the first query. On a 100 by 100 canvas resized to 150 by 150, the query
  \<open>(0, 1)\<close> still returns the list \<open>[0, 2, 1, 3]\<close> of the 2 by 2 grid, not the list
  \<open>[0, 3, 1, 4]\<close> that the 3 by 3 grid would produce.
\<close>

theorem neighbour_cache_survives_resize:
  "cache (setupCanvas w h st) = cache st
   \<and> fst (getAdjacentIndices i r st)
       = (case cache st [i, r] of Some cached \<Rightarrow> cached | None \<Rightarrow> adjacentIndicesFn st i r)
   \<and> fst (getAdjacentIndices i r (run_canvas_calls calls (snd (getAdjacentIndices i r st))))
       = fst (getAdjacentIndices i r st)
   \<and> fst (getAdjacentIndices 0 1
            (setupCanvas 150 150 (snd (getAdjacentIndices 0 1 (CanvasUtil_loaded 100 100)))))
       = adjacentIndicesFn (CanvasUtil_loaded 100 100) 0 1
   \<and> adjacentIndicesFn (CanvasUtil_loaded 100 100) 0 1 = [0, 2, 1, 3]
   \<and> adjacentIndicesFn
        (setupCanvas 150 150 (snd (getAdjacentIndices 0 1 (CanvasUtil_loaded 100 100)))) 0 1
       = [0, 3, 1, 4]"
proof -
  have later: "fst (getAdjacentIndices i r (run_canvas_calls calls (snd (getAdjacentIndices i r st))))
       = fst (getAdjacentIndices i r st)" for i r calls st
  proof -
    have "cache (run_canvas_calls calls (snd (getAdjacentIndices i r st))) [i, r]
            = Some (fst (getAdjacentIndices i r st))"
      by (rule run_canvas_calls_keeps [OF getAdjacentIndices_caches])
    then show ?thesis by (simp add: getAdjacentIndices_result)
  qed
  have first: "fst (getAdjacentIndices 0 1 (CanvasUtil_loaded 100 100))
                 = adjacentIndicesFn (CanvasUtil_loaded 100 100) 0 1"
    by (simp add: getAdjacentIndices_result loaded_100)
  have stale: "fst (getAdjacentIndices 0 1
            (setupCanvas 150 150 (snd (getAdjacentIndices 0 1 (CanvasUtil_loaded 100 100)))))
       = adjacentIndicesFn (CanvasUtil_loaded 100 100) 0 1"
    using later [of 0 1 "[SetupCanvas 150 150]" "CanvasUtil_loaded 100 100"] first
    by simp
  have fresh: "adjacentIndicesFn
        (setupCanvas 150 150 (snd (getAdjacentIndices 0 1 (CanvasUtil_loaded 100 100)))) 0 1
       = [0, 3, 1, 4]"
    by (simp add: adjacentIndicesFn_def setupCanvas_def cellSize_def js_rem_def upto_m1_1 Let_def)
  from cache_setupCanvas getAdjacentIndices_result later stale adj_old fresh
  show ?thesis by blast
qed

subsection \<open>The neighbourhood computed without the cache\<close>

lemma cell_decomp:
  fixes a b nx :: int
  assumes "0 \<le> a" "a < nx"
  shows "(b * nx + a) mod nx = a" and "(b * nx + a) div nx = b"
  using assms by simp_all

lemma cell_bounds:
  fixes a b nx ny :: int
  assumes "0 \<le> a" "a < nx" "0 \<le> b" "b < ny"
  shows "0 \<le> b * nx + a" and "b * nx + a \<le> nx * ny - 1"
proof -
  from assms have nx: "0 \<le> nx" by simp
  with assms show "0 \<le> b * nx + a" by simp
  have "b * nx \<le> (ny - 1) * nx"
    by (rule mult_right_mono) (use assms nx in simp_all)
  with assms show "b * nx + a \<le> nx * ny - 1" by (simp add: algebra_simps)
qed

lemma cell_index_bounds:
  fixes j nx ny :: int
  assumes "0 < nx" "0 \<le> j" "j \<le> nx * ny - 1"
  shows "0 \<le> j div nx" and "j div nx < ny" and "0 \<le> j mod nx" and "j mod nx < nx"
proof -
  show "0 \<le> j div nx" using assms by (simp add: pos_imp_zdiv_nonneg_iff)
  show "0 \<le> j mod nx" "j mod nx < nx" using assms by simp_all
  have "j < ny * nx" using assms by (simp add: mult.commute)
  show "j div nx < ny"
  proof (rule ccontr)
    assume "\<not> j div nx < ny"
    then have "ny \<le> j div nx" by simp
    then have "nx * ny \<le> nx * (j div nx)"
      using assms(1) by (simp add: mult_left_mono)
    also have "\<dots> \<le> nx * (j div nx) + j mod nx"
      using \<open>0 \<le> j mod nx\<close> by linarith
    also have "\<dots> = j" by simp
    finally show False using assms(3) by simp
  qed
qed

lemma mem_adjacentIndicesFn:
  assumes "numCellsX st \<noteq> 0"
  shows "j \<in> set (adjacentIndicesFn st idx r) \<longleftrightarrow>
          (\<exists>dx dy. - r \<le> dx \<and> dx \<le> r \<and> - r \<le> dy \<and> dy \<le> r
             \<and> 0 \<le> js_rem idx (numCellsX st) + dx \<and> js_rem idx (numCellsX st) + dx < numCellsX st
             \<and> 0 \<le> idx div numCellsX st + dy \<and> idx div numCellsX st + dy < numCellsY st
             \<and> j = (idx div numCellsX st + dy) * numCellsX st + (js_rem idx (numCellsX st) + dx))"
  using assms
  apply (auto simp add: adjacentIndicesFn_def Let_def)
  subgoal for dx dy
    by (rule bexI [where x = dx], rule bexI [where x = dy]) auto
  done

lemma js_rem_nonneg: "0 \<le> a \<Longrightarrow> 0 < n \<Longrightarrow> js_rem a n = a mod n"
  by (cases "a = 0") (simp_all add: js_rem_def)

lemma mem_chebyshevNeighbours:
  "j \<in> chebyshevNeighbours st idx r \<longleftrightarrow>
     0 \<le> j \<and> j \<le> numCellsX st * numCellsY st - 1
     \<and> \<bar>j mod numCellsX st - idx mod numCellsX st\<bar> \<le> r
     \<and> \<bar>j div numCellsX st - idx div numCellsX st\<bar> \<le> r"
  by (auto simp add: chebyshevNeighbours_def)

text \<open>
  The memoized function itself is exact: on a grid with at least one column, for a
  non-negative cell index it lists exactly the cells of the current grid within the
  Chebyshev radius, and so the queried cell itself when that is in bounds.
\<close>

lemma adjacentIndicesFn_exact:
  assumes nx: "0 < numCellsX st" and idx: "0 \<le> idx"
  shows "set (adjacentIndicesFn st idx r) = chebyshevNeighbours st idx r"
proof (rule set_eqI)
  fix j
  let ?nx = "numCellsX st" and ?ny = "numCellsY st"
  let ?cx = "idx mod ?nx" and ?cy = "idx div ?nx"
  from nx have nz: "?nx \<noteq> 0" by simp
  have rem: "js_rem idx ?nx = ?cx" by (rule js_rem_nonneg [OF idx nx])
  show "j \<in> set (adjacentIndicesFn st idx r) \<longleftrightarrow> j \<in> chebyshevNeighbours st idx r"
  proof
    assume "j \<in> set (adjacentIndicesFn st idx r)"
    then obtain dx dy where d: "- r \<le> dx" "dx \<le> r" "- r \<le> dy" "dy \<le> r"
      and inb: "0 \<le> ?cx + dx" "?cx + dx < ?nx" "0 \<le> ?cy + dy" "?cy + dy < ?ny"
      and j: "j = (?cy + dy) * ?nx + (?cx + dx)"
      unfolding mem_adjacentIndicesFn [OF nz] rem by blast
    have "j mod ?nx = ?cx + dx" "j div ?nx = ?cy + dy"
      unfolding j by (rule cell_decomp [OF inb(1) inb(2)])+
    moreover have "0 \<le> j" "j \<le> ?nx * ?ny - 1"
      unfolding j by (rule cell_bounds [OF inb])+
    ultimately show "j \<in> chebyshevNeighbours st idx r"
      using d by (simp add: mem_chebyshevNeighbours abs_le_iff)
  next
    assume "j \<in> chebyshevNeighbours st idx r"
    then have j: "0 \<le> j" "j \<le> ?nx * ?ny - 1"
      and near: "\<bar>j mod ?nx - ?cx\<bar> \<le> r" "\<bar>j div ?nx - ?cy\<bar> \<le> r"
      by (simp_all add: mem_chebyshevNeighbours)
    note b = cell_index_bounds [OF nx j]
    have "\<exists>dx dy. - r \<le> dx \<and> dx \<le> r \<and> - r \<le> dy \<and> dy \<le> r
             \<and> 0 \<le> ?cx + dx \<and> ?cx + dx < ?nx \<and> 0 \<le> ?cy + dy \<and> ?cy + dy < ?ny
             \<and> j = (?cy + dy) * ?nx + (?cx + dx)"
      apply (rule exI [where x = "j mod ?nx - ?cx"])
      apply (rule exI [where x = "j div ?nx - ?cy"])
      using near b by (simp add: abs_le_iff)
    then show "j \<in> set (adjacentIndicesFn st idx r)"
      unfolding mem_adjacentIndicesFn [OF nz] rem by blast
  qed
qed

lemma adjacentIndicesFn_contains_self:
  assumes "0 < numCellsX st" and "0 \<le> idx" and "idx \<le> numCellsX st * numCellsY st - 1"
    and "0 \<le> r"
  shows "idx \<in> set (adjacentIndicesFn st idx r)"
  using assms by (simp add: adjacentIndicesFn_exact mem_chebyshevNeighbours)

text \<open>Two points of the same cell have the same cell index.\<close>

lemma getCellIndex_same_cell:
  assumes "\<lfloor>x p / cellSize\<rfloor> = \<lfloor>x q / cellSize\<rfloor>" and "\<lfloor>y p / cellSize\<rfloor> = \<lfloor>y q / cellSize\<rfloor>"
  shows "getCellIndex st p = getCellIndex st q"
  using assms by (simp add: getCellIndex_def)

text \<open>
  C8 at a failing input. On a 100 by 100 canvas (a 2 by 2 grid) the neighbours of cell 0
  are queried with range 1, then the window is resized to 150 by 150 (a 3 by 3 grid).
  The same query now returns the cached \<open>[0, 2, 1, 3]\<close>: cell 2, two columns away, is
  listed, and cell 4, the diagonal neighbour, is missing. The cells within Chebyshev
  radius 1 of cell 0 on the current grid are \<open>{0, 1, 3, 4}\<close>.
\<close>

theorem stale_neighbours_after_resize:
  "numCellsX (run_canvas_calls [GetAdjacentIndices 0 1, SetupCanvas 150 150]
                (CanvasUtil_loaded 100 100)) = 3
   \<and> numCellsY (run_canvas_calls [GetAdjacentIndices 0 1, SetupCanvas 150 150]
                (CanvasUtil_loaded 100 100)) = 3
   \<and> fst (getAdjacentIndices 0 1
            (run_canvas_calls [GetAdjacentIndices 0 1, SetupCanvas 150 150]
               (CanvasUtil_loaded 100 100))) = [0, 2, 1, 3]
   \<and> chebyshevNeighbours
         (run_canvas_calls [GetAdjacentIndices 0 1, SetupCanvas 150 150]
            (CanvasUtil_loaded 100 100)) 0 1 = {0, 1, 3, 4}
   \<and> set (fst (getAdjacentIndices 0 1
            (run_canvas_calls [GetAdjacentIndices 0 1, SetupCanvas 150 150]
               (CanvasUtil_loaded 100 100))))
       \<noteq> chebyshevNeighbours
           (run_canvas_calls [GetAdjacentIndices 0 1, SetupCanvas 150 150]
              (CanvasUtil_loaded 100 100)) 0 1"
proof -
  define st where "st = run_canvas_calls [GetAdjacentIndices 0 1, SetupCanvas 150 150]
                (CanvasUtil_loaded 100 100)"
  have dims: "numCellsX st = 3" "numCellsY st = 3"
    by (simp_all add: st_def setupCanvas_def cellSize_def)
  have "cache st [0, 1] = Some [0, 2, 1, 3]"
    by (simp add: st_def setupCanvas_def getAdjacentIndices_def CanvasUtil_loaded_def
        adjacentIndicesFn_def cellSize_def js_rem_def Let_def upto.simps)
  then have res: "fst (getAdjacentIndices 0 1 st) = [0, 2, 1, 3]"
    by (simp add: getAdjacentIndices_def)
  have "set (filter (\<lambda>j. \<bar>j mod 3 - 0 mod 3\<bar> \<le> 1 \<and> \<bar>j div 3 - 0 div 3\<bar> \<le> 1) [0 .. 3 * 3 - 1])
          = {0, 1, 3, 4 :: int}"
    by code_simp
  then have spec: "chebyshevNeighbours st 0 1 = {0, 1, 3, 4}"
    by (simp only: chebyshevNeighbours_def dims)
  have "(2::int) \<in> set [0, 2, 1, 3]" "(2::int) \<notin> {0, 1, 3, 4}" by simp_all
  then have "set [0, 2, 1, 3] \<noteq> {0, 1, 3, 4 :: int}" by metis
  with dims res spec show ?thesis unfolding st_def by simp
qed

subsection \<open>Wave re-entry\<close>

lemmas prog_defs = bnd_def ret_def throw_def reads_def modify_def seq_def raise_def

lemma floor_twice:
  fixes r :: real
  assumes "0 \<le> r" "r < 1"
  shows "nat \<lfloor>r * 2\<rfloor> = (if r < 1 / 2 then 0 else 1)"
proof (cases "r < 1 / 2")
  case True
  with assms have "\<lfloor>r * 2\<rfloor> = 0" by (simp add: floor_eq_iff)
  with True show ?thesis by simp
next
  case False
  with assms have "\<lfloor>r * 2\<rfloor> = 1" by (simp add: floor_eq_iff)
  with False show ?thesis by simp
qed

lemma getTopLeftCornerPoint_result:
  assumes "randomNumbers w = r1 ## r2 ## rest" and "0 \<le> r1" "r1 < 1"
  shows "getTopLeftCornerPoint d w
           = Some (Inr (if r1 < 1 / 2
                        then \<lparr>x = r2 * (canvas_width (canvas w) / 2), y = canvas_height (canvas w) + d\<rparr>
                        else \<lparr>x = 0 - d,
                              y = r2 * (canvas_height (canvas w) - canvas_height (canvas w) / 2)
                                    + canvas_height (canvas w) / 2\<rparr>),
                   w\<lparr>randomNumbers := rest\<rparr>)"
  using assms
  by (simp add: getTopLeftCornerPoint_def getRandomItem_def getRandomNumber_def Math_random_def
      prog_defs Let_def floor_twice)

lemma getDownRightDirection_result:
  assumes "randomNumbers w = r3 ## r4 ## rest"
  shows "getDownRightDirection w
           = (if sqrt (r3 * r3 + r4 * r4) = 0
              then Some (Inl CannotNormalizeZeroVector, w\<lparr>randomNumbers := rest\<rparr>)
              else Some (Inr \<lparr>dx = r3 / sqrt (r3 * r3 + r4 * r4),
                              dy = - r4 / sqrt (r3 * r3 + r4 * r4)\<rparr>,
                         w\<lparr>randomNumbers := rest\<rparr>))"
  using assms
  by (simp add: getDownRightDirection_def Math_random_def normalize_def prog_defs Let_def)

lemma prepareReentry_river:
  assumes river: "riverMode w"
    and draws: "randomNumbers w = r1 ## r2 ## r3 ## r4 ## rest"
    and r1: "0 \<le> r1" "r1 < 1"
    and nz: "sqrt (r3 * r3 + r4 * r4) \<noteq> 0"
  shows "prepareReentry this w
           = Some (Inr (),
               updateWave this (\<lambda>wv. wv\<lparr>Wave.position :=
                    (if r1 < 1 / 2
                     then \<lparr>x = r2 * (canvas_width (canvas w) / 2), y = canvas_height (canvas w) + 300\<rparr>
                     else \<lparr>x = 0 - 300,
                           y = r2 * (canvas_height (canvas w) - canvas_height (canvas w) / 2)
                                 + canvas_height (canvas w) / 2\<rparr>),
                  Wave.direction := \<lparr>dx = r3 / sqrt (r3 * r3 + r4 * r4),
                              dy = - r4 / sqrt (r3 * r3 + r4 * r4)\<rparr>\<rparr>)
                 (w\<lparr>randomNumbers := rest\<rparr>))"
proof -
  have corner: "getTopLeftCornerPoint 300 w = Some (Inr (if r1 < 1 / 2
                        then \<lparr>x = r2 * (canvas_width (canvas w) / 2), y = canvas_height (canvas w) + 300\<rparr>
                        else \<lparr>x = 0 - 300,
                              y = r2 * (canvas_height (canvas w) - canvas_height (canvas w) / 2)
                                    + canvas_height (canvas w) / 2\<rparr>),
                   w\<lparr>randomNumbers := r3 ## r4 ## rest\<rparr>)"
    by (rule getTopLeftCornerPoint_result [OF draws r1])
  have dir: "getDownRightDirection (w\<lparr>randomNumbers := r3 ## r4 ## rest\<rparr>)
           = Some (Inr \<lparr>dx = r3 / sqrt (r3 * r3 + r4 * r4),
                              dy = - r4 / sqrt (r3 * r3 + r4 * r4)\<rparr>,
                         w\<lparr>randomNumbers := rest\<rparr>)"
    using nz getDownRightDirection_result [of "w\<lparr>randomNumbers := r3 ## r4 ## rest\<rparr>" r3 r4 rest]
    by simp
  show ?thesis
    using river
    by (simp add: prepareReentry_def bnd_def reads_def ret_def modify_def corner dir
        del: real_sqrt_eq_zero_cancel_iff)
qed

lemma unit_down_right:
  assumes "0 \<le> a" "0 \<le> b" and nz: "sqrt (a * a + b * b) \<noteq> 0"
  shows "0 \<le> a / sqrt (a * a + b * b)" and "- b / sqrt (a * a + b * b) \<le> 0"
    and "getMagnitude \<lparr>dx = a / sqrt (a * a + b * b), dy = - b / sqrt (a * a + b * b)\<rparr> = 1"
    and "0 < a \<Longrightarrow> 0 < a / sqrt (a * a + b * b)"
    and "0 < b \<Longrightarrow> - b / sqrt (a * a + b * b) < 0"
proof -
  let ?m = "sqrt (a * a + b * b)"
  have "0 \<le> ?m" by simp
  with nz have pos: "0 < ?m" by linarith
  show "0 \<le> a / ?m" using assms(1) pos by simp
  show "- b / ?m \<le> 0" using assms(2) pos by (simp add: divide_nonpos_pos)
  show "0 < a \<Longrightarrow> 0 < a / ?m" using pos by simp
  show "0 < b \<Longrightarrow> - b / ?m < 0" using pos by (simp add: divide_neg_pos)
  have sq: "?m * ?m = a * a + (- b) * (- b)"
  proof -
    have "0 \<le> a * a + b * b" by simp
    then show ?thesis by (simp only: real_sqrt_mult_self abs_of_nonneg minus_mult_minus)
  qed
  show "getMagnitude \<lparr>dx = a / ?m, dy = - b / ?m\<rparr> = 1"
    using unit_after_division [OF pos sq] by (simp add: getMagnitude_def)
qed

lemma Wave_update_river_reentry:
  assumes river: "riverMode w"
    and draws: "randomNumbers w = r1 ## r2 ## r3 ## r4 ## rest"
    and r1: "0 \<le> r1" "r1 < 1"
    and nzm: "sqrt (r3 * r3 + r4 * r4) \<noteq> 0"
    and oob: "isPointOutOfBounds (canvas w) (translatedWave w this) 500"
  shows "Wave_update this w
           = Some (Inr (),
               reentered w this
                 (if r1 < 1 / 2
                  then \<lparr>x = r2 * (canvas_width (canvas w) / 2),
                        y = canvas_height (canvas w) + 300\<rparr>
                  else \<lparr>x = - 300,
                        y = r2 * (canvas_height (canvas w) - canvas_height (canvas w) / 2)
                              + canvas_height (canvas w) / 2\<rparr>)
                 \<lparr>dx = r3 / sqrt (r3 * r3 + r4 * r4), dy = - r4 / sqrt (r3 * r3 + r4 * r4)\<rparr>
                 rest)"
proof -
  define w1 where "w1 = updateWave this (\<lambda>wv. wv\<lparr>Wave.position := translatedWave w this\<rparr>) w"
  have w1: "riverMode w1" "randomNumbers w1 = r1 ## r2 ## r3 ## r4 ## rest" "canvas w1 = canvas w"
    "Wave.position (wave w1 this) = translatedWave w this"
    using river draws by (simp_all add: w1_def updateWave_def)
  note re = prepareReentry_river [OF w1(1) w1(2) r1 nzm, of this, unfolded w1(3)]
  have step: "updateWave this (\<lambda>wv.
            wv\<lparr>Wave.position :=
                  snd (applyVector (Wave.position wv)
                         (fst (scale (Wave.direction wv)
                                 (Wave.speed wv
                                    * getElapsedSeconds (clock w) (Wave.lastUpdateTime wv))
                                 False))
                         True)\<rparr>) w = w1"
    by (simp add: w1_def updateWave_def translatedWave_def)
  show ?thesis
    using oob
    by (simp add: Wave_update_def bnd_def reads_def ret_def modify_def seq_def
        step w1 re reentered_def w1_def [symmetric])
qed

lemma reentered_fields:
  "Wave.position (wave (reentered w this p d rest) this) = p"
  "Wave.direction (wave (reentered w this p d rest) this) = d"
  "waveMap (reentered w this p d rest) = waveMap w"
  by (simp_all add: reentered_def updateWave_def)

text \<open>
  C9 (amended). In river mode, when the position of a wave after the translation of its
  \<open>update\<close> is out of bounds by more than 500, and the two numbers drawn for the direction
  are not both 0, the call returns, the wave collection of the object manager is
  unchanged (the wave is not destroyed), the wave is at a re-entry point at the top-left
  corner, 300 outside the canvas (300 above the top edge over the left half, or 300 left
  of the left edge beside the upper half), and its direction is a unit vector with
  \<open>dx \<ge> 0\<close> and \<open>dy \<le> 0\<close>; \<open>dx > 0\<close> when the first number drawn for the direction is
  positive and \<open>dy < 0\<close> when the second is.
\<close>

theorem wave_reenters_top_left_in_river_mode:
  assumes river: "riverMode w"
    and draws: "randomNumbers w = r1 ## r2 ## r3 ## r4 ## rest"
    and r1: "0 \<le> r1" "r1 < 1" and r2: "0 \<le> r2" "r2 < 1"
    and r3: "0 \<le> r3" and r4: "0 \<le> r4" and nz: "r3 \<noteq> 0 \<or> r4 \<noteq> 0"
    and dims: "0 \<le> canvas_width (canvas w)" "0 \<le> canvas_height (canvas w)"
    and oob: "isPointOutOfBounds (canvas w) (translatedWave w this) 500"
  shows "\<exists>w'. Wave_update this w = Some (Inr (), w')
           \<and> waveMap w' = waveMap w
           \<and> Wave.position (wave w' this)
               = (if r1 < 1 / 2
                  then \<lparr>x = r2 * (canvas_width (canvas w) / 2),
                        y = canvas_height (canvas w) + 300\<rparr>
                  else \<lparr>x = - 300,
                        y = r2 * (canvas_height (canvas w) - canvas_height (canvas w) / 2)
                              + canvas_height (canvas w) / 2\<rparr>)
           \<and> ((y (Wave.position (wave w' this)) = canvas_height (canvas w) + 300
                  \<and> 0 \<le> x (Wave.position (wave w' this))
                  \<and> x (Wave.position (wave w' this)) \<le> canvas_width (canvas w) / 2)
                \<or> (x (Wave.position (wave w' this)) = - 300
                  \<and> canvas_height (canvas w) / 2 \<le> y (Wave.position (wave w' this))
                  \<and> y (Wave.position (wave w' this)) \<le> canvas_height (canvas w)))
           \<and> 0 \<le> dx (Wave.direction (wave w' this))
           \<and> dy (Wave.direction (wave w' this)) \<le> 0
           \<and> getMagnitude (Wave.direction (wave w' this)) = 1
           \<and> (0 < r3 \<longrightarrow> 0 < dx (Wave.direction (wave w' this)))
           \<and> (0 < r4 \<longrightarrow> dy (Wave.direction (wave w' this)) < 0)"
proof -
  let ?m = "sqrt (r3 * r3 + r4 * r4)"
  have nzm: "?m \<noteq> 0" using nz r3 r4 normalize_unit_aux [of "\<lparr>dx = r3, dy = r4\<rparr>"] by auto
  define p where "p = (if r1 < 1 / 2
                  then \<lparr>x = r2 * (canvas_width (canvas w) / 2),
                        y = canvas_height (canvas w) + 300\<rparr>
                  else \<lparr>x = - 300,
                        y = r2 * (canvas_height (canvas w) - canvas_height (canvas w) / 2)
                              + canvas_height (canvas w) / 2\<rparr>)"
  define w' where "w' = reentered w this p \<lparr>dx = r3 / ?m, dy = - r4 / ?m\<rparr> rest"
  have run: "Wave_update this w = Some (Inr (), w')"
    unfolding w'_def p_def by (rule Wave_update_river_reentry [OF river draws r1 nzm oob])
  have pos: "Wave.position (wave w' this) = p"
    and dir: "Wave.direction (wave w' this) = \<lparr>dx = r3 / ?m, dy = - r4 / ?m\<rparr>"
    and wm: "waveMap w' = waveMap w"
    by (simp_all add: w'_def reentered_fields)
  note u = unit_down_right [OF r3 r4 nzm]
  have half: "r2 * (canvas_width (canvas w) / 2) \<le> canvas_width (canvas w) / 2"
    using r2 dims by (simp add: mult_left_le_one_le mult.commute)
  have up1: "canvas_height (canvas w) / 2
               \<le> r2 * (canvas_height (canvas w) - canvas_height (canvas w) / 2)
                   + canvas_height (canvas w) / 2"
    using r2 dims by simp
  have up2: "r2 * (canvas_height (canvas w) - canvas_height (canvas w) / 2)
                   + canvas_height (canvas w) / 2 \<le> canvas_height (canvas w)"
  proof -
    have "r2 * (canvas_height (canvas w) / 2) \<le> canvas_height (canvas w) / 2"
      using r2 dims by (simp add: mult_left_le_one_le mult.commute)
    then show ?thesis by simp
  qed
  have where_: "(y p = canvas_height (canvas w) + 300 \<and> 0 \<le> x p \<and> x p \<le> canvas_width (canvas w) / 2)
                \<or> (x p = - 300 \<and> canvas_height (canvas w) / 2 \<le> y p \<and> y p \<le> canvas_height (canvas w))"
    using half up1 up2 r2 dims by (simp add: p_def)
  have pos': "Wave.position (wave w' this)
               = (if r1 < 1 / 2
                  then \<lparr>x = r2 * (canvas_width (canvas w) / 2),
                        y = canvas_height (canvas w) + 300\<rparr>
                  else \<lparr>x = - 300,
                        y = r2 * (canvas_height (canvas w) - canvas_height (canvas w) / 2)
                              + canvas_height (canvas w) / 2\<rparr>)"
    by (simp only: pos p_def)
  have d: "0 \<le> dx (Wave.direction (wave w' this))"
    "dy (Wave.direction (wave w' this)) \<le> 0"
    "getMagnitude (Wave.direction (wave w' this)) = 1"
    "0 < r3 \<longrightarrow> 0 < dx (Wave.direction (wave w' this))"
    "0 < r4 \<longrightarrow> dy (Wave.direction (wave w' this)) < 0"
    using u by (simp_all add: dir)
  from where_ have where': "(y (Wave.position (wave w' this)) = canvas_height (canvas w) + 300
                  \<and> 0 \<le> x (Wave.position (wave w' this))
                  \<and> x (Wave.position (wave w' this)) \<le> canvas_width (canvas w) / 2)
                \<or> (x (Wave.position (wave w' this)) = - 300
                  \<and> canvas_height (canvas w) / 2 \<le> y (Wave.position (wave w' this))
                  \<and> y (Wave.position (wave w' this)) \<le> canvas_height (canvas w))"
    by (simp only: pos)
  from run wm pos' where' d show ?thesis by blast
qed

lemma exampleWorld_canvas:
  "canvas_width (canvas (exampleWorld s)) = 600"
  "canvas_height (canvas (exampleWorld s)) = 800"
  by (simp_all add: exampleWorld_def CanvasUtil_loaded_def setupCanvas_def)

lemma exampleWorld_wave_out:
  "translatedWave (exampleWorld s) ''wave-1'' = \<lparr>x = 500, y = - 600\<rparr>"
  by (simp add: translatedWave_def exampleWorld_def exampleWave_def applyVector_def scale_def
      getElapsedSeconds_def Let_def)

theorem wave_reenters_top_left_in_river_mode_witness:
  "riverMode (exampleWorld (1 / 4 ## 1 / 2 ## 3 / 5 ## 4 / 5 ## sconst 0))
   \<and> isPointOutOfBounds (canvas (exampleWorld (1 / 4 ## 1 / 2 ## 3 / 5 ## 4 / 5 ## sconst 0)))
         (translatedWave (exampleWorld (1 / 4 ## 1 / 2 ## 3 / 5 ## 4 / 5 ## sconst 0)) ''wave-1'') 500
   \<and> (\<exists>w'. Wave_update ''wave-1'' (exampleWorld (1 / 4 ## 1 / 2 ## 3 / 5 ## 4 / 5 ## sconst 0))
                = Some (Inr (), w')
           \<and> ''wave-1'' \<in> waveMap w'
           \<and> Wave.position (wave w' ''wave-1'') = \<lparr>x = 150, y = 1100\<rparr>
           \<and> 0 < dx (Wave.direction (wave w' ''wave-1''))
           \<and> dy (Wave.direction (wave w' ''wave-1'')) < 0)"
proof -
  let ?w = "exampleWorld (1 / 4 ## 1 / 2 ## 3 / 5 ## 4 / 5 ## sconst 0)"
  have river: "riverMode ?w" and draws: "randomNumbers ?w = 1 / 4 ## 1 / 2 ## 3 / 5 ## 4 / 5 ## sconst 0"
    and wm: "waveMap ?w = {''wave-1''}"
    by (simp_all add: exampleWorld_def)
  have oob: "isPointOutOfBounds (canvas ?w) (translatedWave ?w ''wave-1'') 500"
    by (simp add: exampleWorld_wave_out isPointOutOfBounds_def exampleWorld_canvas)
  from wave_reenters_top_left_in_river_mode [OF river draws _ _ _ _ _ _ _ _ _ oob]
  obtain w' where "Wave_update ''wave-1'' ?w = Some (Inr (), w')"
    "waveMap w' = waveMap ?w"
    "Wave.position (wave w' ''wave-1'') = \<lparr>x = 150, y = 1100\<rparr>"
    "0 < dx (Wave.direction (wave w' ''wave-1''))"
    "dy (Wave.direction (wave w' ''wave-1'')) < 0"
    by (auto simp add: exampleWorld_canvas)
  with river oob wm show ?thesis by auto
qed

text \<open>
  The direction is not always strictly down-right: \<open>Math.random()\<close> may return 0, and
  when it does for \<open>dx\<close>, the wave at \<open>y = -600\<close> re-enters heading straight down.
\<close>

theorem wave_direction_counterexample:
  "riverMode (exampleWorld (1 / 4 ## 1 / 2 ## 0 ## 1 / 2 ## sconst 0))
   \<and> y (Wave.position (wave (exampleWorld (1 / 4 ## 1 / 2 ## 0 ## 1 / 2 ## sconst 0)) ''wave-1'')) = - 600
   \<and> isPointOutOfBounds (canvas (exampleWorld (1 / 4 ## 1 / 2 ## 0 ## 1 / 2 ## sconst 0)))
         (translatedWave (exampleWorld (1 / 4 ## 1 / 2 ## 0 ## 1 / 2 ## sconst 0)) ''wave-1'') 500
   \<and> Wave_update ''wave-1'' (exampleWorld (1 / 4 ## 1 / 2 ## 0 ## 1 / 2 ## sconst 0))
       = Some (Inr (), reentered (exampleWorld (1 / 4 ## 1 / 2 ## 0 ## 1 / 2 ## sconst 0)) ''wave-1''
                         \<lparr>x = 150, y = 1100\<rparr> \<lparr>dx = 0, dy = - 1\<rparr> (sconst 0))
   \<and> dx (Wave.direction
            (wave (reentered (exampleWorld (1 / 4 ## 1 / 2 ## 0 ## 1 / 2 ## sconst 0)) ''wave-1''
                     \<lparr>x = 150, y = 1100\<rparr> \<lparr>dx = 0, dy = - 1\<rparr> (sconst 0)) ''wave-1'')) = 0
   \<and> \<not> 0 < dx (Wave.direction
            (wave (reentered (exampleWorld (1 / 4 ## 1 / 2 ## 0 ## 1 / 2 ## sconst 0)) ''wave-1''
                     \<lparr>x = 150, y = 1100\<rparr> \<lparr>dx = 0, dy = - 1\<rparr> (sconst 0)) ''wave-1''))"
proof -
  let ?w = "exampleWorld (1 / 4 ## 1 / 2 ## 0 ## 1 / 2 ## sconst 0)"
  have river: "riverMode ?w" and draws: "randomNumbers ?w = 1 / 4 ## 1 / 2 ## 0 ## 1 / 2 ## sconst 0"
    and at: "y (Wave.position (wave ?w ''wave-1'')) = - 600"
    by (simp_all add: exampleWorld_def exampleWave_def)
  have oob: "isPointOutOfBounds (canvas ?w) (translatedWave ?w ''wave-1'') 500"
    by (simp add: exampleWorld_wave_out isPointOutOfBounds_def exampleWorld_canvas)
  have m: "sqrt (0 * 0 + 1 / 2 * (1 / 2)) = (1 / 2 :: real)"
    by (simp add: real_sqrt_divide)
  have nzm: "sqrt (0 * 0 + 1 / 2 * (1 / 2)) \<noteq> (0 :: real)"
    unfolding m by simp
  note run = Wave_update_river_reentry [OF river draws _ _ nzm oob, unfolded m]
  have "Wave_update ''wave-1'' ?w = Some (Inr (), reentered ?w ''wave-1''
          \<lparr>x = 150, y = 1100\<rparr> \<lparr>dx = 0, dy = - 1\<rparr> (sconst 0))"
    using run by (simp add: exampleWorld_canvas)
  then show ?thesis using river at oob by (simp add: reentered_fields)
qed

subsection \<open>Fish: what the choice of behaviour preserves\<close>

lemma preservesI: "(\<And>w r w'. P w \<Longrightarrow> m w = Some (r, w') \<Longrightarrow> P w') \<Longrightarrow> preserves P m"
  by (simp add: preserves_def)

lemma preservesD: "preserves P m \<Longrightarrow> P w \<Longrightarrow> m w = Some (r, w') \<Longrightarrow> P w'"
  by (auto simp add: preserves_def)

lemma preserves_ret: "preserves P (ret v)"
  by (simp add: preserves_def ret_def)

lemma preserves_throw: "preserves P (throw e)"
  by (simp add: preserves_def throw_def)

lemma preserves_reads: "preserves P (reads f)"
  by (simp add: preserves_def reads_def)

lemma preserves_raise: "preserves P (raise r)"
  by (cases r) (simp_all add: raise_def preserves_ret preserves_throw)

lemma preserves_bnd:
  assumes "preserves P m" and "\<And>v. preserves P (f v)"
  shows "preserves P (bnd m f)"
proof (rule preservesI)
  fix w r w'
  assume P: "P w" and run: "bnd m f w = Some (r, w')"
  show "P w'"
  proof (cases "m w")
    case None
    with run show ?thesis by (simp add: bnd_def)
  next
    case (Some a)
    obtain r1 w1 where a: "a = (r1, w1)" by (cases a)
    from assms(1) P Some a have P1: "P w1" by (auto dest: preservesD)
    show ?thesis
    proof (cases r1)
      case (Inl e)
      with run Some a P1 show ?thesis by (simp add: bnd_def)
    next
      case (Inr v)
      with run Some a have "f v w1 = Some (r, w')" by (simp add: bnd_def)
      with assms(2) P1 show ?thesis by (auto dest: preservesD)
    qed
  qed
qed

lemma preserves_seq:
  assumes "preserves P m" and "preserves P k"
  shows "preserves P (seq m k)"
  unfolding seq_def using assms by (intro preserves_bnd)

lemma preserves_if:
  assumes "c \<Longrightarrow> preserves P a" and "\<not> c \<Longrightarrow> preserves P b"
  shows "preserves P (if c then a else b)"
  using assms by simp

lemma preserves_case_option:
  assumes "preserves P a" and "\<And>v. preserves P (b v)"
  shows "preserves P (case o' of None \<Rightarrow> a | Some v \<Rightarrow> b v)"
  using assms by (cases o') simp_all

lemma preserves_case_prod:
  assumes "\<And>a b. preserves P (f a b)"
  shows "preserves P (case p of (a, b) \<Rightarrow> f a b)"
  using assms by (cases p) simp

lemma preserves_modify:
  assumes "\<And>w. P w \<Longrightarrow> P (f w)"
  shows "preserves P (modify f)"
  using assms by (auto simp add: preserves_def modify_def)

lemma onFish_updateKoiFish:
  assumes "\<And>f c. Q f c \<Longrightarrow> Q (g f) c"
  shows "onFish this Q w \<Longrightarrow> onFish this Q (updateKoiFish i g w)"
  using assms by (auto simp add: onFish_def updateKoiFish_def)

lemma preserves_Math_random: "preserves (onFish this Q) Math_random"
  by (auto simp add: preserves_def Math_random_def onFish_def)

lemma preserves_newPoint: "preserves (onFish this Q) (newPoint p)"
  by (auto simp add: preserves_def newPoint_def onFish_def)

lemma preserves_getNearbyObjects: "preserves (onFish this Q) (getNearbyObjects p i t r)"
  by (auto simp add: preserves_def getNearbyObjects_def onFish_def Let_def split: prod.splits)

lemma preserves_onEaten: "preserves (onFish this Q) (onEaten i)"
  by (auto simp add: preserves_def onEaten_def modify_def updateFood_def onFish_def)

lemma preserves_getRandomItem: "preserves (onFish this Q) (getRandomItem items)"
  unfolding getRandomItem_def Let_def
  by (intro preserves_if preserves_throw preserves_bnd preserves_Math_random preserves_ret)

lemma preserves_getRandomPoint: "preserves (onFish this Q) (getRandomPoint ratio)"
  unfolding getRandomPoint_def Let_def
  by (intro preserves_bnd preserves_reads preserves_Math_random preserves_ret)

lemma newTargetPointLoop_keeps:
  assumes "newTargetPointLoop a b c w = Some res"
  shows "onFish this Q w \<longrightarrow> onFish this Q (snd res)"
proof (rule newTargetPointLoop.raw_induct [OF _ assms])
  fix loop fishPosition newTargetPoint distanceToNewTargetPoint w res
  assume IH: "\<And>a b c w res. loop a b c w = Some res \<Longrightarrow> onFish this Q w \<longrightarrow> onFish this Q (snd res)"
    and body: "(if distanceToNewTargetPoint < 300
      then case getRandomPoint (9 / 10) w of None \<Rightarrow> None
           | Some (Inl e, w') \<Rightarrow> Some (Inl e, w')
           | Some (Inr drawn, w') \<Rightarrow>
               loop fishPosition drawn (getDistanceTo fishPosition drawn) w'
      else Some (Inr newTargetPoint, w)) = Some res"
  show "onFish this Q w \<longrightarrow> onFish this Q (snd res)"
  proof
    assume P: "onFish this Q w"
    show "onFish this Q (snd res)"
    proof (cases "distanceToNewTargetPoint < 300")
      case False
      with body P show ?thesis by auto
    next
      case True
      show ?thesis
      proof (cases "getRandomPoint (9 / 10) w")
        case None
        with True body show ?thesis by simp
      next
        case (Some a)
        obtain r1 w1 where a: "a = (r1, w1)" by (cases a)
        from preserves_getRandomPoint P Some a have P1: "onFish this Q w1"
          by (auto dest: preservesD)
        show ?thesis
        proof (cases r1)
          case (Inl e)
          with True Some a body P1 show ?thesis by auto
        next
          case (Inr drawn)
          with True Some a body
          have "loop fishPosition drawn (getDistanceTo fishPosition drawn) w1 = Some res"
            by simp
          from IH [OF this] P1 show ?thesis by simp
        qed
      qed
    qed
  qed
qed

lemma preserves_newTargetPointLoop:
  "preserves (onFish this Q) (newTargetPointLoop a b c)"
  by (rule preservesI) (use newTargetPointLoop_keeps in fastforce)

lemma preserves_modify_fish:
  assumes "\<And>w f c. Q f c \<Longrightarrow> Q (g w f) c"
  shows "preserves (onFish this Q) (modify (\<lambda>w. updateKoiFish i (g w) w))"
  by (rule preserves_modify) (use assms in \<open>auto simp add: onFish_def updateKoiFish_def\<close>)

lemmas preserves_intros =
  preserves_bnd preserves_seq preserves_if preserves_case_option preserves_case_prod
  preserves_ret preserves_throw preserves_reads preserves_raise
  preserves_Math_random preserves_newPoint preserves_getNearbyObjects preserves_onEaten
  preserves_getRandomItem preserves_getRandomPoint preserves_newTargetPointLoop
  preserves_modify_fish

lemma steady_unsetLeaderFollower:
  "preserves (onFish this (steady d t c0)) (unsetLeaderFollower leader follower)"
  unfolding unsetLeaderFollower_def
  by (intro preserves_intros) (simp_all add: steady_def)

lemma steady_setLeaderFollower:
  "preserves (onFish this (steady d t c0)) (setLeaderFollower leader follower side)"
  unfolding setLeaderFollower_def
  by (intro preserves_intros) (simp_all add: steady_def)

lemma steady_setNewRandomTargetPoint:
  "preserves (onFish this (steady d t c0)) (setNewRandomTargetPoint i)"
  unfolding setNewRandomTargetPoint_def
  by (intro preserves_intros) (simp_all add: steady_def)

lemma steady_eatDesiredFood:
  "preserves (onFish this (steady d t c0)) (eatDesiredFood i)"
  unfolding eatDesiredFood_def
  by (intro preserves_intros) (simp_all add: steady_def)

lemma steady_chaseFood:
  "preserves (onFish this (steady d t c0)) (chaseFood i cf)"
  unfolding chaseFood_def
  by (intro preserves_intros steady_unsetLeaderFollower) (simp_all add: steady_def)

lemma steady_checkAndSetFoodBehavior:
  "preserves (onFish this (steady d t c0)) (checkAndSetFoodBehavior i)"
  unfolding checkAndSetFoodBehavior_def
  by (intro preserves_intros steady_eatDesiredFood steady_chaseFood) (simp_all add: steady_def)

lemma steady_findLeader:
  "preserves (onFish this (steady d t c0)) (findLeader i me)"
  unfolding findLeader_def
  by (intro preserves_intros steady_setLeaderFollower) (simp_all add: steady_def)

lemma steady_followLeader:
  "preserves (onFish this (steady d t c0)) (followLeader i me leader)"
  unfolding followLeader_def Let_def
  by (intro preserves_intros steady_unsetLeaderFollower steady_setNewRandomTargetPoint)
     (simp_all add: steady_def)

lemma steady_checkAndSetFollowBehavior:
  "preserves (onFish this (steady d t c0)) (checkAndSetFollowBehavior i)"
  unfolding checkAndSetFollowBehavior_def
  by (intro preserves_intros steady_unsetLeaderFollower steady_findLeader steady_followLeader)

lemma steady_standardBehavior:
  "preserves (onFish this (steady d t c0)) (standardBehavior i)"
  unfolding standardBehavior_def Let_def
  by (intro preserves_intros steady_setNewRandomTargetPoint)
     (auto simp add: steady_def mult_pos_pos)

lemma steady_chooseBehavior:
  "preserves (onFish this (steady d t c0)) (chooseBehavior i)"
  unfolding chooseBehavior_def
  by (intro preserves_intros steady_checkAndSetFoodBehavior steady_checkAndSetFollowBehavior
      steady_standardBehavior)

subsection \<open>Fish: rate of rotation\<close>

lemma rotateVector_zero: "rotateVector v 0 m = (v, v)"
  by (simp add: rotateVector_def Let_def)

lemma rotateVector_mutate_result:
  "snd (rotateVector v a True) = fst (rotateVector v a False)"
  by (simp add: rotateVector_def Let_def)

lemma limited_turn:
  fixes m d tm :: real
  assumes "0 \<le> m" and "0 \<le> tm"
  shows "\<bar>min m \<bar>d\<bar> * sgn d * tm\<bar> \<le> m * tm"
proof -
  have "\<bar>min m \<bar>d\<bar> * sgn d * tm\<bar> = \<bar>min m \<bar>d\<bar>\<bar> * \<bar>sgn d\<bar> * \<bar>tm\<bar>"
    by (simp add: abs_mult)
  also have "\<dots> = min m \<bar>d\<bar> * \<bar>sgn d\<bar> * tm"
    using assms by simp
  also have "\<dots> \<le> m * 1 * tm"
  proof (intro mult_mono)
    show "min m \<bar>d\<bar> \<le> m" by simp
    show "\<bar>sgn d\<bar> \<le> 1" by (simp add: abs_sgn_eq)
  qed (use assms in simp_all)
  finally show ?thesis by simp
qed

lemma smoothenDirectionChange_limited:
  assumes "lastUpdateTime (koiFish w this) \<le> clock w" and "0 \<le> turnMultiplier (koiFish w this)"
  shows "\<exists>\<theta>. \<bar>\<theta>\<bar> \<le> 18 * getElapsedSeconds (clock w) (lastUpdateTime (koiFish w this))
                        * turnMultiplier (koiFish w this)
           \<and> direction (koiFish (smoothenDirectionChange this w) this)
               = fst (rotateVector (direction (koiFish w this)) \<theta> False)"
    and "\<bar>desiredAngleChangeOf w this\<bar> \<le> 2 \<Longrightarrow> smoothenDirectionChange this w = w"
proof -
  let ?f = "koiFish w this"
  let ?s = "getElapsedSeconds (clock w) (lastUpdateTime ?f)"
  let ?d = "desiredAngleChangeOf w this"
  let ?final = "min (18 * ?s) \<bar>?d\<bar> * sgn ?d * turnMultiplier ?f"
  have s: "0 \<le> 18 * ?s" using assms(1) by (simp add: getElapsedSeconds_def)
  have bound: "\<bar>?final\<bar> \<le> 18 * ?s * turnMultiplier ?f"
    by (rule limited_turn [OF s assms(2)])
  show "\<bar>?d\<bar> \<le> 2 \<Longrightarrow> smoothenDirectionChange this w = w"
    by (simp add: smoothenDirectionChange_def desiredAngleChangeOf_def Let_def)
  show "\<exists>\<theta>. \<bar>\<theta>\<bar> \<le> 18 * ?s * turnMultiplier ?f
           \<and> direction (koiFish (smoothenDirectionChange this w) this)
               = fst (rotateVector (direction ?f) \<theta> False)"
  proof (cases "\<bar>?d\<bar> > 2")
    case True
    then have "direction (koiFish (smoothenDirectionChange this w) this)
                 = fst (rotateVector (direction ?f) ?final False)"
      by (simp add: smoothenDirectionChange_def desiredAngleChangeOf_def Let_def
          updateKoiFish_def maxRotationAnglePerSecond_def rotateVector_mutate_result)
    with bound show ?thesis by blast
  next
    case False
    then have "direction (koiFish (smoothenDirectionChange this w) this)
                 = fst (rotateVector (direction ?f) 0 False)"
      by (simp add: smoothenDirectionChange_def desiredAngleChangeOf_def Let_def
          rotateVector_zero)
    moreover have "\<bar>0::real\<bar> \<le> 18 * ?s * turnMultiplier ?f"
      using s assms(2) by simp
    ultimately show ?thesis by blast
  qed
qed

lemma update_inside:
  assumes "\<not> getDistanceToCanvasBorder (canvas w) (position (koiFish w this)) < canvasExitDistance"
  shows "update this w
           = (case chooseBehavior this (beginUpdate this w) of
                None \<Rightarrow> None
              | Some (Inl e, w1) \<Rightarrow> Some (Inl e, w1)
              | Some (Inr u, w1) \<Rightarrow>
                  Some (Inr (), finishUpdate this (smoothenDirectionChange this w1)))"
  using assms
  by (simp add: update_def bnd_def seq_def modify_def reads_def beginUpdate_def finishUpdate_def
      updateKoiFish_def Let_def split: option.splits sum.splits prod.splits)

lemma finishUpdate_direction:
  "direction (koiFish (finishUpdate this w) this) = direction (koiFish w this)"
  by (simp add: finishUpdate_def smoothenSpeedChange_def advancePosition_def
      updateFollowPoints_def updateKoiFish_def Let_def)

text \<open>
  C2. For an \<open>update\<close> of a fish that is not out of bounds and whose choice of behaviour
  returns (so that the call reaches the smoothing of the direction), with a clock that
  has not gone back since the last update: the call returns, the turn multiplier chosen
  is positive, the direction after the call is the direction before it rotated by an
  angle of at most 18 degrees times the elapsed seconds times the turn multiplier, and
  when the desired angle change to the target is 2 degrees or less in absolute value,
  the direction is not changed.
\<close>

theorem fish_rotation_rate_limited:
  assumes inside: "\<not> getDistanceToCanvasBorder (canvas w) (position (koiFish w this))
                      < canvasExitDistance"
    and reached: "chooseBehavior this (beginUpdate this w) = Some (Inr (), w1)"
    and time: "lastUpdateTime (koiFish w this) \<le> clock w"
  shows "\<exists>w' \<theta>. update this w = Some (Inr (), w')
           \<and> 0 < turnMultiplier (koiFish w1 this)
           \<and> \<bar>\<theta>\<bar> \<le> 18 * getElapsedSeconds (clock w) (lastUpdateTime (koiFish w this))
                        * turnMultiplier (koiFish w1 this)
           \<and> direction (koiFish w' this)
               = fst (rotateVector (direction (koiFish w this)) \<theta> False)
           \<and> (\<bar>desiredAngleChangeOf w1 this\<bar> \<le> 2
                \<longrightarrow> direction (koiFish w' this) = direction (koiFish w this))"
proof -
  let ?d = "direction (koiFish w this)" and ?t = "lastUpdateTime (koiFish w this)"
  have "onFish this (steady ?d ?t (clock w)) (beginUpdate this w)"
    by (simp add: onFish_def steady_def beginUpdate_def updateKoiFish_def)
  from preservesD [OF steady_chooseBehavior this reached]
  have w1: "0 < turnMultiplier (koiFish w1 this)" "direction (koiFish w1 this) = ?d"
    "lastUpdateTime (koiFish w1 this) = ?t" "clock w1 = clock w"
    by (simp_all add: onFish_def steady_def)
  define w' where "w' = finishUpdate this (smoothenDirectionChange this w1)"
  have run: "update this w = Some (Inr (), w')"
    by (simp add: update_inside [OF inside] reached w'_def)
  have dir: "direction (koiFish w' this) = direction (koiFish (smoothenDirectionChange this w1) this)"
    by (simp add: w'_def finishUpdate_direction)
  from w1 time have t1: "lastUpdateTime (koiFish w1 this) \<le> clock w1"
    and tm1: "0 \<le> turnMultiplier (koiFish w1 this)" by simp_all
  from smoothenDirectionChange_limited(1) [OF t1 tm1]
  obtain \<theta> where th: "\<bar>\<theta>\<bar> \<le> 18 * getElapsedSeconds (clock w) ?t * turnMultiplier (koiFish w1 this)"
    and rot: "direction (koiFish (smoothenDirectionChange this w1) this)
                = fst (rotateVector ?d \<theta> False)"
    by (auto simp add: w1)
  have dead: "\<bar>desiredAngleChangeOf w1 this\<bar> \<le> 2
                \<longrightarrow> direction (koiFish w' this) = ?d"
    using smoothenDirectionChange_limited(2) [OF t1 tm1] dir w1(2) by auto
  from run w1(1) th rot dir dead show ?thesis by auto
qed

subsection \<open>Fish: food seeking\<close>

lemma eatDesiredFood_result: "eatDesiredFood this w = Some (Inr (), afterEating this w)"
  by (simp add: eatDesiredFood_def afterEating_def foodDistance_def onEaten_def prog_defs
      split: option.splits)

lemma afterEating_frame:
  "canvas (afterEating this w) = canvas w"
  "locationMap (afterEating this w) = locationMap w"
  "points (afterEating this w) = points w"
  "clock (afterEating this w) = clock w"
  "Food.position (food (afterEating this w) g) = Food.position (food w g)"
  "position (koiFish (afterEating this w) a) = position (koiFish w a)"
  "leaderKoiFish (koiFish (afterEating this w) a) = leaderKoiFish (koiFish w a)"
  "leftFollower (koiFish (afterEating this w) a) = leftFollower (koiFish w a)"
  "rightFollower (koiFish (afterEating this w) a) = rightFollower (koiFish w a)"
  by (simp_all add: afterEating_def updateKoiFish_def updateFood_def split: option.splits)

lemma afterEating_isEaten:
  "isEaten (food w g) \<Longrightarrow> isEaten (food (afterEating this w) g)"
  by (simp add: afterEating_def updateKoiFish_def updateFood_def split: option.splits)

lemma afterEating_uneaten:
  assumes "\<not> isEaten (food w g)"
    and "\<not> (desiredFood (koiFish w this) = Some g \<and> (foodDistance w this g < 20 \<or> g \<notin> foodMap w))"
  shows "\<not> isEaten (food (afterEating this w) g)"
  using assms
  by (auto simp add: afterEating_def updateKoiFish_def updateFood_def split: option.splits)


lemma getNearbyObjects_result:
  "getNearbyObjects p i t r w
     = Some (Inr (nearbyRefs w i t (fst (getAdjacentIndices (getCellIndex (canvas w) p) r (canvas w)))),
             w\<lparr>canvas := snd (getAdjacentIndices (getCellIndex (canvas w) p) r (canvas w))\<rparr>)"
  by (simp add: getNearbyObjects_def nearbyRefs_def Let_def split: prod.splits)

lemma mem_nearbyRefs_food:
  "g \<in> set (nearbyRefs w i instanceofFood cells) \<longleftrightarrow>
     g \<noteq> i \<and> (\<exists>c\<in>set cells. \<exists>objs. locationMap w c = Some objs \<and> FoodObject g \<in> set objs)"
proof
  assume "g \<in> set (nearbyRefs w i instanceofFood cells)"
  then obtain c obj where c: "c \<in> set cells"
    and obj: "obj \<in> set (case locationMap w c of None \<Rightarrow> [] | Some objs \<Rightarrow> objs)"
    and t: "instanceofFood obj" "objectId obj \<noteq> i" and g: "g = objectId obj"
    by (auto simp add: nearbyRefs_def)
  from t(1) g have o: "obj = FoodObject g" by (cases obj) simp_all
  from obj obtain objs where l: "locationMap w c = Some objs" and m: "obj \<in> set objs"
    by (cases "locationMap w c") simp_all
  from t(2) g have gi: "g \<noteq> i" by simp
  from m o have "FoodObject g \<in> set objs" by simp
  with c l gi
  show "g \<noteq> i \<and> (\<exists>c\<in>set cells. \<exists>objs. locationMap w c = Some objs \<and> FoodObject g \<in> set objs)"
    by blast
next
  assume "g \<noteq> i \<and> (\<exists>c\<in>set cells. \<exists>objs. locationMap w c = Some objs \<and> FoodObject g \<in> set objs)"
  then obtain c objs where gi: "g \<noteq> i" and c: "c \<in> set cells"
    and l: "locationMap w c = Some objs" and m: "FoodObject g \<in> set objs" by blast
  have "FoodObject g \<in> set (filter (\<lambda>obj. instanceofFood obj \<and> objectId obj \<noteq> i)
          (case locationMap w c of None \<Rightarrow> [] | Some objs \<Rightarrow> objs))"
    using gi l m by simp
  then have "FoodObject g \<in> set (concat (map (\<lambda>adjacentIndex.
        filter (\<lambda>obj. instanceofFood obj \<and> objectId obj \<noteq> i)
          (case locationMap w adjacentIndex of None \<Rightarrow> [] | Some objs \<Rightarrow> objs)) cells))"
    using c by (simp only: set_concat set_map) blast
  then have "objectId (FoodObject g) \<in> set (nearbyRefs w i instanceofFood cells)"
    unfolding nearbyRefs_def by (simp only: set_map) (rule imageI)
  then show "g \<in> set (nearbyRefs w i instanceofFood cells)" by simp
qed

text \<open>The loop over the nearby food picks the strictly nearest uneaten food.\<close>

lemma closestFoodLoop_others:
  assumes "\<forall>g\<in>set l. \<not> isEaten (food w g) \<longrightarrow>
             d0 \<le> getDistanceTo p (points w (Food.position (food w g)))"
  shows "closestFoodLoop w p l (Some (g0, d0)) = Some (g0, d0)"
  using assms by (induction l) (auto simp add: Let_def)

lemma closestFoodLoop_nearest:
  assumes "g0 \<in> set l" and "\<not> isEaten (food w g0)"
    and "\<forall>g\<in>set l. g \<noteq> g0 \<longrightarrow> \<not> isEaten (food w g) \<longrightarrow>
             getDistanceTo p (points w (Food.position (food w g0)))
               < getDistanceTo p (points w (Food.position (food w g)))"
    and "case acc of None \<Rightarrow> True
         | Some (g, d) \<Rightarrow> getDistanceTo p (points w (Food.position (food w g0))) < d"
  shows "closestFoodLoop w p l acc
           = Some (g0, getDistanceTo p (points w (Food.position (food w g0))))"
  using assms
proof (induction l arbitrary: acc)
  case Nil
  then show ?case by simp
next
  case (Cons g l)
  let ?dist = "\<lambda>g. getDistanceTo p (points w (Food.position (food w g)))"
  show ?case
  proof (cases "g = g0")
    case True
    have rest: "closestFoodLoop w p l (Some (g0, ?dist g0)) = Some (g0, ?dist g0)"
    proof (rule closestFoodLoop_others, rule ballI, rule impI)
      fix g' assume g': "g' \<in> set l" "\<not> isEaten (food w g')"
      show "?dist g0 \<le> ?dist g'"
      proof (cases "g' = g0")
        case True
        then show ?thesis by simp
      next
        case False
        with Cons.prems(3) g' show ?thesis by fastforce
      qed
    qed
    have take: "(case acc of None \<Rightarrow> True | Some (closestFood, closestDistance) \<Rightarrow> ?dist g0 < closestDistance)"
      using Cons.prems(4) by (simp split: option.splits)
    from True Cons.prems(2) take rest show ?thesis by (simp add: Let_def)
  next
    case False
    with Cons.prems(1) have in_l: "g0 \<in> set l" by simp
    have others: "\<forall>g\<in>set l. g \<noteq> g0 \<longrightarrow> \<not> isEaten (food w g) \<longrightarrow> ?dist g0 < ?dist g"
      using Cons.prems(3) by simp
    show ?thesis
    proof (cases "isEaten (food w g)")
      case True
      then show ?thesis using Cons.IH [OF in_l Cons.prems(2) others Cons.prems(4)] by simp
    next
      case uneaten: False
      with False Cons.prems(3) have far: "?dist g0 < ?dist g" by simp
      then have acc': "case Some (g, ?dist g) of None \<Rightarrow> True | Some (g', d) \<Rightarrow> ?dist g0 < d"
        by simp
      show ?thesis
        using uneaten Cons.IH [OF in_l Cons.prems(2) others acc']
          Cons.IH [OF in_l Cons.prems(2) others Cons.prems(4)]
        by (simp add: Let_def)
    qed
  qed
qed

lemma unsetLeaderFollower_result:
  "unsetLeaderFollower leader this w
     = Some (Inr (), updateKoiFish this (\<lambda>f. f\<lparr>leaderKoiFish := None\<rparr>)
            (updateKoiFish leader (\<lambda>l.
               if leftFollower l = Some this
               then l\<lparr>leftFollower := None\<rparr>
               else l\<lparr>rightFollower := None\<rparr>) w))"
  by (simp add: unsetLeaderFollower_def prog_defs)

lemma keepsLinks_refl: "keepsLinks this w w"
  by (simp add: keepsLinks_def)

lemma keepsLinks_updateKoiFish:
  assumes "\<And>f. targetPoint (g f) = targetPoint f \<and> desiredFood (g f) = desiredFood f
            \<and> leaderKoiFish (g f) = leaderKoiFish f \<and> leftFollower (g f) = leftFollower f
            \<and> rightFollower (g f) = rightFollower f \<and> leftFollowPoint (g f) = leftFollowPoint f
            \<and> rightFollowPoint (g f) = rightFollowPoint f"
  shows "keepsLinks this w (updateKoiFish i g w)"
  using assms by (simp add: keepsLinks_def updateKoiFish_def)

lemma normalize_Inl:
  assumes "normalize v m = Inl e"
  shows "e = CannotNormalizeZeroVector" and "dx v = 0 \<and> dy v = 0"
proof -
  from assms have z: "sqrt (dx v * dx v + dy v * dy v) = 0" and e: "e = CannotNormalizeZeroVector"
    by (auto simp add: normalize_def Let_def split: if_splits)
  show "e = CannotNormalizeZeroVector" by (rule e)
  show "dx v = 0 \<and> dy v = 0"
  proof (rule ccontr)
    assume "\<not> (dx v = 0 \<and> dy v = 0)"
    then have "0 < sqrt (dx v * dx v + dy v * dy v)" using normalize_unit_aux by blast
    with z show False by simp
  qed
qed

lemma chaseFood_result:
  "\<exists>r w'. chaseFood this closestFood w = Some (r, w')
      \<and> keepsLinks this (afterTargeting this closestFood w) w'
      \<and> (r = Inr ()
           \<or> r = Inl CannotNormalizeZeroVector
             \<and> position (koiFish w this) = points w (Food.position (food w closestFood)))"
proof -
  let ?w1 = "afterTargeting this closestFood w"
  let ?v = "getVectorTo (position (koiFish ?w1 this)) (points ?w1 (targetPoint (koiFish ?w1 this)))"
  have first: "seq (bnd (reads (\<lambda>w. leaderKoiFish (koiFish w this))) (\<lambda>followed.
            case followed of
              Some leader \<Rightarrow> unsetLeaderFollower leader this
            | None \<Rightarrow> ret ())) k w = k (afterUnpairing this w)" for k :: "unit prog"
    by (simp add: seq_def bnd_def reads_def ret_def unsetLeaderFollower_result afterUnpairing_def
        split: option.splits)
  have food1: "food (afterUnpairing this w) = food w" "points (afterUnpairing this w) = points w"
    "position (koiFish (afterUnpairing this w) this) = position (koiFish w this)"
    by (simp_all add: afterUnpairing_def updateKoiFish_def split: option.splits)
  have second: "seq (modify (\<lambda>w. updateKoiFish this
                        (\<lambda>f. f\<lparr>desiredFood := Some closestFood,
                                targetPoint := Food.position (food w closestFood)\<rparr>) w)) k
                  (afterUnpairing this w) = k ?w1" for k :: "unit prog"
    by (simp add: seq_def bnd_def modify_def afterTargeting_def food1)
  have v: "?v = getVectorTo (position (koiFish w this)) (points w (Food.position (food w closestFood)))"
    by (simp add: afterTargeting_def updateKoiFish_def food1)
  show ?thesis
  proof (cases "normalize ?v False")
    case (Inl e)
    then have e: "e = CannotNormalizeZeroVector" and zero: "dx ?v = 0 \<and> dy ?v = 0"
      by (rule normalize_Inl)+
    from zero have same: "position (koiFish w this) = points w (Food.position (food w closestFood))"
      unfolding v by (simp add: getVectorTo_def Let_def)
    have "chaseFood this closestFood w = Some (Inl e, ?w1)"
      unfolding chaseFood_def first second
      by (simp add: bnd_def reads_def raise_def throw_def Inl)
    with e same show ?thesis by (auto simp add: keepsLinks_refl)
  next
    case (Inr res)
    obtain targetDirection rest where res: "res = (targetDirection, rest)" by (cases res)
    define g1 where "g1 = (\<lambda>f::KoiFish.
            if getMagnitude ?v < 50 \<and> \<bar>signedAngleBetween (direction (koiFish ?w1 this)) targetDirection\<bar> > 30
            then f\<lparr>speed := baseSpeed f * 0.5, turnMultiplier := 4\<rparr>
            else if \<bar>signedAngleBetween (direction (koiFish ?w1 this)) targetDirection\<bar> < 30
            then f\<lparr>speed := baseSpeed f * 5, turnMultiplier := 1\<rparr>
            else f\<lparr>speed := baseSpeed f * 4, turnMultiplier := 2\<rparr>)"
    define g2 where "g2 = (\<lambda>f::KoiFish.
            f\<lparr>tailAngleOscillator := setSpeedFactor (Num 2) (tailAngleOscillator f),
              finAngleOscillator := setSpeedFactor (Num 2) (finAngleOscillator f)\<rparr>)"
    have run: "chaseFood this closestFood w
                 = Some (Inr (), updateKoiFish this g2 (updateKoiFish this g1 ?w1))"
      unfolding chaseFood_def first second
      by (simp add: seq_def bnd_def reads_def modify_def raise_def ret_def Inr res
          g1_def g2_def)
    have k1: "keepsLinks this ?w1 (updateKoiFish this g1 ?w1)"
      by (rule keepsLinks_updateKoiFish) (simp add: g1_def)
    have k2: "keepsLinks this (updateKoiFish this g1 ?w1) (updateKoiFish this g2 (updateKoiFish this g1 ?w1))"
      by (rule keepsLinks_updateKoiFish) (simp add: g2_def)
    from k1 k2 have "keepsLinks this ?w1 (updateKoiFish this g2 (updateKoiFish this g1 ?w1))"
      by (simp add: keepsLinks_def)
    with run show ?thesis by blast
  qed
qed

lemma afterTargeting_fields:
  "targetPoint (koiFish (afterTargeting this g w) this) = Food.position (food w g)"
  "desiredFood (koiFish (afterTargeting this g w) this) = Some g"
  "leaderKoiFish (koiFish (afterTargeting this g w) this) = None"
  "food (afterTargeting this g w) = food w"
  by (simp_all add: afterTargeting_def afterUnpairing_def updateKoiFish_def split: option.splits)

lemma afterTargeting_slots:
  assumes "leaderKoiFish (koiFish w this) = Some a" and "a \<noteq> this"
    and "(leftFollower (koiFish w a) = Some this) \<noteq> (rightFollower (koiFish w a) = Some this)"
  shows "leftFollower (koiFish (afterTargeting this g w) a) \<noteq> Some this"
    and "rightFollower (koiFish (afterTargeting this g w) a) \<noteq> Some this"
  using assms by (auto simp add: afterTargeting_def afterUnpairing_def updateKoiFish_def)

lemma closestFoodLoop_cong:
  assumes "food w' = food w" and "points w' = points w"
  shows "closestFoodLoop w' p l acc = closestFoodLoop w p l acc"
  using assms by (induction l arbitrary: acc) (simp_all add: Let_def)

lemma checkAndSetFoodBehavior_chases:
  assumes "closestFoodLoop (afterEating this w) (position (koiFish w this))
             (nearbyRefs w this instanceofFood
                (fst (getAdjacentIndices (getCellIndex (canvas w) (position (koiFish w this))) 5
                        (canvas w))))
             None = Some (g, d)"
  shows "checkAndSetFoodBehavior this w = chaseFood this g (afterLooking this w)"
proof -
  let ?w2 = "afterEating this w"
  have nb: "nearbyRefs ?w2 this instanceofFood cells = nearbyRefs w this instanceofFood cells" for cells
    by (simp add: nearbyRefs_def afterEating_frame)
  have cl: "closestFoodLoop (afterLooking this w) p l acc = closestFoodLoop ?w2 p l acc" for p l acc
    by (rule closestFoodLoop_cong) (simp_all add: afterLooking_def)
  show ?thesis
    unfolding checkAndSetFoodBehavior_def
    by (simp add: seq_def bnd_def reads_def eatDesiredFood_result getNearbyObjects_result
        afterEating_frame nb afterLooking_def [symmetric] cl assms)
qed

lemma afterLooking_frame:
  "food (afterLooking this w) = food (afterEating this w)"
  "points (afterLooking this w) = points w"
  "position (koiFish (afterLooking this w) a) = position (koiFish w a)"
  "leaderKoiFish (koiFish (afterLooking this w) a) = leaderKoiFish (koiFish w a)"
  "leftFollower (koiFish (afterLooking this w) a) = leftFollower (koiFish w a)"
  "rightFollower (koiFish (afterLooking this w) a) = rightFollower (koiFish w a)"
  by (simp_all add: afterLooking_def afterEating_frame)


lemma beginUpdate_frame:
  "canvas (beginUpdate this w) = canvas w"
  "locationMap (beginUpdate this w) = locationMap w"
  "points (beginUpdate this w) = points w"
  "food (beginUpdate this w) = food w"
  "foodMap (beginUpdate this w) = foodMap w"
  "position (koiFish (beginUpdate this w) a) = position (koiFish w a)"
  "desiredFood (koiFish (beginUpdate this w) a) = desiredFood (koiFish w a)"
  "leaderKoiFish (koiFish (beginUpdate this w) a) = leaderKoiFish (koiFish w a)"
  "leftFollower (koiFish (beginUpdate this w) a) = leftFollower (koiFish w a)"
  "rightFollower (koiFish (beginUpdate this w) a) = rightFollower (koiFish w a)"
  by (simp_all add: beginUpdate_def updateKoiFish_def)

lemma beginUpdate_hypotheses:
  "nearestRegisteredFood (beginUpdate this w) this g = nearestRegisteredFood w this g"
  "neighboursNotStale (beginUpdate this w) this = neighboursNotStale w this"
  "eatsNow (beginUpdate this w) this g = eatsNow w this g"
  "inOneSlotOfLeader (beginUpdate this w) this = inOneSlotOfLeader w this"
  "foodDistance (beginUpdate this w) this g = foodDistance w this g"
  by (simp_all add: nearestRegisteredFood_def neighboursNotStale_def eatsNow_def
      inOneSlotOfLeader_def foodDistance_def beginUpdate_frame split: option.splits)

lemma mem_cellsAround:
  "j \<in> cellsAround st p r \<longleftrightarrow>
     0 \<le> j \<and> j \<le> numCellsX st * numCellsY st - 1
     \<and> \<bar>j mod numCellsX st - \<lfloor>x p / cellSize\<rfloor>\<bar> \<le> r
     \<and> \<bar>j div numCellsX st - \<lfloor>y p / cellSize\<rfloor>\<bar> \<le> r"
  by (auto simp add: cellsAround_def)

text \<open>
  For a point in a column of the grid, the index that \<open>getCellIndex\<close> returns has the
  column and the row of the point, so that the neighbourhood of the index is the
  neighbourhood of the cell of the point; for a point that is not below the grid, the
  index is not negative.
\<close>

lemma cellsAround_index:
  assumes "0 \<le> \<lfloor>x p / cellSize\<rfloor>" and "\<lfloor>x p / cellSize\<rfloor> < numCellsX st"
  shows "cellsAround st p r = chebyshevNeighbours st (getCellIndex st p) r"
  using assms
  by (simp add: cellsAround_def chebyshevNeighbours_def getCellIndex_def Let_def cell_decomp)

lemma getCellIndex_nonneg:
  assumes "0 \<le> \<lfloor>x p / cellSize\<rfloor>" and "\<lfloor>x p / cellSize\<rfloor> < numCellsX st"
    and "0 \<le> \<lfloor>y p / cellSize\<rfloor>"
  shows "0 \<le> getCellIndex st p"
proof -
  from assms(1,2) have "0 \<le> numCellsX st" by linarith
  with assms(3) have "0 \<le> \<lfloor>y p / cellSize\<rfloor> * numCellsX st" by (rule mult_nonneg_nonneg)
  with assms(1) show ?thesis unfolding getCellIndex_def Let_def by linarith
qed

lemma nearest_found:
  assumes column: "0 \<le> \<lfloor>x (position (koiFish w this)) / cellSize\<rfloor>"
      "\<lfloor>x (position (koiFish w this)) / cellSize\<rfloor> < numCellsX (canvas w)"
    and row: "0 \<le> \<lfloor>y (position (koiFish w this)) / cellSize\<rfloor>"
    and near: "nearestRegisteredFood w this g" and fresh: "neighboursNotStale w this"
    and pursued: "\<not> eatsNow w this g"
  shows "closestFoodLoop (afterEating this w) (position (koiFish w this))
             (nearbyRefs w this instanceofFood
                (fst (getAdjacentIndices (getCellIndex (canvas w) (position (koiFish w this))) 5
                        (canvas w))))
             None = Some (g, foodDistance w this g)"
proof -
  let ?cell = "getCellIndex (canvas w) (position (koiFish w this))"
  let ?adj = "fst (getAdjacentIndices ?cell 5 (canvas w))"
  let ?l = "nearbyRefs w this instanceofFood ?adj"
  let ?w2 = "afterEating this w"
  let ?p = "position (koiFish w this)"
  from column have nx: "0 < numCellsX (canvas w)" by linarith
  have cell: "0 \<le> ?cell" by (rule getCellIndex_nonneg [OF column row])
  from fresh have c: "cache (canvas w) [?cell, 5] = None
            \<or> cache (canvas w) [?cell, 5] = Some (adjacentIndicesFn (canvas w) ?cell 5)"
    by (simp add: neighboursNotStale_def Let_def)
  from c have "?adj = adjacentIndicesFn (canvas w) ?cell 5"
    by (auto simp add: getAdjacentIndices_result)
  then have adj: "set ?adj = cellsAround (canvas w) ?p 5"
    by (simp add: adjacentIndicesFn_exact [OF nx cell] cellsAround_index [OF column])
  from near have ids: "g \<noteq> this" and uneaten: "\<not> isEaten (food w g)"
    and reg: "\<exists>c\<in>set ?adj. \<exists>objs. locationMap w c = Some objs \<and> FoodObject g \<in> set objs"
    and others: "\<And>c objs other. c \<in> set ?adj \<Longrightarrow> locationMap w c = Some objs \<Longrightarrow>
               FoodObject other \<in> set objs \<Longrightarrow> other \<noteq> g \<Longrightarrow> other \<noteq> this \<Longrightarrow>
               \<not> isEaten (food w other) \<Longrightarrow> foodDistance w this g < foodDistance w this other"
    unfolding nearestRegisteredFood_def Let_def adj [symmetric] by blast+
  have dist: "getDistanceTo ?p (points ?w2 (Food.position (food ?w2 h))) = foodDistance w this h" for h
    by (simp add: foodDistance_def afterEating_frame)
  have in_l: "g \<in> set ?l"
    using ids reg by (simp add: mem_nearbyRefs_food)
  have un2: "\<not> isEaten (food ?w2 g)"
    using uneaten pursued by (intro afterEating_uneaten) (simp_all add: eatsNow_def)
  have far: "\<forall>h\<in>set ?l. h \<noteq> g \<longrightarrow> \<not> isEaten (food ?w2 h) \<longrightarrow>
               getDistanceTo ?p (points ?w2 (Food.position (food ?w2 g)))
                 < getDistanceTo ?p (points ?w2 (Food.position (food ?w2 h)))"
  proof (intro ballI impI)
    fix h assume h: "h \<in> set ?l" "h \<noteq> g" "\<not> isEaten (food ?w2 h)"
    from h(1) obtain c objs where "h \<noteq> this" "c \<in> set ?adj" "locationMap w c = Some objs"
      "FoodObject h \<in> set objs"
      unfolding mem_nearbyRefs_food by blast
    moreover from h(3) have "\<not> isEaten (food w h)" using afterEating_isEaten by blast
    ultimately have "foodDistance w this g < foodDistance w this h"
      using others h(2) by blast
    then show "getDistanceTo ?p (points ?w2 (Food.position (food ?w2 g)))
                 < getDistanceTo ?p (points ?w2 (Food.position (food ?w2 h)))"
      by (simp only: dist)
  qed
  have "closestFoodLoop ?w2 ?p ?l None
          = Some (g, getDistanceTo ?p (points ?w2 (Food.position (food ?w2 g))))"
    by (rule closestFoodLoop_nearest [OF in_l un2 far]) simp
  then show ?thesis by (simp only: dist)
qed

lemma keepsLinks_trans: "keepsLinks this a b \<Longrightarrow> keepsLinks this b c \<Longrightarrow> keepsLinks this a c"
  by (simp add: keepsLinks_def)

lemma keepsLinks_motion:
  "keepsLinks this w (finishUpdate this (smoothenDirectionChange this w))"
  by (simp add: keepsLinks_def finishUpdate_def smoothenDirectionChange_def
      smoothenSpeedChange_def advancePosition_def updateFollowPoints_def updateKoiFish_def Let_def)

lemma chooseBehavior_chases:
  assumes column: "0 \<le> \<lfloor>x (position (koiFish w this)) / cellSize\<rfloor>"
      "\<lfloor>x (position (koiFish w this)) / cellSize\<rfloor> < numCellsX (canvas w)"
    and row: "0 \<le> \<lfloor>y (position (koiFish w this)) / cellSize\<rfloor>"
    and near: "nearestRegisteredFood w this g" and fresh: "neighboursNotStale w this"
    and pursued: "\<not> eatsNow w this g"
  shows "\<exists>r w'. chooseBehavior this w = Some (r, w')
      \<and> keepsLinks this (afterTargeting this g (afterLooking this w)) w'
      \<and> (r = Inr ()
           \<or> r = Inl CannotNormalizeZeroVector
             \<and> position (koiFish w this) = points w (Food.position (food w g)))"
proof -
  let ?w3 = "afterLooking this w"
  have food_is: "checkAndSetFoodBehavior this w = chaseFood this g ?w3"
    by (rule checkAndSetFoodBehavior_chases) (rule nearest_found [OF column row near fresh pursued])
  from chaseFood_result [of this g ?w3]
  obtain r w' where run: "chaseFood this g ?w3 = Some (r, w')"
    and links: "keepsLinks this (afterTargeting this g ?w3) w'"
    and r: "r = Inr () \<or> r = Inl CannotNormalizeZeroVector
             \<and> position (koiFish ?w3 this) = points ?w3 (Food.position (food ?w3 g))"
    by blast
  from links have desired: "desiredFood (koiFish w' this) = Some g"
    by (simp add: keepsLinks_def afterTargeting_fields)
  have r': "r = Inr () \<or> r = Inl CannotNormalizeZeroVector
             \<and> position (koiFish w this) = points w (Food.position (food w g))"
    using r by (simp add: afterLooking_frame afterEating_frame)
  have "chooseBehavior this w = Some (r, w')"
  proof (cases r)
    case (Inl e)
    then show ?thesis
      by (simp add: chooseBehavior_def seq_def bnd_def food_is run)
  next
    case (Inr u)
    then show ?thesis
      by (simp add: chooseBehavior_def seq_def bnd_def reads_def ret_def food_is run desired)
  qed
  with links r' show ?thesis by blast
qed

text \<open>
  C4 (amended). Let a fish be not out of bounds (signed distance to the border at least
  -20), in a column of the grid and not below it (\<open>0 \<le> floor (x / 50) < numCellsX\<close> and
  \<open>0 \<le> floor (y / 50)\<close>), and, if it has a leader, another fish than its leader and in
  exactly one of the two follower slots of the leader. Let an uneaten food be registered
  in the location map in a cell within the range-5 Chebyshev neighbourhood of the cell
  of the fish and be strictly nearer to the fish than every other uneaten food
  registered there. Let the cache of \<open>getAdjacentIndices\<close> hold no list of another grid
  for the cell index of the fish and range 5, and let the food not be the desired food
  that this call eats (closer than 20, or gone from the food map). Then one \<open>update\<close>
  ends with the target point of the fish being the position object of that food, the
  food its desired food, and the fish without leader and in neither follower slot of
  its former leader. The call returns, unless the fish is exactly at the food, where
  \<open>normalize\<close> throws after the target has been set.
\<close>

theorem fish_targets_nearest_food:
  assumes inside: "\<not> getDistanceToCanvasBorder (canvas w) (position (koiFish w this))
                      < canvasExitDistance"
    and column: "0 \<le> \<lfloor>x (position (koiFish w this)) / cellSize\<rfloor>"
      "\<lfloor>x (position (koiFish w this)) / cellSize\<rfloor> < numCellsX (canvas w)"
    and row: "0 \<le> \<lfloor>y (position (koiFish w this)) / cellSize\<rfloor>"
    and near: "nearestRegisteredFood w this g"
    and fresh: "neighboursNotStale w this"
    and pursued: "\<not> eatsNow w this g"
    and paired: "inOneSlotOfLeader w this"
  shows "\<exists>r w'. update this w = Some (r, w')
           \<and> (r = Inr ()
                \<or> r = Inl CannotNormalizeZeroVector
                  \<and> position (koiFish w this) = points w (Food.position (food w g)))
           \<and> targetPoint (koiFish w' this) = Food.position (food w' g)
           \<and> Food.position (food w' g) = Food.position (food w g)
           \<and> desiredFood (koiFish w' this) = Some g
           \<and> leaderKoiFish (koiFish w' this) = None
           \<and> (\<forall>a. leaderKoiFish (koiFish w this) = Some a \<longrightarrow>
                  leftFollower (koiFish w' a) \<noteq> Some this
                  \<and> rightFollower (koiFish w' a) \<noteq> Some this)"
proof -
  let ?w0 = "beginUpdate this w"
  let ?w3 = "afterLooking this ?w0"
  let ?w4 = "afterTargeting this g ?w3"
  from chooseBehavior_chases [of ?w0 this g] column row near fresh pursued
  obtain r w1 where choose: "chooseBehavior this ?w0 = Some (r, w1)"
    and links: "keepsLinks this ?w4 w1"
    and r: "r = Inr () \<or> r = Inl CannotNormalizeZeroVector
             \<and> position (koiFish w this) = points w (Food.position (food w g))"
    by (auto simp add: beginUpdate_hypotheses beginUpdate_frame)
  define w' where "w' = (case r of Inl e \<Rightarrow> w1 | Inr u \<Rightarrow> finishUpdate this (smoothenDirectionChange this w1))"
  have run: "update this w = Some (r, w')"
    using choose r by (cases r) (auto simp add: update_inside [OF inside] w'_def)
  have "keepsLinks this w1 w'"
    by (cases r) (simp_all add: w'_def keepsLinks_refl keepsLinks_motion)
  with links have all: "keepsLinks this ?w4 w'" by (rule keepsLinks_trans)
  have pos: "Food.position (food ?w4 g) = Food.position (food w g)"
    by (simp add: afterTargeting_fields afterLooking_frame afterEating_frame beginUpdate_frame)
  from all have tp: "targetPoint (koiFish w' this) = Food.position (food w' g)"
    and fp: "Food.position (food w' g) = Food.position (food w g)"
    and df: "desiredFood (koiFish w' this) = Some g"
    and ld: "leaderKoiFish (koiFish w' this) = None"
    using pos by (simp_all add: keepsLinks_def afterTargeting_fields)
  have slots: "leftFollower (koiFish w' a) \<noteq> Some this \<and> rightFollower (koiFish w' a) \<noteq> Some this"
    if a: "leaderKoiFish (koiFish w this) = Some a" for a
  proof -
    from paired a have "a \<noteq> this"
      and one: "(leftFollower (koiFish w a) = Some this) \<noteq> (rightFollower (koiFish w a) = Some this)"
      by (simp_all add: inOneSlotOfLeader_def)
    have "leftFollower (koiFish ?w4 a) \<noteq> Some this" "rightFollower (koiFish ?w4 a) \<noteq> Some this"
      by (rule afterTargeting_slots; simp add: afterLooking_frame beginUpdate_frame a \<open>a \<noteq> this\<close> one)+
    with all show ?thesis by (simp add: keepsLinks_def)
  qed
  from run r tp fp df ld slots show ?thesis by blast
qed

subsection \<open>The example fish, one frame\<close>

lemma getAdjacentIndices_dims:
  "canvas_width (snd (getAdjacentIndices i r c)) = canvas_width c"
  "canvas_height (snd (getAdjacentIndices i r c)) = canvas_height c"
  "canvasDiagonalLength (snd (getAdjacentIndices i r c)) = canvasDiagonalLength c"
  "numCellsX (snd (getAdjacentIndices i r c)) = numCellsX c"
  "numCellsY (snd (getAdjacentIndices i r c)) = numCellsY c"
  by (simp_all add: getAdjacentIndices_def Let_def split: option.splits)

lemma closestFoodLoop_all_eaten:
  assumes "\<forall>g\<in>set l. isEaten (food w g)"
  shows "closestFoodLoop w p l acc = acc"
  using assms by (induction l) simp_all

lemma checkAndSetFoodBehavior_idle:
  assumes "closestFoodLoop (afterEating this w) (position (koiFish w this))
             (nearbyRefs w this instanceofFood
                (fst (getAdjacentIndices (getCellIndex (canvas w) (position (koiFish w this))) 5
                        (canvas w))))
             None = None"
  shows "checkAndSetFoodBehavior this w = Some (Inr (), relaxed this (afterLooking this w))"
proof -
  let ?w2 = "afterEating this w"
  have nb: "nearbyRefs ?w2 this instanceofFood cells = nearbyRefs w this instanceofFood cells" for cells
    by (simp add: nearbyRefs_def afterEating_frame)
  have cl: "closestFoodLoop (afterLooking this w) p l acc = closestFoodLoop ?w2 p l acc" for p l acc
    by (rule closestFoodLoop_cong) (simp_all add: afterLooking_def)
  show ?thesis
    unfolding checkAndSetFoodBehavior_def
    by (simp add: seq_def bnd_def reads_def modify_def eatDesiredFood_result
        getNearbyObjects_result afterEating_frame nb afterLooking_def [symmetric] cl assms
        relaxed_def)
qed

lemma checkAndSetFollowBehavior_alone:
  assumes "desiredFood (koiFish w this) = None" and "leaderKoiFish (koiFish w this) = None"
    and "filter (isPotentialLeader (afterLookingForLeader this w) (koiFish w this))
           (nearbyRefs w this instanceofKoiFish
              (fst (getAdjacentIndices (getCellIndex (canvas w) (position (koiFish w this))) 1
                      (canvas w)))) = []"
  shows "checkAndSetFollowBehavior this w = Some (Inr (), afterLookingForLeader this w)"
  using assms
  by (simp add: checkAndSetFollowBehavior_def findLeader_def bnd_def reads_def ret_def
      getNearbyObjects_result afterLookingForLeader_def)

lemma nearbyRefs_nothing:
  assumes "\<forall>c\<in>set cells. \<forall>objs. locationMap w c = Some objs \<longrightarrow>
             (\<forall>obj\<in>set objs. \<not> (isTarget obj \<and> objectId obj \<noteq> i))"
  shows "nearbyRefs w i isTarget cells = []"
proof -
  have "filter (\<lambda>obj. isTarget obj \<and> objectId obj \<noteq> i)
          (case locationMap w c of None \<Rightarrow> [] | Some objs \<Rightarrow> objs) = []"
    if "c \<in> set cells" for c
  proof (cases "locationMap w c")
    case None
    then show ?thesis by simp
  next
    case (Some objs)
    with assms that have "\<forall>obj\<in>set objs. \<not> (isTarget obj \<and> objectId obj \<noteq> i)" by blast
    with Some show ?thesis by (simp add: filter_empty_conv)
  qed
  then show ?thesis by (simp add: nearbyRefs_def)
qed

lemma sqrt_square_400: "sqrt (400 * 400) = (400::real)"
  by (simp only: real_sqrt_abs2 abs_numeral)

lemma example_fish_idle:
  fixes s :: "real stream"
  defines "w0 \<equiv> beginUpdate ''koi-1'' (exampleWorld s)"
  defines "v2 \<equiv> afterLookingForLeader ''koi-1'' (relaxed ''koi-1'' (afterLooking ''koi-1'' w0))"
  shows "checkAndSetFoodBehavior ''koi-1'' w0 = Some (Inr (), relaxed ''koi-1'' (afterLooking ''koi-1'' w0))"
    and "checkAndSetFollowBehavior ''koi-1'' (relaxed ''koi-1'' (afterLooking ''koi-1'' w0)) = Some (Inr (), v2)"
    and "koiFish (relaxed ''koi-1'' (afterLooking ''koi-1'' w0)) ''koi-1'' = exampleFish"
    and "koiFish v2 ''koi-1'' = exampleFish"
    and "points v2 = points (exampleWorld s)"
    and "canvasDiagonalLength (canvas v2) = 1000"
    and "clock v2 = 1000"
proof -
  let ?v1 = "relaxed ''koi-1'' (afterLooking ''koi-1'' w0)"
  have lm: "locationMap w0 = Map.empty"
    by (simp add: w0_def beginUpdate_frame exampleWorld_def)
  have nb5: "nearbyRefs w0 ''koi-1'' t cells = []" for t cells
    by (rule nearbyRefs_nothing) (simp add: lm)
  show food: "checkAndSetFoodBehavior ''koi-1'' w0 = Some (Inr (), ?v1)"
    by (rule checkAndSetFoodBehavior_idle) (simp add: nb5)
  have f0: "koiFish w0 ''koi-1'' = exampleFish"
    by (simp add: w0_def beginUpdate_def updateKoiFish_def exampleWorld_def exampleFish_def)
  show f1: "koiFish ?v1 ''koi-1'' = exampleFish"
    by (simp add: relaxed_def afterLooking_def afterEating_def updateKoiFish_def f0
        exampleFish_def setSpeedFactor_def Oscillator_new_def Let_def)
  have lm1: "locationMap ?v1 = Map.empty"
    by (simp add: relaxed_def afterLooking_def afterEating_frame updateKoiFish_def lm)
  have nb1: "nearbyRefs ?v1 ''koi-1'' t cells = []" for t cells
    by (rule nearbyRefs_nothing) (simp add: lm1)
  show "checkAndSetFollowBehavior ''koi-1'' ?v1 = Some (Inr (), v2)"
    unfolding v2_def
    by (rule checkAndSetFollowBehavior_alone) (simp_all add: f1 nb1 exampleFish_def)
  show "koiFish v2 ''koi-1'' = exampleFish"
    by (simp add: v2_def afterLookingForLeader_def f1)
  show "points v2 = points (exampleWorld s)"
    by (simp add: v2_def afterLookingForLeader_def relaxed_def afterLooking_frame
        updateKoiFish_def w0_def beginUpdate_frame)
  show "canvasDiagonalLength (canvas v2) = 1000"
    by (simp add: v2_def afterLookingForLeader_def relaxed_def afterLooking_def
        afterEating_frame updateKoiFish_def w0_def beginUpdate_frame getAdjacentIndices_dims
        exampleWorld_def CanvasUtil_loaded_def setupCanvas_def)
  show "clock v2 = 1000"
    by (simp add: v2_def afterLookingForLeader_def relaxed_def afterLooking_def
        afterEating_frame updateKoiFish_def w0_def beginUpdate_def exampleWorld_def)
qed

lemma example_fish_standard:
  assumes "koiFish v ''koi-1'' = exampleFish" and "points v 0 = \<lparr>x = 300, y = 500\<rparr>"
    and "canvasDiagonalLength (canvas v) = 1000"
  shows "standardBehavior ''koi-1'' v
           = Some (Inr (),
               updateKoiFish ''koi-1'' (\<lambda>f. f\<lparr>turnMultiplier := turnMultiplier f * 0.3\<rparr>)
                 (updateKoiFish ''koi-1'' (\<lambda>f. f\<lparr>turnMultiplier := turnMultiplier f * 0.6\<rparr>) v))"
  using assms
  by (simp add: standardBehavior_def prog_defs getVectorTo_def getMagnitude_def normalize_def
      signedAngleBetween_def atan2_def Let_def exampleFish_def updateKoiFish_def
      sqrt_square_400)

text \<open>
  C2 at a concrete input: the example fish at (300, 100) heading up, with its target
  straight ahead at (300, 500), no food and no other fish registered, one second after
  its last update. The behaviours return with turn multiplier 9/50, the rotation is at
  most 18 * 1 * 9/50 degrees, and as the desired turn is 0 degrees the heading stays
  as it was.
\<close>

theorem fish_rotation_rate_limited_witness:
  "\<not> getDistanceToCanvasBorder (canvas (exampleWorld (sconst 0)))
        (position (koiFish (exampleWorld (sconst 0)) ''koi-1'')) < canvasExitDistance
   \<and> lastUpdateTime (koiFish (exampleWorld (sconst 0)) ''koi-1'') \<le> clock (exampleWorld (sconst 0))
   \<and> getElapsedSeconds (clock (exampleWorld (sconst 0)))
         (lastUpdateTime (koiFish (exampleWorld (sconst 0)) ''koi-1'')) = 1
   \<and> (\<exists>w1 w' \<theta>.
          chooseBehavior ''koi-1'' (beginUpdate ''koi-1'' (exampleWorld (sconst 0))) = Some (Inr (), w1)
          \<and> update ''koi-1'' (exampleWorld (sconst 0)) = Some (Inr (), w')
          \<and> turnMultiplier (koiFish w1 ''koi-1'') = 9 / 50
          \<and> \<bar>\<theta>\<bar> \<le> 18 * 1 * (9 / 50)
          \<and> direction (koiFish w' ''koi-1'') = fst (rotateVector \<lparr>dx = 0, dy = 1\<rparr> \<theta> False)
          \<and> direction (koiFish w' ''koi-1'') = \<lparr>dx = 0, dy = 1\<rparr>)"
proof -
  let ?W = "exampleWorld (sconst 0)"
  let ?w0 = "beginUpdate ''koi-1'' ?W"
  let ?v1 = "relaxed ''koi-1'' (afterLooking ''koi-1'' ?w0)"
  let ?v2 = "afterLookingForLeader ''koi-1'' ?v1"
  define w1 where "w1 = updateKoiFish ''koi-1'' (\<lambda>f. f\<lparr>turnMultiplier := turnMultiplier f * 0.3\<rparr>)
                 (updateKoiFish ''koi-1'' (\<lambda>f. f\<lparr>turnMultiplier := turnMultiplier f * 0.6\<rparr>) ?v2)"
  note idle = example_fish_idle [of "sconst 0"]
  have p0: "points ?v2 0 = \<lparr>x = 300, y = 500\<rparr>"
    unfolding idle(5) by (simp add: exampleWorld_def)
  have standard: "standardBehavior ''koi-1'' ?v2 = Some (Inr (), w1)"
    unfolding w1_def by (rule example_fish_standard [OF idle(4) p0 idle(6)])
  have reached: "chooseBehavior ''koi-1'' ?w0 = Some (Inr (), w1)"
    by (simp add: chooseBehavior_def seq_def bnd_def reads_def ret_def idle(1) idle(2) idle(3)
        idle(4) standard exampleFish_def)
  have fishW: "koiFish ?W ''koi-1'' = exampleFish" and clockW: "clock ?W = 1000"
    by (simp_all add: exampleWorld_def)
  have inside: "\<not> getDistanceToCanvasBorder (canvas ?W) (position (koiFish ?W ''koi-1''))
                    < canvasExitDistance"
    by (simp add: getDistanceToCanvasBorder_def exampleWorld_canvas fishW exampleFish_def
        canvasExitDistance_def Let_def)
  have time: "lastUpdateTime (koiFish ?W ''koi-1'') \<le> clock ?W"
    by (simp add: fishW clockW exampleFish_def)
  have elapsed: "getElapsedSeconds (clock ?W) (lastUpdateTime (koiFish ?W ''koi-1'')) = 1"
    by (simp add: fishW clockW exampleFish_def getElapsedSeconds_def)
  have tm: "turnMultiplier (koiFish w1 ''koi-1'') = 9 / 50"
    by (simp add: w1_def updateKoiFish_def idle(4) exampleFish_def)
  have f1: "position (koiFish w1 ''koi-1'') = \<lparr>x = 300, y = 100\<rparr>"
    "direction (koiFish w1 ''koi-1'') = \<lparr>dx = 0, dy = 1\<rparr>"
    "points w1 (targetPoint (koiFish w1 ''koi-1'')) = \<lparr>x = 300, y = 500\<rparr>"
    by (simp_all add: w1_def updateKoiFish_def idle(4) exampleFish_def p0)
  have dead: "\<bar>desiredAngleChangeOf w1 ''koi-1''\<bar> \<le> 2"
    by (simp add: desiredAngleChangeOf_def f1 signedAngleBetween_def atan2_def getVectorTo_def
        Let_def)
  from fish_rotation_rate_limited [OF inside reached time]
  obtain w' \<theta> where u: "update ''koi-1'' ?W = Some (Inr (), w')"
    and bound: "\<bar>\<theta>\<bar> \<le> 18 * getElapsedSeconds (clock ?W) (lastUpdateTime (koiFish ?W ''koi-1''))
                    * turnMultiplier (koiFish w1 ''koi-1'')"
    and rot: "direction (koiFish w' ''koi-1'')
              = fst (rotateVector (direction (koiFish ?W ''koi-1'')) \<theta> False)"
    and still: "\<bar>desiredAngleChangeOf w1 ''koi-1''\<bar> \<le> 2
              \<longrightarrow> direction (koiFish w' ''koi-1'') = direction (koiFish ?W ''koi-1'')"
    by blast
  have dirW: "direction (koiFish ?W ''koi-1'') = \<lparr>dx = 0, dy = 1\<rparr>"
    unfolding fishW by (simp add: exampleFish_def)
  from bound have b: "\<bar>\<theta>\<bar> \<le> 18 * 1 * (9 / 50)"
    unfolding elapsed tm .
  from rot have r: "direction (koiFish w' ''koi-1'') = fst (rotateVector \<lparr>dx = 0, dy = 1\<rparr> \<theta> False)"
    unfolding dirW .
  from still dead have d: "direction (koiFish w' ''koi-1'') = \<lparr>dx = 0, dy = 1\<rparr>"
    unfolding dirW by blast
  from u b r d
  have "\<exists>w1 w' \<theta>.
          chooseBehavior ''koi-1'' (beginUpdate ''koi-1'' (exampleWorld (sconst 0))) = Some (Inr (), w1)
          \<and> update ''koi-1'' (exampleWorld (sconst 0)) = Some (Inr (), w')
          \<and> turnMultiplier (koiFish w1 ''koi-1'') = 9 / 50
          \<and> \<bar>\<theta>\<bar> \<le> 18 * 1 * (9 / 50)
          \<and> direction (koiFish w' ''koi-1'') = fst (rotateVector \<lparr>dx = 0, dy = 1\<rparr> \<theta> False)
          \<and> direction (koiFish w' ''koi-1'') = \<lparr>dx = 0, dy = 1\<rparr>"
    using reached tm by blast
  with inside time elapsed show ?thesis by blast
qed

subsection \<open>Food seeking on the example world\<close>

lemma foodWorld_facts:
  "koiFish foodWorld ''koi-1'' = exampleFish"
  "food foodWorld g = exampleFood"
  "points foodWorld 3 = \<lparr>x = 300, y = 110\<rparr>"
  "canvas_width (canvas foodWorld) = 600"
  "canvas_height (canvas foodWorld) = 800"
  "numCellsX (canvas foodWorld) = 12"
  "numCellsY (canvas foodWorld) = 16"
  "cache (canvas foodWorld) = Map.empty"
  "locationMap foodWorld = [30 \<mapsto> [KoiFishObject ''koi-1'', FoodObject ''food-1'']]"
  by (simp_all add: foodWorld_def exampleWorld_def CanvasUtil_loaded_def setupCanvas_def
      cellSize_def)

lemma foodWorld_cell:
  "getCellIndex (canvas foodWorld) (position (koiFish foodWorld ''koi-1'')) = 30"
  by (simp add: getCellIndex_def foodWorld_facts exampleFish_def cellSize_def Let_def)

text \<open>
  C4 (amended) at a concrete input: the example fish with the uneaten food 10 ahead
  of it, registered in its own cell, and no desired food yet. One \<open>update\<close> returns
  with the position object of the food (address 3) as target point and the food as
  desired food.
\<close>

theorem fish_targets_nearest_food_witness:
  "\<not> getDistanceToCanvasBorder (canvas foodWorld) (position (koiFish foodWorld ''koi-1''))
        < canvasExitDistance
   \<and> 0 \<le> \<lfloor>x (position (koiFish foodWorld ''koi-1'')) / cellSize\<rfloor>
   \<and> \<lfloor>x (position (koiFish foodWorld ''koi-1'')) / cellSize\<rfloor> < numCellsX (canvas foodWorld)
   \<and> 0 \<le> \<lfloor>y (position (koiFish foodWorld ''koi-1'')) / cellSize\<rfloor>
   \<and> nearestRegisteredFood foodWorld ''koi-1'' ''food-1''
   \<and> neighboursNotStale foodWorld ''koi-1''
   \<and> \<not> eatsNow foodWorld ''koi-1'' ''food-1''
   \<and> inOneSlotOfLeader foodWorld ''koi-1''
   \<and> (\<exists>w'. update ''koi-1'' foodWorld = Some (Inr (), w')
           \<and> targetPoint (koiFish w' ''koi-1'') = 3
           \<and> Food.position (food w' ''food-1'') = 3
           \<and> desiredFood (koiFish w' ''koi-1'') = Some ''food-1''
           \<and> leaderKoiFish (koiFish w' ''koi-1'') = None)"
proof -
  have inside: "\<not> getDistanceToCanvasBorder (canvas foodWorld)
                      (position (koiFish foodWorld ''koi-1'')) < canvasExitDistance"
    by (simp add: getDistanceToCanvasBorder_def foodWorld_facts exampleFish_def
        canvasExitDistance_def Let_def)
  have column: "0 \<le> \<lfloor>x (position (koiFish foodWorld ''koi-1'')) / cellSize\<rfloor>"
    "\<lfloor>x (position (koiFish foodWorld ''koi-1'')) / cellSize\<rfloor> < numCellsX (canvas foodWorld)"
    and row: "0 \<le> \<lfloor>y (position (koiFish foodWorld ''koi-1'')) / cellSize\<rfloor>"
    by (simp_all add: foodWorld_facts exampleFish_def cellSize_def)
  have member: "30 \<in> cellsAround (canvas foodWorld) (position (koiFish foodWorld ''koi-1'')) 5"
    by (simp add: mem_cellsAround foodWorld_facts exampleFish_def cellSize_def)
  have near: "nearestRegisteredFood foodWorld ''koi-1'' ''food-1''"
    unfolding nearestRegisteredFood_def Let_def
    using member by (auto simp add: foodWorld_facts(2,9) exampleFood_def split: if_splits)
  have fresh: "neighboursNotStale foodWorld ''koi-1''"
    unfolding neighboursNotStale_def foodWorld_cell Let_def
    by (simp add: foodWorld_facts)
  have pursued: "\<not> eatsNow foodWorld ''koi-1'' ''food-1''"
    by (simp add: eatsNow_def foodWorld_facts exampleFish_def)
  have paired: "inOneSlotOfLeader foodWorld ''koi-1''"
    by (simp add: inOneSlotOfLeader_def foodWorld_facts exampleFish_def)
  have apart: "position (koiFish foodWorld ''koi-1'')
                 \<noteq> points foodWorld (Food.position (food foodWorld ''food-1''))"
    by (simp add: foodWorld_facts exampleFish_def exampleFood_def)
  have at: "Food.position (food foodWorld ''food-1'') = 3"
    by (simp add: foodWorld_facts exampleFood_def)
  from fish_targets_nearest_food [OF inside column row near fresh pursued paired] apart
  obtain w' where "update ''koi-1'' foodWorld = Some (Inr (), w')"
    and "targetPoint (koiFish w' ''koi-1'') = Food.position (food w' ''food-1'')"
    and "Food.position (food w' ''food-1'') = Food.position (food foodWorld ''food-1'')"
    and "desiredFood (koiFish w' ''koi-1'') = Some ''food-1''"
    and "leaderKoiFish (koiFish w' ''koi-1'') = None"
    by blast
  then have "\<exists>w'. update ''koi-1'' foodWorld = Some (Inr (), w')
           \<and> targetPoint (koiFish w' ''koi-1'') = 3
           \<and> Food.position (food w' ''food-1'') = 3
           \<and> desiredFood (koiFish w' ''koi-1'') = Some ''food-1''
           \<and> leaderKoiFish (koiFish w' ''koi-1'') = None"
    unfolding at by simp
  with inside column row near fresh pursued paired show ?thesis by blast
qed

lemma newTargetPointLoop_done:
  "\<not> d < 300 \<Longrightarrow> newTargetPointLoop p q d w = Some (Inr q, w)"
  by (subst newTargetPointLoop.simps) simp

lemma newTargetPointLoop_step:
  "d < 300 \<Longrightarrow> getRandomPoint 0.9 w = Some (Inr drawn, w') \<Longrightarrow>
   newTargetPointLoop p q d w = newTargetPointLoop p drawn (getDistanceTo p drawn) w'"
  by (subst newTargetPointLoop.simps) simp

lemma sqrt_square_540: "sqrt (540 * 540) = (540::real)"
  by (simp only: real_sqrt_abs2 abs_numeral)

lemma sqrt_square_10: "sqrt (10 * 10) = (10::real)"
  by (simp only: real_sqrt_abs2 abs_numeral)

lemma example_fish_retargets:
  assumes fish: "koiFish v ''koi-1'' = exampleFish\<lparr>targetPoint := 3\<rparr>"
    and target: "points v 3 = \<lparr>x = 300, y = 110\<rparr>"
    and dims: "canvas_width (canvas v) = 600" "canvas_height (canvas v) = 800"
      "canvasDiagonalLength (canvas v) = 1000"
    and draws: "randomNumbers v = 1 / 2 ## 5 / 6 ## s"
    and fresh: "nextPoint v = 4"
  shows "\<exists>v'. standardBehavior ''koi-1'' v = Some (Inr (), v')
           \<and> targetPoint (koiFish v' ''koi-1'') = 4
           \<and> food v' = food v"
proof -
  define v1 where "v1 = v\<lparr>randomNumbers := s\<rparr>"
  have drawn: "getRandomPoint 0.9 v = Some (Inr \<lparr>x = 300, y = 640\<rparr>, v1)"
    by (simp add: getRandomPoint_def Math_random_def prog_defs Let_def dims draws v1_def)
  have far: "getDistanceTo \<lparr>x = 300, y = 100\<rparr> \<lparr>x = 300, y = 640\<rparr> = 540"
    by (simp add: getDistanceTo_def getMagnitude_def getVectorTo_def Let_def sqrt_square_540)
  have loop: "newTargetPointLoop \<lparr>x = 300, y = 100\<rparr> \<lparr>x = 300, y = 100\<rparr> 0 v
                = Some (Inr \<lparr>x = 300, y = 640\<rparr>, v1)"
    by (simp add: newTargetPointLoop_step [OF _ drawn] far newTargetPointLoop_done)
  define v2 where "v2 = updateKoiFish ''koi-1'' (\<lambda>f. f\<lparr>targetPoint := 4\<rparr>)
                          (v1\<lparr>points := (points v1)(4 := \<lparr>x = 300, y = 640\<rparr>), nextPoint := 5\<rparr>)"
  have pos: "position (koiFish v ''koi-1'') = \<lparr>x = 300, y = 100\<rparr>"
    by (simp add: fish exampleFish_def)
  have new: "setNewRandomTargetPoint ''koi-1'' v = Some (Inr (), v2)"
    by (simp add: setNewRandomTargetPoint_def prog_defs newPoint_def pos loop v2_def v1_def fresh)
  have fish2: "koiFish v2 ''koi-1'' = exampleFish\<lparr>targetPoint := 4\<rparr>"
    and diag2: "canvasDiagonalLength (canvas v2) = 1000" and food2: "food v2 = food v"
    by (simp_all add: v2_def v1_def updateKoiFish_def fish dims)
  have vec: "getVectorTo (position (koiFish v ''koi-1'')) (points v (targetPoint (koiFish v ''koi-1'')))
               = \<lparr>dx = 0, dy = 10\<rparr>"
    by (simp add: fish exampleFish_def target getVectorTo_def Let_def)
  have mag: "getMagnitude \<lparr>dx = 0, dy = 10\<rparr> = 10"
    by (simp add: getMagnitude_def sqrt_square_10)
  have unit: "normalize \<lparr>dx = 0, dy = 10\<rparr> False = Inr (\<lparr>dx = 0, dy = 1\<rparr>, \<lparr>dx = 0, dy = 10\<rparr>)"
    by (simp add: normalize_def Let_def sqrt_square_10)
  have "standardBehavior ''koi-1'' v
          = Some (Inr (), updateKoiFish ''koi-1''
                            (\<lambda>f. f\<lparr>turnMultiplier := turnMultiplier f * 0.99\<rparr>) v2)"
    by (simp add: standardBehavior_def prog_defs vec mag unit new fish2 diag2 Let_def
        signedAngleBetween_def atan2_def exampleFish_def)
  then show ?thesis
    by (simp add: updateKoiFish_def fish2 food2)
qed

text \<open>
  C4 as stated fails: the fish is inside the canvas, the food is uneaten, registered in
  the cell of the fish and the nearest such food, and the neighbour list is not stale.
  But the food is already the desired food of the fish and is 10 away, closer than
  20: the first block of \<open>checkAndSetFoodBehavior\<close> eats it, the loop over the nearby
  food skips the eaten food, and \<open>standardBehavior\<close>, 10 from the old target, draws a
  new random target point (address 4). After the \<open>update\<close> the target point of the
  fish is not the position object of the food (address 3).
\<close>

theorem desired_food_is_eaten_counterexample:
  "\<not> getDistanceToCanvasBorder (canvas chasingWorld) (position (koiFish chasingWorld ''koi-1''))
        < canvasExitDistance
   \<and> 0 \<le> \<lfloor>x (position (koiFish chasingWorld ''koi-1'')) / cellSize\<rfloor>
   \<and> \<lfloor>x (position (koiFish chasingWorld ''koi-1'')) / cellSize\<rfloor>
         < numCellsX (canvas chasingWorld)
   \<and> 0 \<le> \<lfloor>y (position (koiFish chasingWorld ''koi-1'')) / cellSize\<rfloor>
   \<and> nearestRegisteredFood chasingWorld ''koi-1'' ''food-1''
   \<and> neighboursNotStale chasingWorld ''koi-1''
   \<and> leaderKoiFish (koiFish chasingWorld ''koi-1'') = None
   \<and> desiredFood (koiFish chasingWorld ''koi-1'') = Some ''food-1''
   \<and> foodDistance chasingWorld ''koi-1'' ''food-1'' = 10
   \<and> update ''koi-1'' chasingWorld \<noteq> None
   \<and> fst (the (update ''koi-1'' chasingWorld)) = Inr ()
   \<and> targetPoint (koiFish (snd (the (update ''koi-1'' chasingWorld))) ''koi-1'') = 4
   \<and> Food.position (food (snd (the (update ''koi-1'' chasingWorld))) ''food-1'') = 3
   \<and> isEaten (food (snd (the (update ''koi-1'' chasingWorld))) ''food-1'')"
proof -
  let ?W = chasingWorld
  let ?w0 = "beginUpdate ''koi-1'' ?W"
  let ?v1 = "relaxed ''koi-1'' (afterLooking ''koi-1'' ?w0)"
  let ?v2 = "afterLookingForLeader ''koi-1'' ?v1"
  have W: "koiFish ?W ''koi-1'' = exampleFish\<lparr>targetPoint := 3, desiredFood := Some ''food-1''\<rparr>"
    "food ?W = (\<lambda>i. exampleFood)"
    "foodMap ?W = {''food-1''}"
    "points ?W 3 = \<lparr>x = 300, y = 110\<rparr>"
    "canvas_width (canvas ?W) = 600"
    "canvas_height (canvas ?W) = 800"
    "canvasDiagonalLength (canvas ?W) = 1000"
    "numCellsX (canvas ?W) = 12"
    "numCellsY (canvas ?W) = 16"
    "cache (canvas ?W) = Map.empty"
    "locationMap ?W = [30 \<mapsto> [KoiFishObject ''koi-1'', FoodObject ''food-1'']]"
    "randomNumbers ?W = 1 / 2 ## 5 / 6 ## sconst 0"
    "nextPoint ?W = 4"
    by (simp_all add: chasingWorld_def exampleWorld_def CanvasUtil_loaded_def setupCanvas_def
        cellSize_def)
  have cell: "getCellIndex (canvas ?W) (position (koiFish ?W ''koi-1'')) = 30"
    by (simp add: getCellIndex_def W exampleFish_def cellSize_def Let_def)
  have inside: "\<not> getDistanceToCanvasBorder (canvas ?W) (position (koiFish ?W ''koi-1''))
                    < canvasExitDistance"
    by (simp add: getDistanceToCanvasBorder_def W exampleFish_def canvasExitDistance_def Let_def)
  have column: "0 \<le> \<lfloor>x (position (koiFish ?W ''koi-1'')) / cellSize\<rfloor>"
    "\<lfloor>x (position (koiFish ?W ''koi-1'')) / cellSize\<rfloor> < numCellsX (canvas ?W)"
    and row: "0 \<le> \<lfloor>y (position (koiFish ?W ''koi-1'')) / cellSize\<rfloor>"
    by (simp_all add: W exampleFish_def cellSize_def)
  have member: "30 \<in> cellsAround (canvas ?W) (position (koiFish ?W ''koi-1'')) 5"
    by (simp add: mem_cellsAround W exampleFish_def cellSize_def)
  have near: "nearestRegisteredFood ?W ''koi-1'' ''food-1''"
    unfolding nearestRegisteredFood_def Let_def
    using member by (auto simp add: W(2,11) exampleFood_def split: if_splits)
  have fresh: "neighboursNotStale ?W ''koi-1''"
    unfolding neighboursNotStale_def cell Let_def by (simp add: W)
  have alone: "leaderKoiFish (koiFish ?W ''koi-1'') = None"
    and wants: "desiredFood (koiFish ?W ''koi-1'') = Some ''food-1''"
    by (simp_all add: W exampleFish_def)
  have close: "foodDistance ?W ''koi-1'' ''food-1'' = 10"
    by (simp add: foodDistance_def W exampleFish_def exampleFood_def getDistanceTo_def
        getMagnitude_def getVectorTo_def Let_def sqrt_square_10)
  have w0: "koiFish ?w0 ''koi-1'' = exampleFish\<lparr>targetPoint := 3, desiredFood := Some ''food-1''\<rparr>"
    "food ?w0 = (\<lambda>i. exampleFood)"
    "foodMap ?w0 = {''food-1''}"
    "points ?w0 = points ?W"
    "canvas ?w0 = canvas ?W"
    "locationMap ?w0 = [30 \<mapsto> [KoiFishObject ''koi-1'', FoodObject ''food-1'']]"
    "randomNumbers ?w0 = 1 / 2 ## 5 / 6 ## sconst 0"
    "nextPoint ?w0 = 4"
    by (simp_all add: beginUpdate_def updateKoiFish_def W exampleFish_def)
  have close0: "foodDistance ?w0 ''koi-1'' ''food-1'' = 10"
    using close by (simp add: foodDistance_def w0 W)
  define e where "e = afterEating ''koi-1'' ?w0"
  have e: "e = updateKoiFish ''koi-1'' (\<lambda>f. f\<lparr>desiredFood := None\<rparr>)
                 (updateFood ''food-1'' (\<lambda>fd. fd\<lparr>isEaten := True\<rparr>) ?w0)"
    by (simp add: e_def afterEating_def w0(1) close0)
  have eaten: "isEaten (food e ''food-1'')" and place: "Food.position (food e ''food-1'') = 3"
    and efish: "koiFish e ''koi-1'' = exampleFish\<lparr>targetPoint := 3\<rparr>"
    by (simp_all add: e updateKoiFish_def updateFood_def w0 exampleFood_def exampleFish_def)
  have only: "g = ''food-1''" if "g \<in> set (nearbyRefs ?w0 ''koi-1'' instanceofFood cells)" for g cells
    using that by (auto simp add: mem_nearbyRefs_food w0 split: if_splits)
  have "closestFoodLoop e (position (koiFish ?w0 ''koi-1''))
          (nearbyRefs ?w0 ''koi-1'' instanceofFood cells) None = None" for cells
    by (rule closestFoodLoop_all_eaten) (auto dest: only simp add: eaten)
  then have food_step: "checkAndSetFoodBehavior ''koi-1'' ?w0 = Some (Inr (), ?v1)"
    unfolding e_def by (rule checkAndSetFoodBehavior_idle)
  have v1: "koiFish ?v1 ''koi-1'' = exampleFish\<lparr>targetPoint := 3\<rparr>"
    "food ?v1 = food e"
    "locationMap ?v1 = [30 \<mapsto> [KoiFishObject ''koi-1'', FoodObject ''food-1'']]"
    "points ?v1 = points ?W"
    "randomNumbers ?v1 = 1 / 2 ## 5 / 6 ## sconst 0"
    "nextPoint ?v1 = 4"
    "canvas_width (canvas ?v1) = 600"
    "canvas_height (canvas ?v1) = 800"
    "canvasDiagonalLength (canvas ?v1) = 1000"
    by (simp_all add: relaxed_def afterLooking_def e_def [symmetric] updateKoiFish_def efish
        e [unfolded updateKoiFish_def updateFood_def] w0 W getAdjacentIndices_dims
        exampleFish_def setSpeedFactor_def Oscillator_new_def Let_def)
  have nobody: "nearbyRefs ?v1 ''koi-1'' instanceofKoiFish cells = []" for cells
    by (rule nearbyRefs_nothing) (auto simp add: v1 split: if_splits)
  have follow_step: "checkAndSetFollowBehavior ''koi-1'' ?v1 = Some (Inr (), ?v2)"
    by (rule checkAndSetFollowBehavior_alone) (simp_all add: v1(1) nobody exampleFish_def)
  have v2: "koiFish ?v2 ''koi-1'' = exampleFish\<lparr>targetPoint := 3\<rparr>"
    "food ?v2 = food e"
    "points ?v2 3 = \<lparr>x = 300, y = 110\<rparr>"
    "randomNumbers ?v2 = 1 / 2 ## 5 / 6 ## sconst 0"
    "nextPoint ?v2 = 4"
    "canvas_width (canvas ?v2) = 600"
    "canvas_height (canvas ?v2) = 800"
    "canvasDiagonalLength (canvas ?v2) = 1000"
    unfolding afterLookingForLeader_def by (simp_all add: v1 W getAdjacentIndices_dims)
  from example_fish_retargets [OF v2(1) v2(3) v2(6) v2(7) v2(8) v2(4) v2(5)]
  obtain v' where standard_step: "standardBehavior ''koi-1'' ?v2 = Some (Inr (), v')"
    and target': "targetPoint (koiFish v' ''koi-1'') = 4" and food': "food v' = food e"
    by (auto simp add: v2(2))
  have choose: "chooseBehavior ''koi-1'' ?w0 = Some (Inr (), v')"
    by (simp add: chooseBehavior_def seq_def bnd_def reads_def ret_def food_step follow_step
        standard_step v1(1) v2(1) exampleFish_def)
  define w' where "w' = finishUpdate ''koi-1'' (smoothenDirectionChange ''koi-1'' v')"
  have run: "update ''koi-1'' ?W = Some (Inr (), w')"
    by (simp add: update_inside [OF inside] choose w'_def)
  have "keepsLinks ''koi-1'' v' w'"
    unfolding w'_def by (rule keepsLinks_motion)
  then have "targetPoint (koiFish w' ''koi-1'') = 4" and "food w' = food e"
    by (simp_all add: keepsLinks_def target' food')
  then have "targetPoint (koiFish w' ''koi-1'') = 4" "Food.position (food w' ''food-1'') = 3"
    "isEaten (food w' ''food-1'')"
    by (simp_all add: eaten place)
  with inside column row near fresh alone wants close run show ?thesis by simp
qed

subsection \<open>Fish: leader and follower\<close>

text \<open>
  C3 at a failing input. Before the call the pairing is as the claim says: \<open>koi-A\<close>
  is the leader of \<open>koi-B\<close>, \<open>koi-B\<close> is in the left slot of \<open>koi-A\<close> and in no other,
  and the target point of \<open>koi-B\<close> is the left follow point of \<open>koi-A\<close>. The follower is
  30 beyond the border, so \<open>update\<close> runs \<open>handleOutOfBounds\<close>, which gives it a new
  random target point (address 7) and leaves the pairing in place: afterwards \<open>koi-A\<close>
  is still the leader of \<open>koi-B\<close>, but the target point of \<open>koi-B\<close> is no longer the
  follow point of its slot (address 1). The food chase and the two ways out of
  \<open>checkAndSetFollowBehavior\<close> call \<open>unsetLeaderFollower\<close> before they change the
  target point.
\<close>

theorem out_of_bounds_follower_keeps_leader:
  "leaderKoiFish (koiFish pairedWorld ''koi-B'') = Some ''koi-A''
   \<and> leftFollower (koiFish pairedWorld ''koi-A'') = Some ''koi-B''
   \<and> rightFollower (koiFish pairedWorld ''koi-A'') = None
   \<and> targetPoint (koiFish pairedWorld ''koi-B'') = leftFollowPoint (koiFish pairedWorld ''koi-A'')
   \<and> getDistanceToCanvasBorder (canvas pairedWorld) (position (koiFish pairedWorld ''koi-B'')) = - 30
   \<and> (case update ''koi-B'' pairedWorld of
         Some (Inr u, w') \<Rightarrow>
           leaderKoiFish (koiFish w' ''koi-B'') = Some ''koi-A''
           \<and> leftFollower (koiFish w' ''koi-A'') = Some ''koi-B''
           \<and> rightFollower (koiFish w' ''koi-A'') = None
           \<and> leftFollowPoint (koiFish w' ''koi-A'') = 1
           \<and> rightFollowPoint (koiFish w' ''koi-A'') = 2
           \<and> targetPoint (koiFish w' ''koi-B'') = 7
       | _ \<Rightarrow> False)"
proof -
  have pre: "leaderKoiFish (koiFish pairedWorld ''koi-B'') = Some ''koi-A''"
    "leftFollower (koiFish pairedWorld ''koi-A'') = Some ''koi-B''"
    "rightFollower (koiFish pairedWorld ''koi-A'') = None"
    "targetPoint (koiFish pairedWorld ''koi-B'') = leftFollowPoint (koiFish pairedWorld ''koi-A'')"
    by (simp_all add: pairedWorld_def exampleFish_def)
  have dims: "canvas_width (canvas pairedWorld) = 600" "canvas_height (canvas pairedWorld) = 800"
    by (simp_all add: pairedWorld_def exampleWorld_canvas)
  have out: "getDistanceToCanvasBorder (canvas pairedWorld) (position (koiFish pairedWorld ''koi-B'')) = - 30"
    by (simp add: getDistanceToCanvasBorder_def dims Let_def) (simp add: pairedWorld_def)
  have run: "(case update ''koi-B'' pairedWorld of
         Some (Inr u, w') \<Rightarrow>
           leaderKoiFish (koiFish w' ''koi-B'') = Some ''koi-A''
           \<and> leftFollower (koiFish w' ''koi-A'') = Some ''koi-B''
           \<and> rightFollower (koiFish w' ''koi-A'') = None
           \<and> leftFollowPoint (koiFish w' ''koi-A'') = 1
           \<and> rightFollowPoint (koiFish w' ''koi-A'') = 2
           \<and> targetPoint (koiFish w' ''koi-B'') = 7
       | _ \<Rightarrow> False)"
    by (simp add: update_def handleOutOfBounds_def getRandomEdgePoint_def getRandomItem_def
        getLeftEdgePoint_def getRandomPoint_def Math_random_def newPoint_def getDirectionTo_def
        normalize_def getVectorTo_def prog_defs Let_def canvasExitDistance_def updateKoiFish_def
        getDistanceToCanvasBorder_def
        pairedWorld_def exampleWorld_def exampleFish_def CanvasUtil_loaded_def setupCanvas_def)
  from pre out run show ?thesis by simp
qed

subsection \<open>Binary64: rounding to nearest\<close>

lemma roundHalfEven_of_int [simp]: "roundHalfEven (of_int k) = k"
  by (simp add: roundHalfEven_def)

lemma roundHalfEven_error: "\<bar>of_int (roundHalfEven t) - t\<bar> \<le> 1 / 2"
  unfolding roundHalfEven_def Let_def by (auto; linarith)

lemma roundHalfEven_bounds: "\<lfloor>t\<rfloor> \<le> roundHalfEven t" "roundHalfEven t \<le> \<lfloor>t\<rfloor> + 1"
  unfolding roundHalfEven_def Let_def by auto

lemma roundHalfEven_mono:
  assumes "s \<le> t"
  shows "roundHalfEven s \<le> roundHalfEven t"
proof (cases "\<lfloor>s\<rfloor> = \<lfloor>t\<rfloor>")
  case True
  with assms show ?thesis
    unfolding roundHalfEven_def Let_def by auto
next
  case False
  with assms have "\<lfloor>s\<rfloor> < \<lfloor>t\<rfloor>" using floor_mono [OF assms] by linarith
  then have "roundHalfEven s \<le> \<lfloor>t\<rfloor>" using roundHalfEven_bounds(2) [of s] by linarith
  with roundHalfEven_bounds(1) [of t] show ?thesis by linarith
qed

lemma roundHalfEven_minus: "roundHalfEven (- t) = - roundHalfEven t"
proof (cases "t = of_int \<lfloor>t\<rfloor>")
  case True
  then obtain k where "t = of_int k" ..
  then have "- t = of_int (- k)" by simp
  then show ?thesis unfolding \<open>t = of_int k\<close> by (simp only: roundHalfEven_of_int)
next
  case False
  then have fl: "\<lfloor>- t\<rfloor> = - \<lfloor>t\<rfloor> - 1"
    by (metis ceiling_altdef ceiling_def add_diff_cancel_right' minus_diff_eq diff_minus_eq_add
        minus_minus uminus_add_conv_diff)
  show ?thesis
    unfolding roundHalfEven_def Let_def fl
    by (auto simp add: algebra_simps)
qed

lemma two_powr_int: "(2::real) powr real_of_int k = 2 powi k"
  by (rule powr_real_of_int') simp_all

lemma binade_bounds:
  assumes "v \<noteq> 0"
  shows "2 powi (binade v) \<le> \<bar>v\<bar>" and "\<bar>v\<bar> < 2 powi (binade v + 1)"
proof -
  from assms have pos: "0 < \<bar>v\<bar>" by simp
  have "(2::real) powr real_of_int (binade v) \<le> \<bar>v\<bar>
        \<and> \<bar>v\<bar> < 2 powr (real_of_int (binade v) + 1)"
    using floor_log_eq_powr_iff [OF pos, of 2 "binade v"] by (simp add: binade_def)
  moreover have "real_of_int (binade v) + 1 = real_of_int (binade v + 1)" by simp
  ultimately show "2 powi (binade v) \<le> \<bar>v\<bar>" and "\<bar>v\<bar> < 2 powi (binade v + 1)"
    by (simp_all only: two_powr_int)
qed

lemma binade_eqI:
  assumes "2 powi k \<le> \<bar>v\<bar>" and "\<bar>v\<bar> < 2 powi (k + 1)"
  shows "binade v = k"
proof -
  have "(0::real) < 2 powi k" by simp
  with assms(1) have pos: "0 < \<bar>v\<bar>" by linarith
  have "real_of_int k + 1 = real_of_int (k + 1)" by simp
  then have "(2::real) powr real_of_int k \<le> \<bar>v\<bar> \<and> \<bar>v\<bar> < 2 powr (real_of_int k + 1)"
    using assms by (simp only: two_powr_int)
  then show ?thesis
    using floor_log_eq_powr_iff [OF pos, of 2 k] by (simp add: binade_def)
qed

lemma two_powi_less_iff: "(2::real) powi m < 2 powi n \<longleftrightarrow> m < n"
proof
  assume l: "(2::real) powi m < 2 powi n"
  show "m < n"
  proof (rule ccontr)
    assume "\<not> m < n"
    then have "n \<le> m" by simp
    then have "(2::real) powi n \<le> 2 powi m" by (rule power_int_increasing) simp
    with l show False by simp
  qed
next
  assume "m < n"
  then show "(2::real) powi m < 2 powi n" by (rule power_int_strict_increasing) simp
qed

lemma two_powi_le_iff: "(2::real) powi m \<le> 2 powi n \<longleftrightarrow> m \<le> n"
  using two_powi_less_iff [of n m] by (simp add: not_less [symmetric])

lemma quantum_pos [simp]: "0 < quantum v"
  by (simp add: quantum_def)

lemma quantum_nonzero [simp]: "quantum v \<noteq> 0"
  by (simp add: quantum_def)

lemma quantum_nonneg [simp]: "0 \<le> quantum v"
  by (rule less_imp_le [OF quantum_pos])

lemma two_powi_add: "(2::real) powi (m + n) = 2 powi m * 2 powi n"
  by (simp add: power_int_add)

lemma quantum_top: "quantum v * 2 powi 53 = 2 powi (expo v + 1)"
proof -
  have "(2::real) powi (expo v - 52 + 53) = 2 powi (expo v - 52) * 2 powi 53"
    by (rule two_powi_add)
  moreover have "expo v - 52 + 53 = expo v + 1" by simp
  ultimately show ?thesis by (simp only: quantum_def)
qed

lemma quantum_bottom: "quantum v * 2 powi 52 = 2 powi (expo v)"
proof -
  have "(2::real) powi (expo v - 52 + 52) = 2 powi (expo v - 52) * 2 powi 52"
    by (rule two_powi_add)
  moreover have "expo v - 52 + 52 = expo v" by simp
  ultimately show ?thesis by (simp only: quantum_def)
qed

lemma binade_minus [simp]: "binade (- v) = binade v"
  by (simp add: binade_def)

lemma expo_minus [simp]: "expo (- v) = expo v"
  by (simp add: expo_def)

lemma expo_ge [simp]: "- 1022 \<le> expo v"
  by (simp add: expo_def)

lemma quantum_minus [simp]: "quantum (- v) = quantum v"
  by (simp add: quantum_def)

lemma nearest_minus: "nearest (- v) = - nearest v"
  by (simp add: nearest_def roundHalfEven_minus)

lemma nearest_zero [simp]: "nearest 0 = 0"
  using roundHalfEven_of_int [of 0] by (simp add: nearest_def)

lemma nearest_error: "\<bar>nearest v - v\<bar> \<le> quantum v / 2"
proof -
  let ?q = "quantum v"
  have "?q \<noteq> 0" by (simp add: quantum_def)
  then have "nearest v - v = ?q * (of_int (roundHalfEven (v / ?q)) - v / ?q)"
    by (simp add: nearest_def algebra_simps)
  then have "\<bar>nearest v - v\<bar> = ?q * \<bar>of_int (roundHalfEven (v / ?q)) - v / ?q\<bar>"
    by (simp only: abs_mult abs_of_pos [OF quantum_pos])
  also have "\<dots> \<le> ?q * (1 / 2)"
    by (rule mult_left_mono [OF roundHalfEven_error]) simp
  finally show ?thesis by simp
qed

text \<open>Every number is below the top of its binade, and a number above the subnormal
  range is at least the bottom of it.\<close>

lemma below_top: "\<bar>v\<bar> < 2 powi (expo v + 1)"
proof (cases "v = 0")
  case True
  then show ?thesis by simp
next
  case False
  have "\<bar>v\<bar> < 2 powi (binade v + 1)" by (rule binade_bounds(2) [OF False])
  also have "(2::real) powi (binade v + 1) \<le> 2 powi (expo v + 1)"
    using False by (simp add: two_powi_le_iff expo_def)
  finally show ?thesis .
qed

lemma above_bottom:
  assumes "- 1022 < expo v"
  shows "2 powi (expo v) \<le> \<bar>v\<bar>"
proof -
  from assms have nz: "v \<noteq> 0" and e: "expo v = binade v"
    by (simp_all add: expo_def max_def split: if_splits)
  from nz show ?thesis unfolding e by (rule binade_bounds(1))
qed

lemma expo_normal:
  assumes "2 powi (- 1022) \<le> \<bar>v\<bar>"
  shows "expo v = binade v" and "2 powi (expo v) \<le> \<bar>v\<bar>"
proof -
  have "(0::real) < 2 powi (- 1022)" by simp
  with assms have nz: "v \<noteq> 0" by auto
  have "(2::real) powi (- 1022) < 2 powi (binade v + 1)"
    using assms binade_bounds(2) [OF nz] by linarith
  then have "- 1022 < binade v + 1"
    by (simp only: two_powi_less_iff)
  with nz show e: "expo v = binade v" by (simp add: expo_def)
  show "2 powi (expo v) \<le> \<bar>v\<bar>" unfolding e by (rule binade_bounds(1) [OF nz])
qed

text \<open>The rounded value stays within the binade of the number, ends included.\<close>

lemma two_powi_53: "(2::real) powi 53 = of_int (2 ^ 53)" and two_powi_52: "(2::real) powi 52 = of_int (2 ^ 52)"
  by simp_all

lemma nearest_nonneg:
  assumes "0 \<le> v"
  shows "0 \<le> nearest v"
proof -
  have "0 \<le> v / quantum v" using assms by simp
  then have "roundHalfEven 0 \<le> roundHalfEven (v / quantum v)" by (rule roundHalfEven_mono)
  moreover have "roundHalfEven 0 = 0" using roundHalfEven_of_int [of 0] by simp
  ultimately show ?thesis by (simp add: nearest_def)
qed

lemma nearest_le_top:
  assumes "0 \<le> v"
  shows "nearest v \<le> 2 powi (expo v + 1)"
proof -
  let ?q = "quantum v"
  have "v < 2 powi (expo v + 1)" using below_top [of v] assms by simp
  also have "(2::real) powi (expo v + 1) = ?q * 2 powi 53"
    by (rule quantum_top [symmetric])
  finally have "v / ?q \<le> 2 powi 53"
    by (simp only: pos_divide_le_eq [OF quantum_pos] mult.commute [of _ ?q] less_imp_le)
  then have "roundHalfEven (v / ?q) \<le> roundHalfEven (2 powi 53)" by (rule roundHalfEven_mono)
  also have "roundHalfEven (2 powi 53) = 2 ^ 53"
    unfolding two_powi_53 by (rule roundHalfEven_of_int)
  finally have "of_int (roundHalfEven (v / ?q)) \<le> (2::real) powi 53"
    unfolding two_powi_53 by (simp only: of_int_le_iff)
  then have "nearest v \<le> ?q * 2 powi 53"
    unfolding nearest_def by (rule mult_left_mono) simp
  also have "?q * 2 powi 53 = 2 powi (expo v + 1)"
    by (rule quantum_top)
  finally show ?thesis .
qed

lemma nearest_ge_bottom:
  assumes "0 \<le> v" and "- 1022 < expo v"
  shows "2 powi (expo v) \<le> nearest v"
proof -
  let ?q = "quantum v"
  have q: "(2::real) powi (expo v) = ?q * 2 powi 52"
    by (rule quantum_bottom [symmetric])
  have "2 powi (expo v) \<le> v" using above_bottom [OF assms(2)] assms(1) by simp
  then have "2 powi 52 \<le> v / ?q"
    unfolding q by (simp only: pos_le_divide_eq [OF quantum_pos] mult.commute [of _ ?q])
  then have "roundHalfEven (2 powi 52) \<le> roundHalfEven (v / ?q)" by (rule roundHalfEven_mono)
  moreover have "roundHalfEven (2 powi 52) = 2 ^ 52"
    unfolding two_powi_52 by (rule roundHalfEven_of_int)
  ultimately have "(2::real) powi 52 \<le> of_int (roundHalfEven (v / ?q))"
    unfolding two_powi_52 by (simp only: of_int_le_iff)
  then have "?q * 2 powi 52 \<le> nearest v"
    unfolding nearest_def by (rule mult_left_mono) simp
  then show ?thesis unfolding q .
qed

lemma expo_mono:
  assumes "\<bar>u\<bar> \<le> \<bar>v\<bar>"
  shows "expo u \<le> expo v"
proof (cases "expo u = - 1022")
  case True
  then show ?thesis by simp
next
  case False
  then have lo: "- 1022 < expo u" using expo_ge [of u] by linarith
  have "2 powi (expo u) \<le> \<bar>u\<bar>" by (rule above_bottom [OF lo])
  also note assms
  also note below_top [of v]
  finally have "expo u < expo v + 1" by (simp only: two_powi_less_iff)
  then show ?thesis by simp
qed

lemma nearest_mono_nonneg:
  assumes "0 \<le> u" and "u \<le> v"
  shows "nearest u \<le> nearest v"
proof (cases "expo u = expo v")
  case True
  then have q: "quantum u = quantum v" by (simp add: quantum_def)
  have "u / quantum v \<le> v / quantum v" using assms(2) by (simp add: divide_right_mono)
  then have "roundHalfEven (u / quantum v) \<le> roundHalfEven (v / quantum v)"
    by (rule roundHalfEven_mono)
  then show ?thesis unfolding nearest_def q by (simp add: mult_left_mono)
next
  case False
  from assms have v: "0 \<le> v" and "\<bar>u\<bar> \<le> \<bar>v\<bar>" by simp_all
  with False have less: "expo u < expo v" using expo_mono [of u v] by linarith
  then have lo: "- 1022 < expo v" using expo_ge [of u] by linarith
  have "nearest u \<le> 2 powi (expo u + 1)" by (rule nearest_le_top [OF assms(1)])
  also have "(2::real) powi (expo u + 1) \<le> 2 powi (expo v)"
    using less by (simp add: two_powi_le_iff)
  also have "2 powi (expo v) \<le> nearest v" by (rule nearest_ge_bottom [OF v lo])
  finally show ?thesis .
qed

lemma nearest_mono:
  assumes "u \<le> v"
  shows "nearest u \<le> nearest v"
proof -
  consider "0 \<le> u" | "v \<le> 0" | "u < 0" "0 < v" by linarith
  then show ?thesis
  proof cases
    case 1
    then show ?thesis using assms by (rule nearest_mono_nonneg)
  next
    case 2
    then have "nearest (- v) \<le> nearest (- u)"
      using assms by (intro nearest_mono_nonneg) simp_all
    then show ?thesis by (simp add: nearest_minus)
  next
    case 3
    have "0 \<le> nearest (- u)" using 3 by (intro nearest_nonneg) simp
    then have "nearest u \<le> 0" by (simp add: nearest_minus)
    also have "0 \<le> nearest v" using 3 by (intro nearest_nonneg) simp
    finally show ?thesis .
  qed
qed

lemma expo_eqI:
  assumes "2 powi k \<le> \<bar>v\<bar>" and "\<bar>v\<bar> < 2 powi (k + 1)" and "- 1022 \<le> k"
  shows "expo v = k"
proof -
  have "(0::real) < 2 powi k" by simp
  with assms(1) have "0 < \<bar>v\<bar>" by linarith
  then have "v \<noteq> 0" by simp
  moreover have "binade v = k" by (rule binade_eqI [OF assms(1) assms(2)])
  ultimately show ?thesis using assms(3) by (simp add: expo_def)
qed

lemma expo_le:
  assumes "\<bar>v\<bar> < 2 powi (k + 1)" and "- 1022 \<le> k"
  shows "expo v \<le> k"
proof (cases "expo v = - 1022")
  case True
  with assms(2) show ?thesis by simp
next
  case False
  then have "- 1022 < expo v" using expo_ge [of v] by linarith
  then have "2 powi (expo v) \<le> \<bar>v\<bar>" by (rule above_bottom)
  also note assms(1)
  finally have "expo v < k + 1" by (simp only: two_powi_less_iff)
  then show ?thesis by simp
qed

lemma nearest_grid:
  assumes "v / quantum v = of_int m"
  shows "nearest v = v"
proof -
  have "nearest v = quantum v * (v / quantum v)"
    unfolding nearest_def assms by (simp only: roundHalfEven_of_int)
  then show ?thesis by simp
qed

text \<open>
  A number with a significand of at most 53 bits and an exponent in the range of the
  format is not changed by rounding.
\<close>

lemma nearest_representable:
  assumes k: "\<bar>k\<bar> \<le> 2 ^ 53" and e: "- 1074 \<le> e"
  shows "nearest (of_int k * 2 powi e) = of_int k * 2 powi e"
proof (cases "\<bar>k\<bar> = 2 ^ 53")
  case True
  let ?v = "of_int k * (2::real) powi e"
  have abs_v: "\<bar>?v\<bar> = 2 powi (e + 53)"
  proof -
    have "\<bar>?v\<bar> = of_int \<bar>k\<bar> * 2 powi e" by (simp add: abs_mult)
    also have "\<dots> = 2 powi 53 * 2 powi e" unfolding True by simp
    also have "\<dots> = 2 powi (e + 53)" by (simp only: two_powi_add mult.commute)
    finally show ?thesis .
  qed
  have ex: "expo ?v = e + 53"
  proof (rule expo_eqI)
    show "2 powi (e + 53) \<le> \<bar>?v\<bar>" unfolding abs_v by simp
    show "\<bar>?v\<bar> < 2 powi (e + 53 + 1)" unfolding abs_v by (simp only: two_powi_less_iff)
    show "- 1022 \<le> e + 53" using e by simp
  qed
  have q: "quantum ?v = 2 powi e * 2"
  proof -
    have "e + 53 - 52 = e + 1" by simp
    then have "quantum ?v = 2 powi (e + 1)" by (simp only: quantum_def ex)
    then show ?thesis by (simp only: two_powi_add) simp
  qed
  have "even \<bar>k\<bar>" unfolding True by simp
  then have "even k" by (simp add: abs_if split: if_splits)
  then obtain h where h: "k = 2 * h" by (elim evenE)
  have "?v / quantum ?v = of_int h" unfolding q by (simp add: h)
  then show ?thesis by (rule nearest_grid)
next
  case False
  let ?v = "of_int k * (2::real) powi e"
  from False k have small: "\<bar>k\<bar> < 2 ^ 53" by linarith
  have "\<bar>?v\<bar> = of_int \<bar>k\<bar> * 2 powi e" by (simp add: abs_mult)
  also have "\<dots> < of_int (2 ^ 53) * 2 powi e"
    using small by (intro mult_strict_right_mono) (simp_all only: of_int_less_iff zero_less_power_int zero_less_numeral)
  also have "\<dots> = 2 powi (e + 52 + 1)"
  proof -
    have "(2::real) powi (e + 53) = 2 powi e * 2 powi 53" by (rule two_powi_add)
    then have "(2::real) powi (e + 53) = of_int (2 ^ 53) * 2 powi e"
      by (simp only: two_powi_53 mult.commute)
    moreover have "e + 52 + 1 = e + 53" by simp
    ultimately show ?thesis by (simp only:)
  qed
  finally have "expo ?v \<le> e + 52" using e by (intro expo_le) simp_all
  then have j: "0 \<le> e - (expo ?v - 52)" by simp
  define n where "n = nat (e - (expo ?v - 52))"
  have "(2::real) powi e = 2 powi (expo ?v - 52 + int n)" using j by (simp add: n_def)
  also have "\<dots> = quantum ?v * 2 ^ n"
    by (simp only: two_powi_add quantum_def power_int_of_nat)
  finally have pe: "(2::real) powi e = quantum ?v * 2 ^ n" .
  define q where "q = quantum ?v"
  have qnz: "q \<noteq> 0" by (simp add: q_def)
  from pe have pe': "(2::real) powi e = q * 2 ^ n" by (simp only: q_def)
  have "of_int k * 2 powi e / q = of_int (k * 2 ^ n)"
    unfolding pe' using qnz by simp
  then have "?v / quantum ?v = of_int (k * 2 ^ n)" unfolding q_def .
  then show ?thesis by (rule nearest_grid)
qed

lemma nearest_bounded:
  "\<bar>nearest v\<bar> \<le> 2 powi (expo v + 1)"
proof (cases "0 \<le> v")
  case True
  then show ?thesis using nearest_le_top [OF True] nearest_nonneg [OF True] by simp
next
  case False
  then have n: "0 \<le> - v" by simp
  from nearest_le_top [OF n] nearest_nonneg [OF n] show ?thesis
    by (simp add: nearest_minus)
qed

lemma nearest_idem: "nearest (nearest v) = nearest v"
proof -
  let ?k = "roundHalfEven (v / quantum v)"
  have "quantum v * \<bar>of_int ?k\<bar> \<le> quantum v * 2 powi 53"
    using nearest_bounded [of v]
    by (simp only: quantum_top nearest_def abs_mult abs_of_pos [OF quantum_pos])
  then have "\<bar>real_of_int ?k\<bar> \<le> 2 powi 53"
    by (simp only: mult_le_cancel_left_pos [OF quantum_pos])
  then have k: "\<bar>?k\<bar> \<le> 2 ^ 53"
    unfolding two_powi_53 by (simp only: of_int_abs [symmetric] of_int_le_iff)
  have "nearest (of_int ?k * 2 powi (expo v - 52)) = of_int ?k * 2 powi (expo v - 52)"
    by (rule nearest_representable [OF k]) (use expo_ge [of v] in linarith)
  then show ?thesis by (simp only: nearest_def quantum_def mult.commute)
qed

lemma nearest_relative:
  assumes "2 powi (- 1022) \<le> \<bar>v\<bar>"
  shows "\<bar>nearest v - v\<bar> \<le> 2 powi (- 53) * \<bar>v\<bar>"
proof -
  have "quantum v / 2 = 2 powi (- 53) * 2 powi (expo v)"
  proof -
    have "(2::real) powi (- 53 + expo v) = 2 powi (- 53) * 2 powi (expo v)" by (rule two_powi_add)
    moreover have "(2::real) powi (- 53 + expo v + 1) = 2 powi (- 53 + expo v) * 2 powi 1"
      by (rule two_powi_add)
    moreover have "- 53 + expo v + 1 = expo v - 52" by simp
    ultimately show ?thesis by (simp add: quantum_def)
  qed
  also have "\<dots> \<le> 2 powi (- 53) * \<bar>v\<bar>"
    by (rule mult_left_mono [OF expo_normal(2) [OF assms]]) simp
  finally show ?thesis using nearest_error [of v] by linarith
qed

lemma expo_subnormal:
  assumes "\<bar>v\<bar> < 2 powi (- 1022)"
  shows "expo v = - 1022"
proof -
  have "(2::real) powi (- 1022) \<le> 2 powi (- 1022 + 1)" by (simp only: two_powi_le_iff)
  with assms have "\<bar>v\<bar> < 2 powi (- 1022 + 1)" by linarith
  then have "expo v \<le> - 1022" by (rule expo_le) simp
  with expo_ge [of v] show ?thesis by linarith
qed

lemma roundHalfEven_small:
  assumes "\<bar>t\<bar> < 1 / 2"
  shows "roundHalfEven t = 0"
proof (cases "0 \<le> t")
  case True
  with assms have "\<lfloor>t\<rfloor> = 0" by (simp add: floor_eq_iff)
  with assms True show ?thesis by (simp add: roundHalfEven_def)
next
  case False
  with assms have "\<lfloor>t\<rfloor> = - 1" by (simp add: floor_eq_iff)
  with assms False show ?thesis by (simp add: roundHalfEven_def)
qed

lemma nearest_underflow:
  assumes "\<bar>v\<bar> < 2 powi (- 1075)"
  shows "nearest v = 0"
proof -
  have "(2::real) powi (- 1075) \<le> 2 powi (- 1022)" by (simp only: two_powi_le_iff)
  with assms have "\<bar>v\<bar> < 2 powi (- 1022)" by linarith
  then have q: "quantum v = 2 powi (- 1074)" by (simp add: quantum_def expo_subnormal)
  have "(2::real) powi (- 1075 + 1) = 2 powi (- 1075) * 2 powi 1" by (rule two_powi_add)
  then have half: "(2::real) powi (- 1075) = 2 powi (- 1074) / 2" by simp
  have "\<bar>v / quantum v\<bar> < 1 / 2"
    using assms unfolding q half by (simp add: abs_divide field_simps)
  then have "roundHalfEven (v / quantum v) = 0" by (rule roundHalfEven_small)
  then show ?thesis by (simp add: nearest_def)
qed

lemma round64_zero [simp]: "round64 0 = Num 0"
  by (simp add: round64_def)

lemma round64_finite:
  assumes "\<bar>v\<bar> \<le> 2 powi 1023"
  shows "round64 v = Num (nearest v)" and "\<bar>nearest v\<bar> \<le> 2 powi 1023"
proof -
  have top: "nearest (2 powi 1023) = 2 powi 1023"
    using nearest_representable [of 1 1023] by simp
  from assms have "v \<le> 2 powi 1023" and "- (2 powi 1023) \<le> v" by (simp_all add: abs_le_iff)
  then have "nearest v \<le> nearest (2 powi 1023)" and "nearest (- (2 powi 1023)) \<le> nearest v"
    by (simp_all only: nearest_mono)
  then have b: "nearest v \<le> 2 powi 1023" "- (2 powi 1023) \<le> nearest v"
    by (simp_all only: nearest_minus top)
  then show "\<bar>nearest v\<bar> \<le> 2 powi 1023" by linarith
  have "(2::real) powi 1023 < 2 powi 1024" by (simp only: two_powi_less_iff)
  with b show "round64 v = Num (nearest v)"
    unfolding round64_def Let_def by (smt (verit))
qed

lemma round64_underflow:
  assumes "\<bar>v\<bar> < 2 powi (- 1075)"
  shows "round64 v = Num 0"
proof -
  have "nearest v = 0" by (rule nearest_underflow [OF assms])
  then show ?thesis by (simp add: round64_def)
qed

lemma round64_power_overflow:
  assumes "1024 \<le> k"
  shows "round64 (2 powi k) = PosInf"
proof -
  have "nearest (2 powi k) = 2 powi k"
    using nearest_representable [of 1 k] assms by simp
  moreover have "(2::real) powi 1024 \<le> 2 powi k" using assms by (simp only: two_powi_le_iff)
  ultimately show ?thesis unfolding round64_def Let_def by (simp only: if_True)
qed

lemma round64_Num:
  assumes "round64 v = Num r"
  shows "r = nearest v" and "\<bar>r\<bar> < 2 powi 1024"
  using assms unfolding round64_def Let_def by (auto split: if_splits)

lemma round64_between:
  assumes lo: "round64 l = Num lo" and hi: "round64 h = Num hi" and "l \<le> v" and "v \<le> h"
  shows "\<exists>r. round64 v = Num r \<and> lo \<le> r \<and> r \<le> hi"
proof -
  note l = round64_Num [OF lo] and h = round64_Num [OF hi]
  have "nearest l \<le> nearest v" "nearest v \<le> nearest h"
    using assms(3,4) by (simp_all only: nearest_mono)
  then have b: "lo \<le> nearest v" "nearest v \<le> hi" unfolding l(1) h(1) .
  with l(2) h(2) have "\<not> 2 powi 1024 \<le> nearest v" "\<not> nearest v \<le> - (2 powi 1024)"
    by linarith+
  then have "round64 v = Num (nearest v)" unfolding round64_def Let_def by (simp only: if_False)
  with b show ?thesis by blast
qed

lemma round64_fix:
  assumes "round64 v = Num r"
  shows "round64 r = Num r" and "round64 (- r) = Num (- r)"
proof -
  note r = round64_Num [OF assms]
  have fixed: "nearest r = r" unfolding r(1) by (rule nearest_idem)
  from r(2) have "\<not> 2 powi 1024 \<le> r" "\<not> r \<le> - (2 powi 1024)" by linarith+
  then show "round64 r = Num r" unfolding round64_def Let_def fixed by (simp only: if_False)
  from r(2) have "\<not> 2 powi 1024 \<le> - r" "\<not> - r \<le> - (2 powi 1024)" by linarith+
  then show "round64 (- r) = Num (- r)"
    unfolding round64_def Let_def nearest_minus fixed by (simp only: if_False)
qed

lemma roundHalfEven_near:
  assumes "\<bar>t - of_int k\<bar> < 1 / 2"
  shows "roundHalfEven t = k"
proof (cases "of_int k \<le> t")
  case True
  with assms have "\<lfloor>t\<rfloor> = k" by (simp add: floor_eq_iff abs_less_iff)
  with assms True show ?thesis by (simp add: roundHalfEven_def abs_less_iff)
next
  case False
  with assms have "\<lfloor>t\<rfloor> = k - 1" by (simp add: floor_eq_iff abs_less_iff)
  with assms False show ?thesis by (simp add: roundHalfEven_def abs_less_iff)
qed

lemma round64_evalI:
  assumes "2 powi e \<le> \<bar>v\<bar>" and "\<bar>v\<bar> < 2 powi (e + 1)" and "- 1022 \<le> e" and "e \<le> 1022"
    and "\<bar>v / 2 powi (e - 52) - of_int k\<bar> < 1 / 2"
  shows "round64 v = Num (of_int k * 2 powi (e - 52))"
proof -
  have ex: "expo v = e" by (rule expo_eqI [OF assms(1,2,3)])
  have "roundHalfEven (v / 2 powi (e - 52)) = k" by (rule roundHalfEven_near [OF assms(5)])
  then have n: "nearest v = of_int k * 2 powi (e - 52)"
    by (simp add: nearest_def quantum_def ex)
  have "(2::real) powi (e + 1) \<le> 2 powi 1023" using assms(4) by (simp only: two_powi_le_iff)
  with assms(2) have "\<bar>v\<bar> \<le> 2 powi 1023" by linarith
  from round64_finite(1) [OF this] n show ?thesis by simp
qed

lemma round64_representable:
  assumes "\<bar>k\<bar> < 2 ^ 53" and "- 1074 \<le> e" and "e \<le> 970"
  shows "round64 (of_int k * 2 powi e) = Num (of_int k * 2 powi e)"
proof -
  let ?v = "of_int k * (2::real) powi e"
  from assms(1) have k: "\<bar>k\<bar> \<le> 2 ^ 53" by simp
  have n: "nearest ?v = ?v" by (rule nearest_representable [OF k assms(2)])
  have "\<bar>?v\<bar> = of_int \<bar>k\<bar> * 2 powi e" by (simp add: abs_mult)
  also have "\<dots> \<le> of_int (2 ^ 53) * 2 powi e"
    using k by (intro mult_right_mono) (simp_all only: of_int_le_iff zero_le_power_int zero_le_numeral)
  also have "\<dots> = 2 powi (e + 53)"
    by (simp only: two_powi_add two_powi_53 mult.commute)
  also have "\<dots> \<le> 2 powi 1023" using assms(3) by (simp only: two_powi_le_iff)
  finally have "\<bar>?v\<bar> \<le> 2 powi 1023" .
  from round64_finite(1) [OF this] n show ?thesis by simp
qed

lemma round64_small_ints:
  "round64 1 = Num 1" "round64 (- 1) = Num (- 1)" "round64 2 = Num 2" "round64 1000 = Num 1000"
  "round64 (1 / 2) = Num (1 / 2)"
  using round64_representable [of 1 0] round64_representable [of "- 1" 0]
    round64_representable [of 2 0] round64_representable [of 1000 0]
    round64_representable [of 1 "- 1"]
  by simp_all

lemma round64_safe:
  assumes "v = 0 \<or> (2 powi (- 1022) \<le> \<bar>v\<bar> \<and> \<bar>v\<bar> \<le> 2 powi 1023)"
  shows "\<exists>r. round64 v = Num r \<and> \<bar>r - v\<bar> \<le> 2 powi (- 53) * \<bar>v\<bar>"
proof (cases "v = 0")
  case True
  then show ?thesis by simp
next
  case False
  with assms have lo: "2 powi (- 1022) \<le> \<bar>v\<bar>" and hi: "\<bar>v\<bar> \<le> 2 powi 1023" by simp_all
  from round64_finite(1) [OF hi] nearest_relative [OF lo] show ?thesis by blast
qed

lemma round64_safe_nonneg:
  assumes "0 \<le> v" and "v = 0 \<or> (2 powi (- 1022) \<le> v \<and> v \<le> 2 powi 1023)"
  shows "\<exists>r. round64 v = Num r \<and> v * (1 - 2 powi (- 53)) \<le> r \<and> r \<le> v * (1 + 2 powi (- 53))"
proof -
  from assms have "v = 0 \<or> (2 powi (- 1022) \<le> \<bar>v\<bar> \<and> \<bar>v\<bar> \<le> 2 powi 1023)" by simp
  from round64_safe [OF this] obtain r where r: "round64 v = Num r"
    and e: "\<bar>r - v\<bar> \<le> 2 powi (- 53) * \<bar>v\<bar>" by blast
  from e assms(1) have "v * (1 - 2 powi (- 53)) \<le> r \<and> r \<le> v * (1 + 2 powi (- 53))"
    by (simp only: abs_of_nonneg abs_le_iff algebra_simps) linarith
  with r show ?thesis by blast
qed

lemma unit_roundoff: "(0::real) < 2 powi (- 53)" "(2::real) powi (- 53) \<le> 1 / 2"
proof -
  show "(0::real) < 2 powi (- 53)" by simp
  have "(2::real) powi (- 53) \<le> 2 powi (- 1)" by (simp only: two_powi_le_iff)
  then show "(2::real) powi (- 53) \<le> 1 / 2" by simp
qed

lemma two_powi_double: "(2::real) powi (k + 1) = 2 * 2 powi k"
  using two_powi_add [of k 1] by simp

lemma two_powi_half: "(2::real) powi (k - 1) = 2 powi k / 2"
  using two_powi_double [of "k - 1"] by simp

subsection \<open>Vector.normalize in binary64\<close>

lemma normalize_f64_squares_underflow:
  assumes "round64 (a * a) = Num 0"
  shows "normalize_f64 \<lparr>dx_f64 = Num a, dy_f64 = Num 0\<rparr> mutate = Inl CannotNormalizeZeroVector"
  by (simp add: normalize_f64_def assms)

lemma normalize_f64_squares_overflow:
  assumes "round64 (a * a) = PosInf"
  shows "normalize_f64 \<lparr>dx_f64 = Num a, dy_f64 = Num a\<rparr> False
           = Inr (\<lparr>dx_f64 = Num 0, dy_f64 = Num 0\<rparr>, \<lparr>dx_f64 = Num a, dy_f64 = Num a\<rparr>)"
  by (simp add: normalize_f64_def assms)

text \<open>
  C7 as stated fails in binary64 arithmetic. The vector \<open>(2^-600, 0)\<close> is not the zero
  vector, but its squares underflow to zero: the computed magnitude is 0 and
  \<open>normalize\<close> raises. The squares of the vector \<open>(2^600, 2^600)\<close> overflow: the computed
  magnitude is \<open>Infinity\<close>, and \<open>normalize\<close> returns the vector \<open>(0, 0)\<close>, which is not of
  unit magnitude.
\<close>

theorem normalize_underflow_overflow_counterexample:
  "(2::real) powi (- 600) \<noteq> 0
   \<and> normalize_f64 \<lparr>dx_f64 = Num (2 powi (- 600)), dy_f64 = Num 0\<rparr> False
       = Inl CannotNormalizeZeroVector
   \<and> normalize_f64 \<lparr>dx_f64 = Num (2 powi 600), dy_f64 = Num (2 powi 600)\<rparr> False
       = Inr (\<lparr>dx_f64 = Num 0, dy_f64 = Num 0\<rparr>,
              \<lparr>dx_f64 = Num (2 powi 600), dy_f64 = Num (2 powi 600)\<rparr>)"
proof -
  have tiny: "(2::real) powi (- 600) * 2 powi (- 600) = 2 powi (- 1200)"
    using two_powi_add [of "- 600" "- 600"] by simp
  have "\<bar>(2::real) powi (- 1200)\<bar> < 2 powi (- 1075)"
    by (simp only: abs_of_pos zero_less_power_int zero_less_numeral two_powi_less_iff)
  then have under: "round64 (2 powi (- 600) * 2 powi (- 600)) = Num 0"
    unfolding tiny by (rule round64_underflow)
  have huge: "(2::real) powi 600 * 2 powi 600 = 2 powi 1200"
    using two_powi_add [of 600 600] by simp
  have over: "round64 (2 powi 600 * 2 powi 600) = PosInf"
    unfolding huge by (rule round64_power_overflow) simp
  have nz: "(2::real) powi (- 600) \<noteq> 0" by simp
  note first = normalize_f64_squares_underflow [OF under, of False]
  note second = normalize_f64_squares_overflow [OF over]
  from nz first second show ?thesis by (simp only: simp_thms)
qed

lemma abs_within:
  fixes r q u :: real
  assumes "\<bar>r - q\<bar> \<le> u * \<bar>q\<bar>"
  shows "\<bar>q\<bar> * (1 - u) \<le> \<bar>r\<bar>" and "\<bar>r\<bar> \<le> \<bar>q\<bar> * (1 + u)"
proof -
  have "\<bar>q\<bar> - \<bar>r\<bar> \<le> \<bar>r - q\<bar>" "\<bar>r\<bar> - \<bar>q\<bar> \<le> \<bar>r - q\<bar>" by linarith+
  with assms show "\<bar>q\<bar> * (1 - u) \<le> \<bar>r\<bar>" and "\<bar>r\<bar> \<le> \<bar>q\<bar> * (1 + u)"
    by (simp_all add: algebra_simps)
qed

lemma square_within:
  fixes r q u :: real
  assumes "\<bar>r - q\<bar> \<le> u * \<bar>q\<bar>" and "0 \<le> u" and "u \<le> 1"
  shows "q * q * ((1 - u) * (1 - u)) \<le> r * r" and "r * r \<le> q * q * ((1 + u) * (1 + u))"
proof -
  note w = abs_within [OF assms(1)]
  have lo: "0 \<le> \<bar>q\<bar> * (1 - u)" using assms(3) by simp
  have "(\<bar>q\<bar> * (1 - u)) * (\<bar>q\<bar> * (1 - u)) \<le> \<bar>r\<bar> * \<bar>r\<bar>"
    by (rule mult_mono [OF w(1) w(1) _ lo]) simp
  then show "q * q * ((1 - u) * (1 - u)) \<le> r * r"
    by (simp add: algebra_simps abs_mult_self_eq flip: abs_mult)
  have "\<bar>r\<bar> * \<bar>r\<bar> \<le> (\<bar>q\<bar> * (1 + u)) * (\<bar>q\<bar> * (1 + u))"
    by (rule mult_mono [OF w(2) w(2)]) (use assms(2) in simp_all)
  then show "r * r \<le> q * q * ((1 + u) * (1 + u))"
    by (simp add: algebra_simps abs_mult_self_eq flip: abs_mult)
qed

lemma unit_within:
  fixes a b r s rm M u :: real
  assumes u: "0 \<le> u" "u < 1"
    and M: "0 < M" "M * M = a * a + b * b"
    and rm: "M * ((1 - u) * (1 - u)) \<le> rm" "rm \<le> M * ((1 + u) * (1 + u))"
    and r: "\<bar>r - a / rm\<bar> \<le> u * \<bar>a / rm\<bar>" and s: "\<bar>s - b / rm\<bar> \<le> u * \<bar>b / rm\<bar>"
  shows "(1 - u) / ((1 + u) * (1 + u)) \<le> sqrt (r * r + s * s)"
    and "sqrt (r * r + s * s) \<le> (1 + u) / ((1 - u) * (1 - u))"
proof -
  from u have u1: "u \<le> 1" and d: "0 < (1 - u) * (1 - u)" and e: "0 < (1 + u) * (1 + u)" by simp_all
  from M(1) d have "0 < M * ((1 - u) * (1 - u))" by simp
  with rm(1) have pos: "0 < rm" by linarith
  let ?g = "M / rm"
  have g: "0 < ?g" using M(1) pos by simp
  have Q: "(a / rm) * (a / rm) + (b / rm) * (b / rm) = ?g * ?g"
    using pos by (simp add: M(2) [symmetric] field_simps)
  note ra = square_within [OF r u(1) u1]
  note sa = square_within [OF s u(1) u1]
  have low: "(?g * (1 - u))\<^sup>2 \<le> r * r + s * s"
  proof -
    have "(?g * (1 - u))\<^sup>2 = (?g * ?g) * ((1 - u) * (1 - u))"
      by (simp only: power2_eq_square mult_ac)
    also have "\<dots> = (a / rm) * (a / rm) * ((1 - u) * (1 - u))
                     + (b / rm) * (b / rm) * ((1 - u) * (1 - u))"
      unfolding Q [symmetric] by (simp add: algebra_simps)
    also have "\<dots> \<le> r * r + s * s" using ra(1) sa(1) by linarith
    finally show ?thesis .
  qed
  have high: "r * r + s * s \<le> (?g * (1 + u))\<^sup>2"
  proof -
    have "r * r + s * s \<le> (a / rm) * (a / rm) * ((1 + u) * (1 + u))
                     + (b / rm) * (b / rm) * ((1 + u) * (1 + u))"
      using ra(2) sa(2) by linarith
    also have "\<dots> = (?g * ?g) * ((1 + u) * (1 + u))"
      unfolding Q [symmetric] by (simp add: algebra_simps)
    also have "\<dots> = (?g * (1 + u))\<^sup>2"
      by (simp only: power2_eq_square mult_ac)
    finally show ?thesis .
  qed
  have g_hi: "?g \<le> 1 / ((1 - u) * (1 - u))"
  proof -
    have "M * ((1 - u) * (1 - u)) \<le> rm * 1" using rm(1) by simp
    then show ?thesis using pos d by (simp add: field_simps)
  qed
  have g_lo: "1 / ((1 + u) * (1 + u)) \<le> ?g"
  proof -
    have "rm * 1 \<le> M * ((1 + u) * (1 + u))" using rm(2) by simp
    then show ?thesis using pos e by (simp add: field_simps)
  qed
  have "(1 - u) / ((1 + u) * (1 + u)) = 1 / ((1 + u) * (1 + u)) * (1 - u)" by simp
  also have "\<dots> \<le> ?g * (1 - u)"
    by (rule mult_right_mono [OF g_lo]) (use u in simp)
  also have "\<dots> \<le> sqrt (r * r + s * s)" by (rule real_le_rsqrt [OF low])
  finally show "(1 - u) / ((1 + u) * (1 + u)) \<le> sqrt (r * r + s * s)" .
  have "0 \<le> ?g * (1 + u)"
    by (rule mult_nonneg_nonneg) (use g u in simp_all)
  then have "sqrt (r * r + s * s) \<le> ?g * (1 + u)"
    by (rule real_le_lsqrt [OF _ high])
  also have "\<dots> \<le> 1 / ((1 - u) * (1 - u)) * (1 + u)"
    by (rule mult_right_mono [OF g_hi]) (use u in simp)
  finally show "sqrt (r * r + s * s) \<le> (1 + u) / ((1 - u) * (1 - u))" by simp
qed

lemma sq_range:
  fixes a :: real
  assumes "a = 0 \<or> 2 powi (- n) \<le> \<bar>a\<bar> \<and> \<bar>a\<bar> \<le> 2 powi n"
  shows "a * a = 0 \<or> 2 powi (- n + - n) \<le> a * a \<and> a * a \<le> 2 powi (n + n)"
proof (cases "a = 0")
  case True
  then show ?thesis by simp
next
  case False
  with assms have lo: "2 powi (- n) \<le> \<bar>a\<bar>" and hi: "\<bar>a\<bar> \<le> 2 powi n" by simp_all
  have sq: "a * a = \<bar>a\<bar> * \<bar>a\<bar>" by simp
  have "(2::real) powi (- n) * 2 powi (- n) \<le> \<bar>a\<bar> * \<bar>a\<bar>"
    by (rule mult_mono [OF lo lo]) simp_all
  moreover have "\<bar>a\<bar> * \<bar>a\<bar> \<le> 2 powi n * 2 powi n"
    by (rule mult_mono [OF hi hi]) simp_all
  ultimately show ?thesis unfolding sq by (simp only: two_powi_add) simp
qed

lemma shrink_grow:
  fixes v u :: real
  assumes "0 \<le> v" and "0 \<le> u" and "u \<le> 1 / 2"
  shows "v / 2 \<le> v * (1 - u)" and "v * (1 + u) \<le> 2 * v"
proof -
  have "v * (1 / 2) \<le> v * (1 - u)" by (rule mult_left_mono) (use assms in simp_all)
  then show "v / 2 \<le> v * (1 - u)" by simp
  have "v * (1 + u) \<le> v * 2" by (rule mult_left_mono) (use assms in simp_all)
  then show "v * (1 + u) \<le> 2 * v" by simp
qed

lemma chain_lo: "lo \<le> m \<Longrightarrow> m / 2 \<le> v \<Longrightarrow> v \<le> w \<Longrightarrow> lo / 2 \<le> (w::real)"
  by linarith

lemma chain_hi: "w \<le> v \<Longrightarrow> v \<le> 2 * m \<Longrightarrow> m \<le> h \<Longrightarrow> w \<le> 2 * (h::real)"
  by linarith

lemma magnitude_within:
  fixes a b :: real
  assumes a: "a = 0 \<or> 2 powi (- n) \<le> \<bar>a\<bar> \<and> \<bar>a\<bar> \<le> 2 powi n"
    and b: "b = 0 \<or> 2 powi (- n) \<le> \<bar>b\<bar> \<and> \<bar>b\<bar> \<le> 2 powi n"
    and nz: "\<not> (a = 0 \<and> b = 0)"
    and n: "0 \<le> n" "n \<le> 500"
  shows "\<exists>rm. sqrt64 (add64 (mul64 (Num a) (Num a)) (mul64 (Num b) (Num b))) = Num rm
          \<and> sqrt (a * a + b * b) * ((1 - 2 powi (- 53)) * (1 - 2 powi (- 53))) \<le> rm
          \<and> rm \<le> sqrt (a * a + b * b) * ((1 + 2 powi (- 53)) * (1 + 2 powi (- 53)))
          \<and> 2 powi (- n - 2) \<le> rm \<and> rm \<le> 2 powi (n + 3)"
proof -
  define U :: real where "U = 2 powi (- 53)"
  have U: "0 \<le> U" "U \<le> 1 / 2" using unit_roundoff by (simp_all add: U_def)
  let ?M2 = "a * a + b * b"
  let ?M = "sqrt ?M2"
  let ?lo = "(2::real) powi (- n + - n)" and ?hi = "(2::real) powi (n + n)"
  note sa = sq_range [OF a] and sb = sq_range [OF b]
  have e1: "(2::real) powi (- 1022) \<le> 2 powi (- n + - n - 1)"
    and e2: "(2::real) powi (n + n + 2) \<le> 2 powi 1023"
    and e3: "(2::real) powi (- n + - n - 1) \<le> ?lo" and e4: "?hi \<le> 2 powi (n + n + 2)"
    and e5: "(2::real) powi (- 1022) \<le> 2 powi (- n - 1)" and e6: "(2::real) powi (n + 2) \<le> 2 powi 1023"
    using n by (simp_all only: two_powi_le_iff)
  have safe_sq: "v = 0 \<or> (2 powi (- 1022) \<le> v \<and> v \<le> 2 powi 1023)"
    if "v = 0 \<or> ?lo \<le> v \<and> v \<le> ?hi" for v :: real
    using that e1 e2 e3 e4 by linarith
  from round64_safe_nonneg [OF _ safe_sq [OF sa]]
  obtain ra where ra: "round64 (a * a) = Num ra" "a * a * (1 - U) \<le> ra" "ra \<le> a * a * (1 + U)"
    unfolding U_def by auto
  from round64_safe_nonneg [OF _ safe_sq [OF sb]]
  obtain rb where rb: "round64 (b * b) = Num rb" "b * b * (1 - U) \<le> rb" "rb \<le> b * b * (1 + U)"
    unfolding U_def by auto
  have M2_lo: "?lo \<le> ?M2"
  proof (cases "a = 0")
    case True
    with nz have "b \<noteq> 0" by simp
    with sb have "?lo \<le> b * b" by simp
    moreover have "0 \<le> a * a" by simp
    ultimately show ?thesis by linarith
  next
    case False
    with sa have "?lo \<le> a * a" by simp
    moreover have "0 \<le> b * b" by simp
    ultimately show ?thesis by linarith
  qed
  have lo_pos: "0 < ?lo" by simp
  have hi_pos: "0 < ?hi" by simp
  have M2_hi: "?M2 \<le> 2 * ?hi"
  proof -
    have "a * a \<le> ?hi" using sa hi_pos by (cases "a = 0") simp_all
    moreover have "b * b \<le> ?hi" using sb hi_pos by (cases "b = 0") simp_all
    ultimately show ?thesis by linarith
  qed
  have M2_pos: "0 < ?M2" using M2_lo lo_pos by linarith
  let ?S = "ra + rb"
  have S: "?M2 * (1 - U) \<le> ?S" "?S \<le> ?M2 * (1 + U)"
    using ra(2,3) rb(2,3) by (simp_all add: algebra_simps)
  note sg = shrink_grow [OF less_imp_le [OF M2_pos] U]
  have S_lo: "2 powi (- n + - n - 1) \<le> ?S"
    unfolding two_powi_half by (rule chain_lo [OF M2_lo sg(1) S(1)])
  have S_hi: "?S \<le> 2 powi (n + n + 2)"
  proof -
    have "(2::real) powi (n + n + 1 + 1) = 2 * (2 * ?hi)" by (simp only: two_powi_double)
    moreover have "n + n + 1 + 1 = n + n + 2" by linarith
    ultimately have "(2::real) powi (n + n + 2) = 2 * (2 * ?hi)" by (simp only:)
    then show ?thesis using chain_hi [OF S(2) sg(2) M2_hi] by (simp only:)
  qed
  have S_pos: "0 < ?S"
  proof -
    have "(0::real) < 2 powi (- n + - n - 1)" by simp
    with S_lo show ?thesis by linarith
  qed
  have "?S = 0 \<or> (2 powi (- 1022) \<le> ?S \<and> ?S \<le> 2 powi 1023)"
    using S_lo S_hi e1 e2 by linarith
  from round64_safe_nonneg [OF less_imp_le [OF S_pos] this]
  obtain rs where rs: "round64 ?S = Num rs" "?S * (1 - U) \<le> rs" "rs \<le> ?S * (1 + U)"
    unfolding U_def by auto
  have rs_lo: "?M2 * ((1 - U) * (1 - U)) \<le> rs"
  proof -
    have "?M2 * (1 - U) * (1 - U) \<le> ?S * (1 - U)"
      by (rule mult_right_mono [OF S(1)]) (use U in simp)
    with rs(2) show ?thesis by (simp only: mult.assoc)
  qed
  have rs_hi: "rs \<le> ?M2 * ((1 + U) * (1 + U))"
  proof -
    have "?S * (1 + U) \<le> ?M2 * (1 + U) * (1 + U)"
      by (rule mult_right_mono [OF S(2)]) (use U in simp)
    with rs(3) show ?thesis by (simp only: mult.assoc)
  qed
  have rs_nonneg: "0 \<le> rs"
  proof -
    have "0 \<le> ?S * (1 - U)" by (rule mult_nonneg_nonneg) (use S_pos U in simp_all)
    with rs(2) show ?thesis by linarith
  qed
  let ?R = "sqrt rs"
  have MM: "?M * ?M = ?M2" using M2_pos by simp
  have M_pos: "0 < ?M" using M2_pos by simp
  have R_lo: "?M * (1 - U) \<le> ?R"
  proof (rule real_le_rsqrt)
    have "(?M * (1 - U))\<^sup>2 = (?M * ?M) * ((1 - U) * (1 - U))"
      by (simp only: power2_eq_square mult_ac)
    with rs_lo show "(?M * (1 - U))\<^sup>2 \<le> rs" by (simp only: MM)
  qed
  have R_hi: "?R \<le> ?M * (1 + U)"
  proof (rule real_le_lsqrt)
    show "0 \<le> ?M * (1 + U)" by (rule mult_nonneg_nonneg) (use M_pos U in simp_all)
    have "(?M * (1 + U))\<^sup>2 = (?M * ?M) * ((1 + U) * (1 + U))"
      by (simp only: power2_eq_square mult_ac)
    with rs_hi show "rs \<le> (?M * (1 + U))\<^sup>2" by (simp only: MM)
  qed
  have M_lo: "2 powi (- n) \<le> ?M"
  proof (rule real_le_rsqrt)
    have "((2::real) powi (- n))\<^sup>2 = ?lo" by (simp only: power2_eq_square two_powi_add)
    with M2_lo show "((2::real) powi (- n))\<^sup>2 \<le> ?M2" by simp
  qed
  have M_hi: "?M \<le> 2 powi (n + 1)"
  proof (rule real_le_lsqrt)
    show "(0::real) \<le> 2 powi (n + 1)" by simp
    have "((2::real) powi (n + 1))\<^sup>2 = 2 powi (n + 1) * 2 powi (n + 1)"
      by (simp only: power2_eq_square)
    also have "\<dots> = 2 * (2 * ?hi)"
      by (simp only: two_powi_double two_powi_add [of n n] mult_ac)
    finally show "?M2 \<le> ((2::real) powi (n + 1))\<^sup>2" using M2_hi hi_pos by linarith
  qed
  note sgM = shrink_grow [OF less_imp_le [OF M_pos] U]
  have R_lo': "2 powi (- n - 1) \<le> ?R"
    unfolding two_powi_half by (rule chain_lo [OF M_lo sgM(1) R_lo])
  have R_hi': "?R \<le> 2 powi (n + 2)"
  proof -
    have "(2::real) powi (n + 1 + 1) = 2 * 2 powi (n + 1)" by (rule two_powi_double)
    moreover have "n + 1 + 1 = n + 2" by linarith
    ultimately have "(2::real) powi (n + 2) = 2 * 2 powi (n + 1)" by (simp only:)
    then show ?thesis using chain_hi [OF R_hi sgM(2) M_hi] by (simp only:)
  qed
  have R_pos: "0 < ?R"
  proof -
    have "(0::real) < 2 powi (- n - 1)" by simp
    with R_lo' show ?thesis by linarith
  qed
  have "?R = 0 \<or> (2 powi (- 1022) \<le> ?R \<and> ?R \<le> 2 powi 1023)"
    using R_lo' R_hi' e5 e6 by linarith
  from round64_safe_nonneg [OF less_imp_le [OF R_pos] this]
  obtain rm where rm: "round64 ?R = Num rm" "?R * (1 - U) \<le> rm" "rm \<le> ?R * (1 + U)"
    unfolding U_def by auto
  have rm_lo: "?M * ((1 - U) * (1 - U)) \<le> rm"
  proof -
    have "?M * (1 - U) * (1 - U) \<le> ?R * (1 - U)"
      by (rule mult_right_mono [OF R_lo]) (use U in simp)
    with rm(2) show ?thesis by (simp only: mult.assoc)
  qed
  have rm_hi: "rm \<le> ?M * ((1 + U) * (1 + U))"
  proof -
    have "?R * (1 + U) \<le> ?M * (1 + U) * (1 + U)"
      by (rule mult_right_mono [OF R_hi]) (use U in simp)
    with rm(3) show ?thesis by (simp only: mult.assoc)
  qed
  note sgR = shrink_grow [OF less_imp_le [OF R_pos] U]
  have rm_lo': "2 powi (- n - 2) \<le> rm"
  proof -
    have "(2::real) powi (- n - 1 - 1) = 2 powi (- n - 1) / 2" by (rule two_powi_half)
    moreover have "- n - 1 - 1 = - n - 2" by linarith
    ultimately have "(2::real) powi (- n - 2) = 2 powi (- n - 1) / 2" by (simp only:)
    then show ?thesis using chain_lo [OF R_lo' sgR(1) rm(2)] by (simp only:)
  qed
  have rm_hi': "rm \<le> 2 powi (n + 3)"
  proof -
    have "(2::real) powi (n + 2 + 1) = 2 * 2 powi (n + 2)" by (rule two_powi_double)
    moreover have "n + 2 + 1 = n + 3" by linarith
    ultimately have "(2::real) powi (n + 3) = 2 * 2 powi (n + 2)" by (simp only:)
    then show ?thesis using chain_hi [OF rm(3) sgR(2) R_hi'] by (simp only:)
  qed
  have "sqrt64 (add64 (mul64 (Num a) (Num a)) (mul64 (Num b) (Num b))) = Num rm"
    using rs_nonneg by (simp add: ra(1) rb(1) rs(1) rm(1))
  with rm_lo rm_hi rm_lo' rm_hi' show ?thesis unfolding U_def by blast
qed

lemma roundoff_bounds:
  fixes u :: real
  assumes "0 \<le> u" and "u \<le> 1 / 8"
  shows "(1 + u) / ((1 - u) * (1 - u)) \<le> 1 + 4 * u"
    and "1 - 4 * u \<le> (1 - u) / ((1 + u) * (1 + u))"
proof -
  from assms have d: "0 < (1 - u) * (1 - u)" and e: "0 < (1 + u) * (1 + u)" by simp_all
  have "(1 + 4 * u) * ((1 - u) * (1 - u)) - (1 + u) = u * (1 - 7 * u + 4 * (u * u))"
    by (simp add: algebra_simps)
  moreover have "0 \<le> u * (1 - 7 * u + 4 * (u * u))"
    by (rule mult_nonneg_nonneg) (use assms in simp_all)
  ultimately have "1 + u \<le> (1 + 4 * u) * ((1 - u) * (1 - u))" by linarith
  then show "(1 + u) / ((1 - u) * (1 - u)) \<le> 1 + 4 * u"
    by (simp only: pos_divide_le_eq [OF d])
  have "(1 - u) - (1 - 4 * u) * ((1 + u) * (1 + u)) = u * (1 + 7 * u + 4 * (u * u))"
    by (simp add: algebra_simps)
  moreover have "0 \<le> u * (1 + 7 * u + 4 * (u * u))"
    by (rule mult_nonneg_nonneg) (use assms in simp_all)
  ultimately have "(1 - 4 * u) * ((1 + u) * (1 + u)) \<le> 1 - u" by linarith
  then show "1 - 4 * u \<le> (1 - u) / ((1 + u) * (1 + u))"
    by (simp only: pos_le_divide_eq [OF e])
qed

lemma four_roundoffs: "4 * (2::real) powi (- 53) = 2 powi (- 51)"
proof -
  have "(2::real) powi (- 53 + 1 + 1) = 2 * (2 * 2 powi (- 53))" by (simp only: two_powi_double)
  moreover have "(- 53 + 1 + 1 :: int) = - 51" by simp
  ultimately show ?thesis by (simp only:)
qed

lemma quotient_safe:
  fixes a rm :: real
  assumes a: "a = 0 \<or> 2 powi (- n) \<le> \<bar>a\<bar> \<and> \<bar>a\<bar> \<le> 2 powi n"
    and rm: "2 powi (- n - 2) \<le> rm" "rm \<le> 2 powi (n + 3)"
    and n: "0 \<le> n" "n \<le> 500"
  shows "a / rm = 0 \<or> (2 powi (- 1022) \<le> \<bar>a / rm\<bar> \<and> \<bar>a / rm\<bar> \<le> 2 powi 1023)"
proof (cases "a = 0")
  case True
  then show ?thesis by simp
next
  case False
  with a have lo: "2 powi (- n) \<le> \<bar>a\<bar>" and hi: "\<bar>a\<bar> \<le> 2 powi n" by simp_all
  have p: "(0::real) < 2 powi (- n - 2)" by simp
  with rm(1) have pos: "0 < rm" by linarith
  have q: "\<bar>a / rm\<bar> = \<bar>a\<bar> / rm" using pos by (simp add: abs_divide)
  have "(2::real) powi (- n - (n + 3)) = 2 powi (- n) / 2 powi (n + 3)"
    by (rule power_int_diff) simp
  also have "\<dots> \<le> \<bar>a\<bar> / rm"
    by (rule frac_le [OF _ lo pos rm(2)]) simp
  finally have l: "2 powi (- n - (n + 3)) \<le> \<bar>a / rm\<bar>" unfolding q .
  have "\<bar>a\<bar> / rm \<le> 2 powi n / 2 powi (- n - 2)"
    by (rule frac_le [OF _ hi p rm(1)]) simp
  also have "\<dots> = 2 powi (n - (- n - 2))"
    by (rule power_int_diff [symmetric]) simp
  finally have h: "\<bar>a / rm\<bar> \<le> 2 powi (n - (- n - 2))" unfolding q .
  have "(2::real) powi (- 1022) \<le> 2 powi (- n - (n + 3))"
    and "(2::real) powi (n - (- n - 2)) \<le> 2 powi 1023"
    using n by (simp_all only: two_powi_le_iff)
  with l h show ?thesis by linarith
qed

text \<open>
  C7 (amended). For a vector whose components are each zero or of absolute value between
  \<open>2^-500\<close> and \<open>2^500\<close>, \<open>normalize\<close> raises exactly when both components are zero.
  Otherwise it returns a vector whose magnitude differs from 1 by at most \<open>2^-51\<close> (the
  magnitude taken without rounding, of the components that are returned); without
  \<open>mutate\<close> the receiver is unchanged, with \<open>mutate\<close> the receiver is the returned vector.
\<close>

theorem normalize_f64_unit_within_range:
  fixes a b :: real
  assumes a: "a = 0 \<or> 2 powi (- 500) \<le> \<bar>a\<bar> \<and> \<bar>a\<bar> \<le> 2 powi 500"
    and b: "b = 0 \<or> 2 powi (- 500) \<le> \<bar>b\<bar> \<and> \<bar>b\<bar> \<le> 2 powi 500"
  shows "(normalize_f64 \<lparr>dx_f64 = Num a, dy_f64 = Num b\<rparr> mutate = Inl CannotNormalizeZeroVector
            \<longleftrightarrow> a = 0 \<and> b = 0)
         \<and> (\<not> (a = 0 \<and> b = 0) \<longrightarrow>
              (\<exists>r s. normalize_f64 \<lparr>dx_f64 = Num a, dy_f64 = Num b\<rparr> mutate
                       = Inr (\<lparr>dx_f64 = Num r, dy_f64 = Num s\<rparr>,
                              if mutate then \<lparr>dx_f64 = Num r, dy_f64 = Num s\<rparr>
                              else \<lparr>dx_f64 = Num a, dy_f64 = Num b\<rparr>)
                     \<and> \<bar>sqrt (r * r + s * s) - 1\<bar> \<le> 2 powi (- 51)))"
proof (cases "a = 0 \<and> b = 0")
  case True
  then show ?thesis by (simp add: normalize_f64_def)
next
  case False
  let ?v = "\<lparr>dx_f64 = Num a, dy_f64 = Num b\<rparr>"
  let ?U = "(2::real) powi (- 53)"
  let ?M = "sqrt (a * a + b * b)"
  have n: "(0::int) \<le> 500" "(500::int) \<le> 500" by simp_all
  from magnitude_within [OF a b False n]
  obtain rm where mag: "sqrt64 (add64 (mul64 (Num a) (Num a)) (mul64 (Num b) (Num b))) = Num rm"
    and rm: "?M * ((1 - ?U) * (1 - ?U)) \<le> rm" "rm \<le> ?M * ((1 + ?U) * (1 + ?U))"
    and range: "2 powi (- 500 - 2) \<le> rm" "rm \<le> 2 powi (500 + 3)"
    by blast
  have "(0::real) < 2 powi (- 500 - 2)" by (rule zero_less_power_int) simp
  with range(1) have pos: "0 < rm" by linarith
  from round64_safe [OF quotient_safe [OF a range n]]
  obtain r where r: "round64 (a / rm) = Num r" "\<bar>r - a / rm\<bar> \<le> ?U * \<bar>a / rm\<bar>" by blast
  from round64_safe [OF quotient_safe [OF b range n]]
  obtain s where s: "round64 (b / rm) = Num s" "\<bar>s - b / rm\<bar> \<le> ?U * \<bar>b / rm\<bar>" by blast
  have U: "0 \<le> ?U" "?U < 1" "?U \<le> 1 / 8"
  proof -
    show "0 \<le> ?U" by (rule less_imp_le [OF unit_roundoff(1)])
    show "?U < 1" using unit_roundoff(2) by linarith
    have "?U \<le> 2 powi (- 3)" by (simp only: two_powi_le_iff)
    then show "?U \<le> 1 / 8" by simp
  qed
  have sum_pos: "0 < a * a + b * b"
  proof -
    from False have "a \<noteq> 0 \<or> b \<noteq> 0" by simp
    then show ?thesis
    proof
      assume "a \<noteq> 0"
      then have "a * a \<noteq> 0" by simp
      moreover have "0 \<le> a * a" by simp
      ultimately have "0 < a * a" by linarith
      moreover have "0 \<le> b * b" by simp
      ultimately show ?thesis by linarith
    next
      assume "b \<noteq> 0"
      then have "b * b \<noteq> 0" by simp
      moreover have "0 \<le> b * b" by simp
      ultimately have "0 < b * b" by linarith
      moreover have "0 \<le> a * a" by simp
      ultimately show ?thesis by linarith
    qed
  qed
  then have M: "0 < ?M" "?M * ?M = a * a + b * b" by simp_all
  note w = unit_within [OF U(1) U(2) M rm r(2) s(2)]
  note k = roundoff_bounds [OF U(1) U(3)]
  have "1 - 2 powi (- 51) \<le> sqrt (r * r + s * s)" "sqrt (r * r + s * s) \<le> 1 + 2 powi (- 51)"
    using w k unfolding four_roundoffs by linarith+
  then have unit: "\<bar>sqrt (r * r + s * s) - 1\<bar> \<le> 2 powi (- 51)"
    by (simp only: abs_le_iff) linarith
  have run: "normalize_f64 ?v mutate
      = Inr (\<lparr>dx_f64 = Num r, dy_f64 = Num s\<rparr>,
             if mutate then \<lparr>dx_f64 = Num r, dy_f64 = Num s\<rparr> else ?v)"
    using pos by (simp add: normalize_f64_def Let_def mag [unfolded mul64.simps] r(1) s(1))
  from run have "normalize_f64 ?v mutate \<noteq> Inl CannotNormalizeZeroVector" by simp
  with False run unit show ?thesis by blast
qed

text \<open>
  C7 (amended) at the vector \<open>(3, 4)\<close>.
\<close>

theorem normalize_f64_unit_within_range_witness:
  "2 powi (- 500) \<le> \<bar>3::real\<bar> \<and> \<bar>3::real\<bar> \<le> 2 powi 500
   \<and> 2 powi (- 500) \<le> \<bar>4::real\<bar> \<and> \<bar>4::real\<bar> \<le> 2 powi 500
   \<and> normalize_f64 \<lparr>dx_f64 = Num 3, dy_f64 = Num 4\<rparr> False \<noteq> Inl CannotNormalizeZeroVector
   \<and> (\<exists>r s. normalize_f64 \<lparr>dx_f64 = Num 3, dy_f64 = Num 4\<rparr> False
                = Inr (\<lparr>dx_f64 = Num r, dy_f64 = Num s\<rparr>, \<lparr>dx_f64 = Num 3, dy_f64 = Num 4\<rparr>)
              \<and> \<bar>sqrt (r * r + s * s) - 1\<bar> \<le> 2 powi (- 51))"
proof -
  have "(2::real) powi (- 500) \<le> 2 powi 0" "(2::real) powi 2 \<le> 2 powi 500"
    by (simp_all only: two_powi_le_iff)
  then have range: "2 powi (- 500) \<le> \<bar>3::real\<bar>" "\<bar>3::real\<bar> \<le> 2 powi 500"
    "2 powi (- 500) \<le> \<bar>4::real\<bar>" "\<bar>4::real\<bar> \<le> 2 powi 500"
    by simp_all
  then have a: "(3::real) = 0 \<or> 2 powi (- 500) \<le> \<bar>3::real\<bar> \<and> \<bar>3::real\<bar> \<le> 2 powi 500"
    and b: "(4::real) = 0 \<or> 2 powi (- 500) \<le> \<bar>4::real\<bar> \<and> \<bar>4::real\<bar> \<le> 2 powi 500"
    by (simp_all only: simp_thms)
  from normalize_f64_unit_within_range [OF a b, of False] range show ?thesis
    by (simp only: simp_thms if_False) simp
qed

subsection \<open>Oscillator in binary64\<close>

lemma add64_Num:
  assumes "add64 p q = Num r"
  shows "\<exists>a b. p = Num a \<and> q = Num b"
  using assms by (cases p; cases q) simp_all

lemma run_calls_fields:
  assumes "run_calls f osc calls = (vs, osc')"
  shows "amplitude osc' = amplitude osc \<and> osc_min osc' = osc_min osc"
  using assms
proof (induction f osc calls arbitrary: vs osc' rule: run_calls.induct)
  case (1 f osc)
  then show ?case by simp
next
  case (2 f osc g cs)
  then show ?case by (simp add: setSpeedFactor_def)
next
  case (3 f osc now cs)
  obtain v o1 where g: "getValue f now osc = (v, o1)" by (cases "getValue f now osc")
  obtain ws o2 where r: "run_calls f o1 cs = (ws, o2)" by (cases "run_calls f o1 cs")
  from "3.prems" g r have "osc' = o2" by simp
  moreover from "3.IH" [OF g [symmetric] refl r]
  have "amplitude o2 = amplitude o1 \<and> osc_min o2 = osc_min o1" .
  moreover from g have "amplitude o1 = amplitude osc \<and> osc_min o1 = osc_min osc"
    by (auto simp add: getValue_def Oscillator_update_def Let_def)
  ultimately show ?case by simp
qed

lemma value_within:
  assumes amp: "round64 v = Num amp" and nonneg: "0 \<le> amp"
    and lo: "round64 (n + - amp) = Num lo" and hi: "round64 (n + amp) = Num hi"
    and s: "- 1 \<le> s" "s \<le> 1"
  shows "\<exists>r. add64 (Num n) (mul64 (Num amp) (Num s)) = Num r \<and> lo \<le> r \<and> r \<le> hi"
proof -
  have "amp * s \<le> amp * 1" by (rule mult_left_mono [OF s(2) nonneg])
  moreover have "amp * (- 1) \<le> amp * s" by (rule mult_left_mono [OF s(1) nonneg])
  ultimately have "- amp \<le> amp * s" "amp * s \<le> amp" by simp_all
  from round64_between [OF round64_fix(2) [OF amp] round64_fix(1) [OF amp] this]
  obtain p where p: "round64 (amp * s) = Num p" "- amp \<le> p" "p \<le> amp" by blast
  from p(2,3) have "n + - amp \<le> n + p" "n + p \<le> n + amp" by simp_all
  from round64_between [OF lo hi this]
  obtain r where "round64 (n + p) = Num r" "lo \<le> r" "r \<le> hi" by blast
  then show ?thesis by (simp add: p(1))
qed

lemma value_NaN: "add64 p (mul64 q NaN) = NaN"
  by (cases p; cases q) simp_all

lemma Oscillator_new_amplitude:
  assumes "amplitude (Oscillator_new t0 (Num a) (Num b) per) = Num amp" and "a \<le> b"
  shows "\<exists>v. round64 v = Num amp" and "0 \<le> amp"
proof -
  from assms(1) have d: "div64 (round64 (b + - a)) (Num 2) = Num amp"
    by (simp add: Oscillator_new_def Let_def sub64_def)
  then obtain d' where d': "round64 (b + - a) = Num d'"
    by (cases "round64 (b + - a)") (simp_all add: infinity_def)
  with d have amp: "round64 (d' / 2) = Num amp" by simp
  then show "\<exists>v. round64 v = Num amp" ..
  have "0 \<le> nearest (b + - a)" by (rule nearest_nonneg) (use assms(2) in simp)
  with round64_Num(1) [OF d'] have "0 \<le> d'" by simp
  then have "0 \<le> nearest (d' / 2)" by (intro nearest_nonneg) simp
  with round64_Num(1) [OF amp] show "0 \<le> amp" by simp
qed

text \<open>
  C5 (amended). Let an oscillator be constructed with finite \<open>min \<le> max\<close> such that
  \<open>neutralValue - amplitude\<close> and \<open>neutralValue + amplitude\<close>, computed in binary64 from
  the fields that the constructor sets, are finite numbers \<open>lo\<close> and \<open>hi\<close>; they are \<open>min\<close>
  and \<open>max\<close> up to the rounding of the constructor. Let the sine of the platform return
  \<open>NaN\<close> or a number within \<open>[-1, 1]\<close>. Then after any sequence of \<open>getValue\<close> calls (at any
  clock readings) and \<open>setSpeedFactor\<close> calls (with any factors), the next \<open>getValue\<close>
  returns a number within \<open>[lo, hi]\<close> when the sine of its phase is a number, and \<open>NaN\<close>
  when the sine of its phase is \<open>NaN\<close> (as it is for a phase that is not finite).
\<close>

theorem oscillator_value_within_computed_bounds:
  assumes sine: "\<forall>p. sine p = NaN \<or> (\<exists>s. sine p = Num s \<and> - 1 \<le> s \<and> s \<le> 1)"
    and order: "a \<le> b"
    and lo: "sub64 (neutralValue (Oscillator_new t0 (Num a) (Num b) per))
                   (amplitude (Oscillator_new t0 (Num a) (Num b) per)) = Num lo"
    and hi: "add64 (neutralValue (Oscillator_new t0 (Num a) (Num b) per))
                   (amplitude (Oscillator_new t0 (Num a) (Num b) per)) = Num hi"
    and run: "run_calls sine (Oscillator_new t0 (Num a) (Num b) per) calls = (vs, osc)"
  shows "case sine (currentPhase now osc) of
           Num s \<Rightarrow> \<exists>r. fst (getValue sine now osc) = Num r \<and> lo \<le> r \<and> r \<le> hi
         | _ \<Rightarrow> fst (getValue sine now osc) = NaN"
proof -
  let ?o = "Oscillator_new t0 (Num a) (Num b) per"
  from add64_Num [OF hi] obtain n amp where n: "neutralValue ?o = Num n"
    and amp: "amplitude ?o = Num amp" by blast
  from Oscillator_new_amplitude [OF amp order]
  obtain v where v: "round64 v = Num amp" and nonneg: "0 \<le> amp" by blast
  have neutral: "add64 (osc_min ?o) (amplitude ?o) = Num n"
    using n by (simp add: Oscillator_new_def Let_def)
  from run_calls_fields [OF run] neutral amp
  have fields: "amplitude osc = Num amp" "add64 (osc_min osc) (Num amp) = Num n" by simp_all
  have result: "fst (getValue sine now osc)
                 = add64 (Num n) (mul64 (Num amp) (sine (currentPhase now osc)))"
    by (simp add: getValue_def Oscillator_update_def Let_def fields)
  from lo hi have lo': "round64 (n + - amp) = Num lo" and hi': "round64 (n + amp) = Num hi"
    by (simp_all add: n amp sub64_def)
  from sine have "sine (currentPhase now osc) = NaN
      \<or> (\<exists>s. sine (currentPhase now osc) = Num s \<and> - 1 \<le> s \<and> s \<le> 1)" ..
  then show ?thesis
  proof
    assume "sine (currentPhase now osc) = NaN"
    then show ?thesis by (simp add: result value_NaN)
  next
    assume "\<exists>s. sine (currentPhase now osc) = Num s \<and> - 1 \<le> s \<and> s \<le> 1"
    then obtain s where s: "sine (currentPhase now osc) = Num s" "- 1 \<le> s" "s \<le> 1" by blast
    from value_within [OF v nonneg lo' hi' s(2,3)] show ?thesis
      by (simp only: result s(1) double.case)
  qed
qed

lemma Math_sin_range:
  "Math_sin p = NaN \<or> (\<exists>s. Math_sin p = Num s \<and> - 1 \<le> s \<and> s \<le> 1)"
proof (cases p)
  case (Num v)
  have "- 1 \<le> sin v" "sin v \<le> 1" by simp_all
  from round64_between [OF round64_small_ints(2) round64_small_ints(1) this]
  show ?thesis by (simp add: Math_sin_def Num)
qed (simp_all add: Math_sin_def)

lemma two_pi_is_double:
  "mul64 (Num 2) Math_PI = Num (884279719003555 / 2 ^ 47)"
  using round64_representable [of 884279719003555 "- 47"] by (simp add: Math_PI_def)

lemma unit_oscillator:
  "amplitude (Oscillator_new t0 (Num 0) (Num 1) per) = Num (1 / 2)"
  "neutralValue (Oscillator_new t0 (Num 0) (Num 1) per) = Num (1 / 2)"
  "osc_min (Oscillator_new t0 (Num 0) (Num 1) per) = Num 0"
  "period (Oscillator_new t0 (Num 0) (Num 1) per) = per"
  "speedFactor (Oscillator_new t0 (Num 0) (Num 1) per) = Num 1"
  "phase (Oscillator_new t0 (Num 0) (Num 1) per) = Num 0"
  "Oscillator.lastUpdateTime (Oscillator_new t0 (Num 0) (Num 1) per) = t0"
  by (simp_all add: Oscillator_new_def Let_def sub64_def round64_small_ints)

text \<open>
  C5 (amended) at a concrete input: the oscillator with \<open>min = 0\<close>, \<open>max = 1\<close> and period 2,
  constructed at clock reading 0, after \<open>setSpeedFactor(2)\<close>, read at clock reading 0 with
  the correctly rounded sine. The bounds are 0 and 1, the sine of the phase is 0, and the
  value read is a number within \<open>[0, 1]\<close>.
\<close>

theorem oscillator_value_within_computed_bounds_witness:
  "(\<forall>p. Math_sin p = NaN \<or> (\<exists>s. Math_sin p = Num s \<and> - 1 \<le> s \<and> s \<le> 1))
   \<and> (0::real) \<le> 1
   \<and> sub64 (neutralValue (Oscillator_new (Num 0) (Num 0) (Num 1) (Num 2)))
            (amplitude (Oscillator_new (Num 0) (Num 0) (Num 1) (Num 2))) = Num 0
   \<and> add64 (neutralValue (Oscillator_new (Num 0) (Num 0) (Num 1) (Num 2)))
            (amplitude (Oscillator_new (Num 0) (Num 0) (Num 1) (Num 2))) = Num 1
   \<and> run_calls Math_sin (Oscillator_new (Num 0) (Num 0) (Num 1) (Num 2)) [SetSpeedFactor (Num 2)]
       = ([], setSpeedFactor (Num 2) (Oscillator_new (Num 0) (Num 0) (Num 1) (Num 2)))
   \<and> Math_sin (currentPhase (Num 0)
                   (setSpeedFactor (Num 2) (Oscillator_new (Num 0) (Num 0) (Num 1) (Num 2)))) = Num 0
   \<and> (\<exists>r. fst (getValue Math_sin (Num 0)
                     (setSpeedFactor (Num 2) (Oscillator_new (Num 0) (Num 0) (Num 1) (Num 2))))
              = Num r \<and> 0 \<le> r \<and> r \<le> 1)"
proof -
  let ?o = "Oscillator_new (Num 0) (Num 0) (Num 1) (Num 2)"
  have sine: "\<forall>p. Math_sin p = NaN \<or> (\<exists>s. Math_sin p = Num s \<and> - 1 \<le> s \<and> s \<le> 1)"
    using Math_sin_range by blast
  have lo: "sub64 (neutralValue ?o) (amplitude ?o) = Num 0"
    and hi: "add64 (neutralValue ?o) (amplitude ?o) = Num 1"
    by (simp_all add: unit_oscillator sub64_def round64_small_ints)
  have run: "run_calls Math_sin ?o [SetSpeedFactor (Num 2)] = ([], setSpeedFactor (Num 2) ?o)"
    by simp
  have still: "currentPhase (Num 0) (setSpeedFactor (Num 2) ?o) = Num 0"
    by (simp add: currentPhase_def Let_def setSpeedFactor_def unit_oscillator sub64_def
        round64_small_ints two_pi_is_double)
  have zero: "Math_sin (currentPhase (Num 0) (setSpeedFactor (Num 2) ?o)) = Num 0"
    unfolding still by (simp add: Math_sin_def)
  from oscillator_value_within_computed_bounds [OF sine _ lo hi run, of "Num 0"]
  have "\<exists>r. fst (getValue Math_sin (Num 0) (setSpeedFactor (Num 2) ?o)) = Num r \<and> 0 \<le> r \<and> r \<le> 1"
    by (simp add: zero)
  with sine lo hi run zero show ?thesis by simp
qed

text \<open>
  C5 as stated fails. An oscillator constructed with \<open>min = 0\<close>, \<open>max = 1\<close> and period 0
  reads \<open>NaN\<close> one second later: the phase is \<open>Infinity\<close>. And the bounds of the values
  are not \<open>min\<close> and \<open>max\<close> themselves: for \<open>min = 0.1\<close> and \<open>max = 1.1\<close> (the numbers of
  the format nearest to them) the least value that \<open>update\<close> can compute,
  \<open>neutralValue - amplitude\<close>, is \<open>0.09999999999999998\<close>, below \<open>min\<close>.
\<close>

theorem oscillator_zero_period_counterexample:
  "fst (getValue Math_sin (Num 1000) (Oscillator_new (Num 0) (Num 0) (Num 1) (Num 0))) = NaN
   \<and> round64 (3602879701896397 / 2 ^ 55) = Num (3602879701896397 / 2 ^ 55)
   \<and> round64 (4953959590107546 / 2 ^ 52) = Num (4953959590107546 / 2 ^ 52)
   \<and> sub64 (neutralValue (Oscillator_new (Num 0) (Num (3602879701896397 / 2 ^ 55))
                              (Num (4953959590107546 / 2 ^ 52)) (Num 4)))
            (amplitude (Oscillator_new (Num 0) (Num (3602879701896397 / 2 ^ 55))
                              (Num (4953959590107546 / 2 ^ 52)) (Num 4)))
       = Num (900719925474099 / 2 ^ 53)
   \<and> (900719925474099 / 2 ^ 53 :: real) < 3602879701896397 / 2 ^ 55"
proof -
  let ?o = "Oscillator_new (Num 0) (Num 0) (Num 1) (Num 0)"
  have phase: "currentPhase (Num 1000) ?o = PosInf"
    by (simp add: currentPhase_def Let_def unit_oscillator sub64_def
        round64_small_ints two_pi_is_double infinity_def)
  have nan: "fst (getValue Math_sin (Num 1000) ?o) = NaN"
    by (simp add: getValue_def Oscillator_update_def Let_def phase Math_sin_def value_NaN)
  have tenth: "round64 (3602879701896397 / 2 ^ 55) = Num (3602879701896397 / 2 ^ 55)"
    using round64_representable [of 3602879701896397 "- 55"] by simp
  have eleven: "round64 (4953959590107546 / 2 ^ 52) = Num (4953959590107546 / 2 ^ 52)"
    using round64_representable [of 4953959590107546 "- 52"] by simp
  have diff: "round64 (4953959590107546 / 2 ^ 52 + - (3602879701896397 / 2 ^ 55)) = Num 1"
    using round64_evalI [of 0 "4953959590107546 / 2 ^ 52 + - (3602879701896397 / 2 ^ 55)" "2 ^ 52"]
    by simp
  have neutral: "round64 (3602879701896397 / 2 ^ 55 + 1 / 2) = Num (5404319552844595 / 2 ^ 53)"
    using round64_evalI [of "- 1" "3602879701896397 / 2 ^ 55 + 1 / 2" 5404319552844595]
    by simp
  have low: "round64 (5404319552844595 / 2 ^ 53 + - (1 / 2)) = Num (900719925474099 / 2 ^ 53)"
    using round64_representable [of 900719925474099 "- 53"] by simp
  have bound: "sub64 (neutralValue (Oscillator_new (Num 0) (Num (3602879701896397 / 2 ^ 55))
                              (Num (4953959590107546 / 2 ^ 52)) (Num 4)))
            (amplitude (Oscillator_new (Num 0) (Num (3602879701896397 / 2 ^ 55))
                              (Num (4953959590107546 / 2 ^ 52)) (Num 4)))
       = Num (900719925474099 / 2 ^ 53)"
    by (simp add: Oscillator_new_def Let_def sub64_def diff [simplified] round64_small_ints
        neutral [simplified] low [simplified])
  have less: "(900719925474099 / 2 ^ 53 :: real) < 3602879701896397 / 2 ^ 55" by simp
  from nan tenth eleven bound less show ?thesis by (simp only: simp_thms)
qed

end
